(* ===== verification/Prelude.thy ===== *)
theory Prelude
  imports Main "HOL-Library.Word" "HOL-Library.Multiset"
begin

text \<open>
  Shared vocabulary of the development: Go's 64-bit \<open>int\<close> and \<open>time.Duration\<close> as
  64-bit words, instants of \<open>time.Time\<close> as nanoseconds since the epoch, the result type
  of fallible calls, the collections of simplification rules the components share, and
  the generic lemmas on lists and words that more than one component uses.
\<close>

named_theorems go_simps \<open>rules that evaluate the model of the Go standard library\<close>
named_theorems prog_simps \<open>rules that run a service program on a store\<close>
named_theorems ok_intros \<open>introduction rules of the guarantee logic\<close>

text \<open>Go's \<open>int\<close> and \<open>time.Duration\<close> are signed 64-bit integers whose arithmetic wraps.\<close>

type_synonym go_int = "64 word"
type_synonym duration = "64 word"

definition go_less :: "go_int \<Rightarrow> go_int \<Rightarrow> bool" where
  "go_less a b \<longleftrightarrow> sint a < sint b"

definition go_le :: "go_int \<Rightarrow> go_int \<Rightarrow> bool" where
  "go_le a b \<longleftrightarrow> sint a \<le> sint b"

text \<open>
  An instant is a number of nanoseconds since the epoch. \<open>Time.Add\<close>, \<open>Time.Before\<close> and
  \<open>Time.After\<close> are exact on the years a server sees, so instants are unbounded; the duration
  that is added is a 64-bit value.
\<close>

type_synonym time = int

definition time_add :: "time \<Rightarrow> duration \<Rightarrow> time" where
  "time_add t d = t + sint d"

definition time_before :: "time \<Rightarrow> time \<Rightarrow> bool" where
  "time_before t u \<longleftrightarrow> t < u"

definition time_after :: "time \<Rightarrow> time \<Rightarrow> bool" where
  "time_after t u \<longleftrightarrow> u < t"

lemmas go_compare = go_less_def go_le_def time_add_def time_before_def time_after_def

declare go_compare [go_simps]

subsection \<open>Signed increments\<close>

text \<open>Below the largest value, an increment of a signed word is an increment of the integer.\<close>

lemma sint_inc:
  fixes w :: go_int
  assumes "sint w < 2 ^ 63 - 1"
  shows "sint (w + 1) = sint w + 1"
proof -
  have "- (2 ^ 63) \<le> sint w"
    using sint_ge [of w] by simp
  with assms show ?thesis
    by (simp add: sint_word_ariths signed_take_bit_int_eq_self_iff)
qed

lemma inc_neq [simp]: "(w :: go_int) + 1 \<noteq> w"
  by simp

lemma sint_inc_le:
  fixes w m :: go_int
  assumes "sint w < sint m"
  shows "sint (w + 1) = sint w + 1"
proof -
  have "sint m \<le> 2 ^ 63 - 1"
    using sint_lt [of m] by simp
  with assms show ?thesis
    by (intro sint_inc) simp
qed

subsection \<open>Loops that collect matches up to a limit\<close>

text \<open>
  The shape of the repository's selection loops: skip what does not match, append what does,
  and break once a positive limit is reached.
\<close>

fun collect_upto :: "('a \<Rightarrow> bool) \<Rightarrow> int \<Rightarrow> 'a list \<Rightarrow> 'a list \<Rightarrow> 'a list" where
  "collect_upto P lim acc [] = acc"
| "collect_upto P lim acc (x # xs) =
     (if \<not> P x then collect_upto P lim acc xs
      else if 0 < lim \<and> lim \<le> int (length (acc @ [x])) then acc @ [x]
      else collect_upto P lim (acc @ [x]) xs)"

lemma collect_upto_unlimited:
  "lim \<le> 0 \<Longrightarrow> collect_upto P lim acc xs = acc @ filter P xs"
  by (induction P lim acc xs rule: collect_upto.induct) auto

lemma collect_upto_limited:
  "int (length acc) < lim \<Longrightarrow>
     collect_upto P lim acc xs = acc @ take (nat lim - length acc) (filter P xs)"
proof (induction P lim acc xs rule: collect_upto.induct)
  case (1 P lim acc)
  then show ?case by simp
next
  case (2 P lim acc x xs)
  show ?case
  proof (cases "P x \<and> lim \<le> int (length (acc @ [x]))")
    case True
    with "2.prems" have "lim = 1 + int (length acc)" by simp
    then have "nat lim - length acc = Suc 0" by simp
    with True "2.prems" show ?thesis by simp
  next
    case False
    from "2.prems" have "P x \<Longrightarrow> nat lim - length acc = Suc (nat lim - Suc (length acc))" by simp
    with False 2 show ?thesis by auto
  qed
qed

lemma collect_upto_eq:
  "collect_upto P lim [] xs = (if 0 < lim then take (nat lim) (filter P xs) else filter P xs)"
  using collect_upto_limited [of "[]" lim P xs] collect_upto_unlimited [of lim P "[]" xs] by simp

lemma set_collect_upto: "set (collect_upto P lim [] xs) \<subseteq> {x \<in> set xs. P x}"
  by (auto simp: collect_upto_eq split: if_splits dest: in_set_takeD)

lemma length_collect_upto: "0 < lim \<Longrightarrow> int (length (collect_upto P lim [] xs)) \<le> lim"
  by (simp add: collect_upto_eq)

subsection \<open>Options and lists\<close>

lemma list_all_snoc [simp]: "list_all P (xs @ [x]) \<longleftrightarrow> list_all P xs \<and> P x"
  by simp

lemma map_option_is_None [simp]: "(None = map_option f x) = (x = None)"
  by (cases x) auto

text \<open>
  A choice of orders: the runtime or the database returns the elements of a collection in an
  order it may pick anew each time, but drops and repeats nothing.
\<close>

definition permutes_lists :: "(nat \<Rightarrow> 'a list \<Rightarrow> 'a list) \<Rightarrow> bool" where
  "permutes_lists ord \<longleftrightarrow> (\<forall>n xs. mset (ord n xs) = mset xs)"

lemma permutes_id [simp]: "permutes_lists (\<lambda>n xs. xs)"
  by (simp add: permutes_lists_def)

lemma permutes_set: "permutes_lists ord \<Longrightarrow> set (ord n xs) = set xs"
  by (metis permutes_lists_def set_mset_mset)

lemma dvd_round_up:
  fixes k n :: nat
  assumes "0 < k"
  shows "k dvd n + (if n mod k = 0 then 0 else k - n mod k)"
proof (cases "n mod k = 0")
  case False
  have "n mod k \<le> n" and "n mod k < k"
    using assms by simp_all
  then have "n + (k - n mod k) = (n - n mod k) + k" by arith
  moreover have "k dvd (n - n mod k) + k"
    by (rule dvd_add [OF dvd_minus_mod dvd_refl])
  ultimately show ?thesis using False by simp
qed (simp add: dvd_eq_mod_eq_0)

end
