(* ===== verification/GoStrings.thy ===== *)
theory GoStrings
  imports Prelude "HOL-Library.Sublist"
begin

text \<open>
  The functions of Go's \<open>strings\<close>, \<open>encoding/hex\<close> and \<open>fmt\<close> packages that the program
  uses. A Go string is a sequence of bytes, so a string here is a list of characters in
  \<open>0..255\<close>, and text beyond ASCII appears in its UTF-8 encoding.
\<close>

subsection \<open>\<open>strings.TrimSpace\<close>\<close>

text \<open>The UTF-8 encodings of the code points for which \<open>unicode.IsSpace\<close> holds.\<close>

definition space_encodings :: "string list" where
  "space_encodings =
     [[CHR 0x20], [CHR 0x09], [CHR 0x0A], [CHR 0x0B], [CHR 0x0C], [CHR 0x0D],
      [CHR 0xC2, CHR 0x85], [CHR 0xC2, CHR 0xA0], [CHR 0xE1, CHR 0x9A, CHR 0x80],
      [CHR 0xE2, CHR 0x80, CHR 0x80], [CHR 0xE2, CHR 0x80, CHR 0x81],
      [CHR 0xE2, CHR 0x80, CHR 0x82], [CHR 0xE2, CHR 0x80, CHR 0x83],
      [CHR 0xE2, CHR 0x80, CHR 0x84], [CHR 0xE2, CHR 0x80, CHR 0x85],
      [CHR 0xE2, CHR 0x80, CHR 0x86], [CHR 0xE2, CHR 0x80, CHR 0x87],
      [CHR 0xE2, CHR 0x80, CHR 0x88], [CHR 0xE2, CHR 0x80, CHR 0x89],
      [CHR 0xE2, CHR 0x80, CHR 0x8A], [CHR 0xE2, CHR 0x80, CHR 0xA8],
      [CHR 0xE2, CHR 0x80, CHR 0xA9], [CHR 0xE2, CHR 0x80, CHR 0xAF],
      [CHR 0xE2, CHR 0x81, CHR 0x9F], [CHR 0xE3, CHR 0x80, CHR 0x80]]"

text \<open>Drop encodings of the given list from the front as long as one matches.\<close>

function strip :: "string list \<Rightarrow> string \<Rightarrow> string" where
  "strip es s =
     (case find (\<lambda>e. e \<noteq> [] \<and> prefix e s) es of
        None \<Rightarrow> s
      | Some e \<Rightarrow> strip es (drop (length e) s))"
  by pat_completeness auto
termination
  by (relation "measure (\<lambda>(es, s). length s)")
    (auto simp: find_Some_iff prefix_def)

declare strip.simps [simp del]

definition trim_left :: "string \<Rightarrow> string" where
  "trim_left s = strip space_encodings s"

definition trim_right :: "string \<Rightarrow> string" where
  "trim_right s = rev (strip (map rev space_encodings) (rev s))"

definition trim_space :: "string \<Rightarrow> string" where
  "trim_space s = trim_right (trim_left s)"

lemma strip_stuck: "find (\<lambda>e. e \<noteq> [] \<and> prefix e s) es = None \<Longrightarrow> strip es s = s"
  by (subst strip.simps) simp

lemma find_strip: "find (\<lambda>e. e \<noteq> [] \<and> prefix e (strip es s)) es = None"
proof (induction es s rule: strip.induct)
  case (1 es s)
  then show ?case
    by (subst strip.simps) (auto split: option.splits)
qed

lemma strip_idem: "strip es (strip es s) = strip es s"
  by (rule strip_stuck) (rule find_strip)

lemma suffix_strip: "suffix (strip es s) s"
proof (induction es s rule: strip.induct)
  case (1 es s)
  show ?case
  proof (cases "find (\<lambda>e. e \<noteq> [] \<and> prefix e s) es")
    case None
    then show ?thesis by (simp add: strip_stuck)
  next
    case (Some e)
    then have "strip es s = strip es (drop (length e) s)"
      by (subst strip.simps) simp
    moreover have "suffix (strip es (drop (length e) s)) (drop (length e) s)"
      using Some by (rule "1.IH")
    ultimately show ?thesis
      using suffix_drop suffix_order.trans by metis
  qed
qed

lemma prefix_trim_right: "prefix (trim_right s) s"
  using suffix_strip [of "map rev space_encodings" "rev s"]
  by (simp add: trim_right_def suffix_to_prefix)

lemma trim_right_idem: "trim_right (trim_right s) = trim_right s"
  by (simp add: trim_right_def strip_idem)

text \<open>Trimming twice is trimming once: what is left has no space at either end.\<close>

lemma trim_space_idem [simp]: "trim_space (trim_space s) = trim_space s"
proof -
  let ?l = "trim_left s"
  have "find (\<lambda>e. e \<noteq> [] \<and> prefix e ?l) space_encodings = None"
    unfolding trim_left_def by (rule find_strip)
  then have "find (\<lambda>e. e \<noteq> [] \<and> prefix e (trim_right ?l)) space_encodings = None"
    using prefix_trim_right [of ?l] prefix_order.trans by (fastforce simp: find_None_iff)
  then have "trim_left (trim_right ?l) = trim_right ?l"
    unfolding trim_left_def by (rule strip_stuck)
  then show ?thesis
    by (simp add: trim_space_def trim_right_idem)
qed

lemma trim_space_Nil [simp]: "trim_space [] = []"
proof -
  have "strip es [] = []" for es
    by (rule strip_stuck) (auto simp: find_None_iff)
  then show ?thesis
    by (simp add: trim_space_def trim_left_def trim_right_def)
qed

subsection \<open>\<open>strings.Contains\<close>, \<open>strings.ToLower\<close>, \<open>strings.Join\<close>, \<open>strings.HasSuffix\<close>\<close>

fun contains :: "string \<Rightarrow> string \<Rightarrow> bool" where
  "contains [] sub = (sub = [])"
| "contains (c # cs) sub = (prefix sub (c # cs) \<or> contains cs sub)"

lemma contains_iff: "contains s sub \<longleftrightarrow> sublist sub s"
  by (induction s) (auto simp: sublist_Cons_right)

definition lower_ascii :: "char \<Rightarrow> char" where
  "lower_ascii c = (if (65 :: nat) \<le> of_char c \<and> of_char c \<le> (90 :: nat) then char_of (of_char c + 32 :: nat) else c)"

text \<open>
  The ASCII part of \<open>strings.ToLower\<close>. Besides \<open>A\<close>..\<open>Z\<close>, two code points have an ASCII
  lower case: U+0130 (a dotted capital I, bytes C4 B0) becomes \<open>i\<close> and U+212A (the Kelvin
  sign, bytes E2 84 AA) becomes \<open>k\<close>. Every other code point beyond ASCII keeps a lower case
  beyond ASCII, which no search for an ASCII word can see; it is left as it is here.
\<close>

fun to_lower :: "string \<Rightarrow> string" where
  "to_lower [] = []"
| "to_lower (c # cs) =
     (if c = CHR 0xC4 \<and> prefix [CHR 0xB0] cs then CHR ''i'' # to_lower (drop 1 cs)
      else if c = CHR 0xE2 \<and> prefix [CHR 0x84, CHR 0xAA] cs then CHR ''k'' # to_lower (drop 2 cs)
      else lower_ascii c # to_lower cs)"

fun join :: "string \<Rightarrow> string list \<Rightarrow> string" where
  "join sep [] = []"
| "join sep [s] = s"
| "join sep (s # ss) = s @ sep @ join sep ss"

definition has_suffix :: "string \<Rightarrow> string \<Rightarrow> bool" where
  "has_suffix s suf \<longleftrightarrow> suffix suf s"

text \<open>
  A separator that the left parts do not contain makes concatenation injective: the shape of
  every compound key and of the fingerprint input.
\<close>

lemma append_sep_inject:
  assumes "c \<notin> set a" and "c \<notin> set b"
  shows "a @ c # x = b @ c # y \<longleftrightarrow> a = b \<and> x = y"
proof
  assume eq: "a @ c # x = b @ c # y"
  have "takeWhile (\<lambda>d. d \<noteq> c) (u @ c # v) = u" if "c \<notin> set u" for u v
    using that by (induction u) auto
  from this [of a x] this [of b y] eq assms have "a = b" by metis
  with eq show "a = b \<and> x = y" by simp
qed simp

subsection \<open>\<open>encoding/hex\<close> and decimal formatting\<close>

definition hex_digit :: "nat \<Rightarrow> char" where
  "hex_digit n = ''0123456789abcdef'' ! n"

definition hex_byte :: "8 word \<Rightarrow> string" where
  "hex_byte b = [hex_digit (unat b div 16), hex_digit (unat b mod 16)]"

definition hex_encode :: "8 word list \<Rightarrow> string" where
  "hex_encode bs = concat (map hex_byte bs)"

lemma hex_digit_inject: "m < 16 \<Longrightarrow> n < 16 \<Longrightarrow> hex_digit m = hex_digit n \<longleftrightarrow> m = n"
proof -
  have "distinct ''0123456789abcdef''" by simp
  then show "m < 16 \<Longrightarrow> n < 16 \<Longrightarrow> hex_digit m = hex_digit n \<longleftrightarrow> m = n"
    unfolding hex_digit_def by (subst nth_eq_iff_index_eq) auto
qed

lemma unat_byte: "unat (b :: 8 word) < 256"
  using unsigned_less [of b] by simp

lemma unat_byte_div: "unat (b :: 8 word) div 16 < 16"
  using unat_byte [of b] by (simp add: less_mult_imp_div_less)

lemma hex_byte_inject: "hex_byte a = hex_byte b \<longleftrightarrow> a = b"
proof
  assume "hex_byte a = hex_byte b"
  then have "unat a div 16 = unat b div 16" and "unat a mod 16 = unat b mod 16"
    by (auto simp: hex_byte_def hex_digit_inject unat_byte_div)
  then have "unat a = unat b"
    by (metis div_mult_mod_eq)
  then show "a = b" by (rule unsigned_word_eqI)
qed simp

lemma length_hex_encode [simp]: "length (hex_encode bs) = 2 * length bs"
  by (induction bs) (auto simp: hex_encode_def hex_byte_def)

lemma hex_encode_inject: "hex_encode as = hex_encode bs \<longleftrightarrow> as = bs"
proof
  assume "hex_encode as = hex_encode bs"
  then show "as = bs"
  proof (induction as arbitrary: bs)
    case Nil
    then show ?case by (cases bs) (auto simp: hex_encode_def hex_byte_def)
  next
    case (Cons a as)
    then obtain b bs' where bs: "bs = b # bs'"
      by (cases bs) (auto simp: hex_encode_def hex_byte_def)
    with Cons.prems have "hex_byte a @ hex_encode as = hex_byte b @ hex_encode bs'"
      by (simp add: hex_encode_def)
    then have "hex_byte a = hex_byte b" and "hex_encode as = hex_encode bs'"
      by (auto simp: hex_byte_def)
    with Cons.IH bs show ?case by (simp add: hex_byte_inject)
  qed
qed simp

lemma hex_digit_set: "n < 16 \<Longrightarrow> hex_digit n \<in> set ''0123456789abcdef''"
  unfolding hex_digit_def by (rule nth_mem) simp

lemma hex_encode_no_bar: "CHR ''|'' \<notin> set (hex_encode bs)"
proof (induction bs)
  case Nil
  then show ?case by (simp add: hex_encode_def)
next
  case (Cons b bs)
  have "hex_digit (unat b div 16) \<in> set ''0123456789abcdef''"
    and "hex_digit (unat b mod 16) \<in> set ''0123456789abcdef''"
    using unat_byte_div by (auto simp del: list.set intro!: hex_digit_set)
  with Cons show ?case by (auto simp: hex_encode_def hex_byte_def)
qed

fun show_nat :: "nat \<Rightarrow> string" where
  "show_nat n = (if n < 10 then [hex_digit n] else show_nat (n div 10) @ [hex_digit (n mod 10)])"

declare show_nat.simps [simp del]

definition show_int :: "int \<Rightarrow> string" where
  "show_int i = (if i < 0 then CHR ''-'' # show_nat (nat (- i)) else show_nat (nat i))"

end
