(* ===== verification/Domain.thy ===== *)
theory Domain
  imports GoStrings
begin

text \<open>
  The workflow entities of \<open>internal/domain/models.go\<close> and the error values of
  \<open>internal/application/errors.go\<close>. Every struct is a record with the struct's fields in
  the struct's order; a pointer to a time is an optional time. Roles and statuses are Go
  string types, so they are strings here, with the declared constants as definitions: a role
  from a header or a status from a query can be any string.
\<close>

subsection \<open>Roles and statuses\<close>

type_synonym role = string

definition RoleEmployee :: role where "RoleEmployee = ''employee''"
definition RoleReviewer :: role where "RoleReviewer = ''reviewer''"
definition RoleAdmin :: role where "RoleAdmin = ''admin''"

type_synonym status = string

definition StatusDraft :: status where "StatusDraft = ''draft''"
definition StatusSubmitted :: status where "StatusSubmitted = ''submitted''"
definition StatusPendingReview :: status where "StatusPendingReview = ''pending_review''"
definition StatusApproved :: status where "StatusApproved = ''approved''"
definition StatusRejected :: status where "StatusRejected = ''rejected''"
definition StatusExecuted :: status where "StatusExecuted = ''executed''"
definition StatusExecutionFailed :: status where "StatusExecutionFailed = ''execution_failed''"

lemmas role_defs = RoleEmployee_def RoleReviewer_def RoleAdmin_def
lemmas status_defs = StatusDraft_def StatusSubmitted_def StatusPendingReview_def
  StatusApproved_def StatusRejected_def StatusExecuted_def StatusExecutionFailed_def

lemma role_distinct [simp]:
  "RoleEmployee \<noteq> RoleReviewer" "RoleEmployee \<noteq> RoleAdmin" "RoleReviewer \<noteq> RoleAdmin"
  "RoleReviewer \<noteq> RoleEmployee" "RoleAdmin \<noteq> RoleEmployee" "RoleAdmin \<noteq> RoleReviewer"
  by (simp_all add: role_defs)

lemma status_distinct_list:
  "distinct [StatusDraft, StatusSubmitted, StatusPendingReview, StatusApproved, StatusRejected,
     StatusExecuted, StatusExecutionFailed]"
  by (simp add: status_defs)

lemma status_distinct [simp]:
  "StatusDraft \<noteq> StatusSubmitted" "StatusDraft \<noteq> StatusPendingReview" "StatusDraft \<noteq> StatusApproved"
  "StatusDraft \<noteq> StatusRejected" "StatusDraft \<noteq> StatusExecuted" "StatusDraft \<noteq> StatusExecutionFailed"
  "StatusSubmitted \<noteq> StatusPendingReview" "StatusSubmitted \<noteq> StatusApproved"
  "StatusSubmitted \<noteq> StatusRejected" "StatusSubmitted \<noteq> StatusExecuted"
  "StatusSubmitted \<noteq> StatusExecutionFailed" "StatusPendingReview \<noteq> StatusApproved"
  "StatusPendingReview \<noteq> StatusRejected" "StatusPendingReview \<noteq> StatusExecuted"
  "StatusPendingReview \<noteq> StatusExecutionFailed" "StatusApproved \<noteq> StatusRejected"
  "StatusApproved \<noteq> StatusExecuted" "StatusApproved \<noteq> StatusExecutionFailed"
  "StatusRejected \<noteq> StatusExecuted" "StatusRejected \<noteq> StatusExecutionFailed"
  "StatusExecuted \<noteq> StatusExecutionFailed"
  using status_distinct_list by auto

lemmas status_distinct_sym [simp] = status_distinct [symmetric]

subsection \<open>Entities\<close>

record actor =
  act_ID :: string
  act_Role :: role

record request =
  ReqID :: string
  ReqType :: string
  TargetResource :: string
  Justification :: string
  RequesterID :: string
  AssignedReviewerID :: string
  Status :: status
  Version :: go_int
  ReminderCount :: go_int
  ExecutionAttempts :: go_int
  LastExecutionError :: string
  CreatedAt :: time
  UpdatedAt :: time
  SubmittedAt :: "time option"
  ApprovedAt :: "time option"
  ReviewedAt :: "time option"
  ExecutedAt :: "time option"
  LastRemindedAt :: "time option"
  NextExecutionAt :: "time option"

text \<open>
  Go's zero value \<open>domain.Request{}\<close>, which every error return of the service carries. The
  zero \<open>time.Time\<close> is 1 January of the year 1, so many nanoseconds before the epoch.
\<close>

definition zero_time :: time where
  "zero_time = - 62135596800 * 1000000000"

definition zero_request :: request where
  "zero_request =
     \<lparr>ReqID = [], ReqType = [], TargetResource = [], Justification = [], RequesterID = [],
      AssignedReviewerID = [], Status = [], Version = 0, ReminderCount = 0,
      ExecutionAttempts = 0, LastExecutionError = [], CreatedAt = zero_time,
      UpdatedAt = zero_time, SubmittedAt = None, ApprovedAt = None, ReviewedAt = None,
      ExecutedAt = None, LastRemindedAt = None, NextExecutionAt = None\<rparr>"

record audit_entry =
  aud_ID :: string
  aud_RequestID :: string
  aud_ActorID :: string
  aud_ActorRole :: role
  aud_Action :: string
  aud_Description :: string
  aud_CreatedAt :: time

record review_action =
  rev_ID :: string
  rev_RequestID :: string
  rev_Decision :: string
  rev_Comment :: string
  rev_ActorID :: string
  rev_CreatedAt :: time

record job_run =
  job_ID :: string
  job_RequestID :: string
  job_JobType :: string
  job_Status :: string
  job_Attempt :: go_int
  job_Message :: string
  job_ExecutedAt :: time

record idempotency_record =
  idem_Key :: string
  idem_Scope :: string
  idem_Fingerprint :: string
  idem_RequestID :: string
  idem_CreatedAt :: time

record request_filter =
  flt_RequesterID :: string
  flt_ReviewerID :: string
  flt_Status :: status

subsection \<open>Errors\<close>

text \<open>
  The sentinel errors of the application layer. The code wraps a sentinel with a detail by
  \<open>fmt.Errorf("%w: ...")\<close> and recognises it with \<open>errors.Is\<close>; any other error (a driver's,
  say) is no sentinel. The detail keeps what the message is made of.
\<close>

datatype sentinel =
    ErrInvalidInput
  | ErrUnauthorized
  | ErrForbidden
  | ErrNotFound
  | ErrConflict
  | ErrIdempotencyKeyUsed

datatype detail =
    Message string
  | ActorIDRequired
  | InvalidActorRole role
  | BindFailure string

datatype go_error =
    Sentinel sentinel
  | Wrap sentinel detail
  | OtherError string

type_synonym 'a res = "go_error + 'a"

fun errors_is :: "go_error \<Rightarrow> sentinel \<Rightarrow> bool" where
  "errors_is (Sentinel s) t = (s = t)"
| "errors_is (Wrap s d) t = (s = t)"
| "errors_is (OtherError m) t = False"

subsection \<open>Functions of the domain package\<close>

definition ValidateActor :: "actor \<Rightarrow> detail option" where
  "ValidateActor a =
     (if trim_space (act_ID a) = [] then Some ActorIDRequired
      else if act_Role a = RoleEmployee \<or> act_Role a = RoleReviewer \<or> act_Role a = RoleAdmin then None
      else Some (InvalidActorRole (act_Role a)))"

lemma ValidateActor_None:
  "ValidateActor a = None \<longleftrightarrow>
     trim_space (act_ID a) \<noteq> [] \<and> act_Role a \<in> {RoleEmployee, RoleReviewer, RoleAdmin}"
  by (auto simp: ValidateActor_def)

text \<open>
  \<open>NewID\<close> reads eight random bytes; when the source of randomness fails it falls back on the
  clock. The bytes (or the failure) and the clock reading are its inputs. \<open>UnixNano\<close> is a
  64-bit value.
\<close>

definition NewID_of :: "string \<Rightarrow> 8 word list option \<Rightarrow> time \<Rightarrow> string" where
  "NewID_of pre buf now =
     (case buf of
        None \<Rightarrow> pre @ ''_'' @ show_int (sint (word_of_int now :: go_int))
      | Some bs \<Rightarrow> pre @ ''_'' @ hex_encode bs)"

lemma NewID_of_inject:
  "NewID_of p (Some as) t = NewID_of p (Some bs) u \<longleftrightarrow> as = bs"
  by (simp add: NewID_of_def hex_encode_inject)

lemma length_NewID_of: "length (NewID_of p (Some bs) t) = length p + 1 + 2 * length bs"
  by (simp add: NewID_of_def)

end
