(* ===== verification/StoreApi.thy ===== *)
theory StoreApi
  imports Domain
begin

text \<open>
  The two interfaces of \<open>internal/application/interfaces.go\<close> and the effects of a service
  call. A service method of \<open>internal/application/service.go\<close> is a sequence of calls on
  the \<open>Store\<close>, the \<open>Executor\<close>, the clock and the id generator, each of which is one atomic
  step: the in-memory store holds its mutex for exactly one call, and the Postgres store
  issues exactly one SQL statement per call. Between two calls other goroutines may run. A
  service method is therefore translated to a tree of calls (a \<open>prog\<close>): the node says
  which call is made, the continuation what the method does with the answer. Running the tree
  alone on a store (\<open>run\<close>) gives the sequential meaning; running trees of many goroutines in
  turns (theory Concurrency) gives the interleaved one, from the same definitions.
\<close>

subsection \<open>The calls of the \<open>Store\<close> interface\<close>

datatype write_call =
    CreateRequest request
  | UpdateRequest request go_int
  | AppendAudit audit_entry
  | CreateReview review_action
  | CreateIdempotency idempotency_record
  | AppendJobRun job_run

datatype list_call =
    ListRequests request_filter
  | ListRequestsNeedingReminder time go_int
  | ListRequestsReadyForExecution time go_int

text \<open>An implementation of the interface, as Go's interface value: one function per method.\<close>

record 's store_ops =
  op_write :: "write_call \<Rightarrow> 's \<Rightarrow> go_error option \<times> 's"
  op_GetRequest :: "string \<Rightarrow> 's \<Rightarrow> request res \<times> 's"
  op_list :: "list_call \<Rightarrow> 's \<Rightarrow> request list res \<times> 's"
  op_ListAudit :: "string \<Rightarrow> 's \<Rightarrow> audit_entry list res \<times> 's"
  op_GetIdempotency :: "string \<Rightarrow> string \<Rightarrow> 's \<Rightarrow> idempotency_record res \<times> 's"

text \<open>
  The \<open>Executor\<close> interface: the error text of an execution, or none. The service reads an
  execution error only through \<open>Error()\<close>.
\<close>

type_synonym executor = "request \<Rightarrow> string option"

subsection \<open>Programs over the interfaces\<close>

datatype 'a prog =
    Return 'a
  | Write write_call "go_error option \<Rightarrow> 'a prog"
  | GetRequest string "request res \<Rightarrow> 'a prog"
  | ListOf list_call "request list res \<Rightarrow> 'a prog"
  | ListAudit string "audit_entry list res \<Rightarrow> 'a prog"
  | GetIdempotency string string "idempotency_record res \<Rightarrow> 'a prog"
  | Now "time \<Rightarrow> 'a prog"
  | NewID string "string \<Rightarrow> 'a prog"
  | Execute request "string option \<Rightarrow> 'a prog"

text \<open>Sequential composition: what calling another method and continuing with its result is.\<close>

primrec bind :: "'a prog \<Rightarrow> ('a \<Rightarrow> 'b prog) \<Rightarrow> 'b prog" where
  "bind (Return a) f = f a"
| "bind (Write c k) f = Write c (\<lambda>r. bind (k r) f)"
| "bind (GetRequest i k) f = GetRequest i (\<lambda>r. bind (k r) f)"
| "bind (ListOf c k) f = ListOf c (\<lambda>r. bind (k r) f)"
| "bind (ListAudit i k) f = ListAudit i (\<lambda>r. bind (k r) f)"
| "bind (GetIdempotency s i k) f = GetIdempotency s i (\<lambda>r. bind (k r) f)"
| "bind (Now k) f = Now (\<lambda>r. bind (k r) f)"
| "bind (NewID p k) f = NewID p (\<lambda>r. bind (k r) f)"
| "bind (Execute q k) f = Execute q (\<lambda>r. bind (k r) f)"

lemma bind_Return [simp]: "bind p Return = p"
  by (induction p) auto

lemma bind_assoc: "bind (bind p f) g = bind p (\<lambda>a. bind (f a) g)"
  by (induction p) auto

subsection \<open>The world a program runs in\<close>

text \<open>
  The store, the clock readings still to come, the random bytes still to come (\<open>None\<close> where
  \<open>rand.Read\<close> fails) and, for the record, the requests handed to the executor so far.
\<close>

record 's world =
  wstore :: 's
  clock :: "nat \<Rightarrow> time"
  ticks :: nat
  entropy :: "nat \<Rightarrow> 8 word list option"
  draws :: nat
  executed :: "request list"

definition draw_id :: "string \<Rightarrow> 's world \<Rightarrow> string" where
  "draw_id p w = NewID_of p (entropy w (draws w)) (clock w (ticks w))"

definition after_draw :: "'s world \<Rightarrow> 's world" where
  "after_draw w =
     (case entropy w (draws w) of
        None \<Rightarrow> w\<lparr>draws := draws w + 1, ticks := ticks w + 1\<rparr>
      | Some _ \<Rightarrow> w\<lparr>draws := draws w + 1\<rparr>)"

text \<open>One call, and a whole program.\<close>

fun step :: "'s store_ops \<Rightarrow> executor \<Rightarrow> 'a prog \<Rightarrow> 's world \<Rightarrow> 'a prog \<times> 's world" where
  "step ops ex (Return a) w = (Return a, w)"
| "step ops ex (Write c k) w =
     (let (r, s) = op_write ops c (wstore w) in (k r, w\<lparr>wstore := s\<rparr>))"
| "step ops ex (GetRequest i k) w =
     (let (r, s) = op_GetRequest ops i (wstore w) in (k r, w\<lparr>wstore := s\<rparr>))"
| "step ops ex (ListOf c k) w =
     (let (r, s) = op_list ops c (wstore w) in (k r, w\<lparr>wstore := s\<rparr>))"
| "step ops ex (ListAudit i k) w =
     (let (r, s) = op_ListAudit ops i (wstore w) in (k r, w\<lparr>wstore := s\<rparr>))"
| "step ops ex (GetIdempotency sc i k) w =
     (let (r, s) = op_GetIdempotency ops sc i (wstore w) in (k r, w\<lparr>wstore := s\<rparr>))"
| "step ops ex (Now k) w = (k (clock w (ticks w)), w\<lparr>ticks := ticks w + 1\<rparr>)"
| "step ops ex (NewID p k) w = (k (draw_id p w), after_draw w)"
| "step ops ex (Execute q k) w = (k (ex q), w\<lparr>executed := executed w @ [q]\<rparr>)"

primrec run :: "'s store_ops \<Rightarrow> executor \<Rightarrow> 'a prog \<Rightarrow> 's world \<Rightarrow> 'a \<times> 's world" where
  "run ops ex (Return a) = (\<lambda>w. (a, w))"
| "run ops ex (Write c k) =
     (\<lambda>w. let (r, s) = op_write ops c (wstore w) in run ops ex (k r) (w\<lparr>wstore := s\<rparr>))"
| "run ops ex (GetRequest i k) =
     (\<lambda>w. let (r, s) = op_GetRequest ops i (wstore w) in run ops ex (k r) (w\<lparr>wstore := s\<rparr>))"
| "run ops ex (ListOf c k) =
     (\<lambda>w. let (r, s) = op_list ops c (wstore w) in run ops ex (k r) (w\<lparr>wstore := s\<rparr>))"
| "run ops ex (ListAudit i k) =
     (\<lambda>w. let (r, s) = op_ListAudit ops i (wstore w) in run ops ex (k r) (w\<lparr>wstore := s\<rparr>))"
| "run ops ex (GetIdempotency sc i k) =
     (\<lambda>w. let (r, s) = op_GetIdempotency ops sc i (wstore w) in run ops ex (k r) (w\<lparr>wstore := s\<rparr>))"
| "run ops ex (Now k) = (\<lambda>w. run ops ex (k (clock w (ticks w))) (w\<lparr>ticks := ticks w + 1\<rparr>))"
| "run ops ex (NewID p k) = (\<lambda>w. run ops ex (k (draw_id p w)) (after_draw w))"
| "run ops ex (Execute q k) = (\<lambda>w. run ops ex (k (ex q)) (w\<lparr>executed := executed w @ [q]\<rparr>))"

declare run.simps [prog_simps]

lemma run_bind [prog_simps]:
  "run ops ex (bind p f) w = (case run ops ex p w of (a, w') \<Rightarrow> run ops ex (f a) w')"
  by (induction p arbitrary: w) (auto simp: Let_def split: prod.splits)

text \<open>A run is its first step followed by the run of the rest.\<close>

lemma run_step: "run ops ex p w = (case step ops ex p w of (p', w') \<Rightarrow> run ops ex p' w')"
  by (cases p) (auto simp: Let_def split: prod.splits)

subsection \<open>Programs that only read\<close>

text \<open>A program that writes nothing and executes nothing, whatever the answers it gets.\<close>

primrec reads :: "'a prog \<Rightarrow> bool" where
  "reads (Return a) \<longleftrightarrow> True"
| "reads (Write c k) \<longleftrightarrow> False"
| "reads (GetRequest i k) \<longleftrightarrow> (\<forall>r. reads (k r))"
| "reads (ListOf c k) \<longleftrightarrow> (\<forall>r. reads (k r))"
| "reads (ListAudit i k) \<longleftrightarrow> (\<forall>r. reads (k r))"
| "reads (GetIdempotency sc i k) \<longleftrightarrow> (\<forall>r. reads (k r))"
| "reads (Now k) \<longleftrightarrow> (\<forall>t. reads (k t))"
| "reads (NewID p k) \<longleftrightarrow> (\<forall>i. reads (k i))"
| "reads (Execute q k) \<longleftrightarrow> False"

lemma reads_bind: "reads p \<Longrightarrow> (\<And>a. reads (f a)) \<Longrightarrow> reads (bind p f)"
  by (induction p) auto

end
