(* ===== verification/Sha256.thy ===== *)
theory Sha256
  imports GoStrings
begin

text \<open>
  \<open>crypto/sha256.Sum256\<close> (FIPS 180-4), which \<open>fingerprint\<close> in
  \<open>internal/application/service.go\<close> applies to the joined parts of a review. Bytes and
  32-bit words are machine words; additions wrap.
\<close>

unbundle bit_operations_syntax

type_synonym w32 = "32 word"

text \<open>
  The constants are derived as the standard defines them: the first 32 bits of the fractional
  parts of the square roots of the first 8 primes and of the cube roots of the first 64. The
  root of \<open>p * 2 ^ (32 * k)\<close> is found bit by bit, and the conversion to a word drops the
  integral part.
\<close>

definition floor_root :: "nat \<Rightarrow> int \<Rightarrow> int" where
  "floor_root k n = foldr (\<lambda>b r. if (r + 2 ^ b) ^ k \<le> n then r + 2 ^ b else r) [0..<48] 0"

definition first_primes :: "int list" where
  "first_primes =
     [2, 3, 5, 7, 11, 13, 17, 19, 23, 29, 31, 37, 41, 43, 47, 53,
      59, 61, 67, 71, 73, 79, 83, 89, 97, 101, 103, 107, 109, 113, 127, 131,
      137, 139, 149, 151, 157, 163, 167, 173, 179, 181, 191, 193, 197, 199, 211, 223,
      227, 229, 233, 239, 241, 251, 257, 263, 269, 271, 277, 281, 283, 293, 307, 311]"

definition root_bits :: "nat \<Rightarrow> int \<Rightarrow> w32" where
  "root_bits k p = of_int (floor_root k (p * 2 ^ (32 * k)))"

definition sha_init :: "w32 list" where
  "sha_init = map (root_bits 2) (take 8 first_primes)"

definition sha_k :: "w32 list" where
  "sha_k = map (root_bits 3) first_primes"

text \<open>Big-endian conversions, and the padding to a multiple of 64 bytes.\<close>

definition be_word :: "8 word list \<Rightarrow> w32" where
  "be_word bs = fold (\<lambda>b w. push_bit 8 w OR ucast b) bs 0"

definition be_bytes32 :: "w32 \<Rightarrow> 8 word list" where
  "be_bytes32 w = map (\<lambda>n. ucast (drop_bit n w)) [24, 16, 8, 0]"

definition be_bytes64 :: "64 word \<Rightarrow> 8 word list" where
  "be_bytes64 w = map (\<lambda>n. ucast (drop_bit n w)) [56, 48, 40, 32, 24, 16, 8, 0]"

definition sha_pad :: "8 word list \<Rightarrow> 8 word list" where
  "sha_pad m =
     (let r = (length m + 9) mod 64; z = (if r = 0 then 0 else 64 - r)
      in m @ [0x80] @ replicate z 0 @ be_bytes64 (of_nat (8 * length m)))"

fun chunks :: "nat \<Rightarrow> nat \<Rightarrow> 'a list \<Rightarrow> 'a list list" where
  "chunks k 0 xs = []"
| "chunks k (Suc n) xs = take k xs # chunks k n (drop k xs)"

definition small_sigma0 :: "w32 \<Rightarrow> w32" where
  "small_sigma0 x = word_rotr 7 x XOR word_rotr 18 x XOR drop_bit 3 x"

definition small_sigma1 :: "w32 \<Rightarrow> w32" where
  "small_sigma1 x = word_rotr 17 x XOR word_rotr 19 x XOR drop_bit 10 x"

definition big_sigma0 :: "w32 \<Rightarrow> w32" where
  "big_sigma0 x = word_rotr 2 x XOR word_rotr 13 x XOR word_rotr 22 x"

definition big_sigma1 :: "w32 \<Rightarrow> w32" where
  "big_sigma1 x = word_rotr 6 x XOR word_rotr 11 x XOR word_rotr 25 x"

text \<open>The message schedule: 16 words of the block, then 48 more, each from earlier ones.\<close>

fun sha_extend :: "nat \<Rightarrow> w32 list \<Rightarrow> w32 list" where
  "sha_extend 0 ws = ws"
| "sha_extend (Suc n) ws =
     (let t = length ws
      in sha_extend n
           (ws @ [small_sigma1 (ws ! (t - 2)) + ws ! (t - 7) + small_sigma0 (ws ! (t - 15)) + ws ! (t - 16)]))"

definition sha_schedule :: "8 word list \<Rightarrow> w32 list" where
  "sha_schedule block = sha_extend 48 (map be_word (chunks 4 16 block))"

type_synonym sha_state = "w32 \<times> w32 \<times> w32 \<times> w32 \<times> w32 \<times> w32 \<times> w32 \<times> w32"

fun sha_round :: "w32 \<times> w32 \<Rightarrow> sha_state \<Rightarrow> sha_state" where
  "sha_round (kc, w) (a, b, c, d, e, f, g, h) =
     (let t1 = h + big_sigma1 e + ((e AND f) XOR (NOT e AND g)) + kc + w;
          t2 = big_sigma0 a + ((a AND b) XOR (a AND c) XOR (b AND c))
      in (t1 + t2, a, b, c, d + t1, e, f, g))"

definition sha_block :: "8 word list \<Rightarrow> w32 list \<Rightarrow> w32 list" where
  "sha_block block hs =
     (let s = (hs ! 0, hs ! 1, hs ! 2, hs ! 3, hs ! 4, hs ! 5, hs ! 6, hs ! 7)
      in case fold sha_round (zip sha_k (sha_schedule block)) s of
           (a, b, c, d, e, f, g, h) \<Rightarrow> map2 (+) hs [a, b, c, d, e, f, g, h])"

definition sha256 :: "8 word list \<Rightarrow> 8 word list" where
  "sha256 m =
     (let p = sha_pad m
      in concat (map be_bytes32 (fold sha_block (chunks 64 (length p div 64) p) sha_init)))"

definition bytes_of :: "string \<Rightarrow> 8 word list" where
  "bytes_of s = map of_char s"

subsection \<open>Shape of the digest\<close>

lemma length_be_bytes32 [simp]: "length (be_bytes32 w) = 4"
  by (simp add: be_bytes32_def)

lemma length_be_bytes64 [simp]: "length (be_bytes64 w) = 8"
  by (simp add: be_bytes64_def)

lemma length_sha_block: "length hs = 8 \<Longrightarrow> length (sha_block b hs) = 8"
  by (simp add: sha_block_def Let_def case_prod_beta)

lemma length_fold_sha_block: "length hs = 8 \<Longrightarrow> length (fold sha_block bs hs) = 8"
  by (induction bs arbitrary: hs) (auto simp: length_sha_block)

lemma length_concat_be_bytes32: "length (concat (map be_bytes32 ws)) = 4 * length ws"
  by (induction ws) auto

text \<open>The padded message is a whole number of 64-byte blocks.\<close>

lemma length_sha_pad: "64 dvd length (sha_pad m)"
proof -
  let ?n = "length m + 9"
  have "length (sha_pad m) = ?n + (if ?n mod 64 = 0 then 0 else 64 - ?n mod 64)"
    by (simp add: sha_pad_def Let_def)
  also have "64 dvd \<dots>"
    by (rule dvd_round_up) simp
  finally show ?thesis .
qed

text \<open>A digest has 32 bytes, whatever the message.\<close>

lemma length_sha256: "length (sha256 m) = 32"
  by (simp add: sha256_def Let_def length_concat_be_bytes32 length_fold_sha_block sha_init_def first_primes_def)

end
