(* ===== verification/Service.thy ===== *)
theory Service
  imports StoreApi Sha256
begin

text \<open>
  The application service of \<open>internal/application/service.go\<close> and the simulated executor of
  \<open>internal/application/executor.go\<close>. Every method is a program over the store, the
  executor, the clock and the id generator, in the order in which the method makes its calls;
  every early return is a \<open>Return\<close>. A method's pair of results (a value and an error) is a
  value of a sum type where the value is meaningless on error; the one place where the code
  returns the zero value with a nil error is written out.
\<close>

subsection \<open>The service and its inputs\<close>

text \<open>
  The fields of the \<open>Service\<close> struct that are data; its store, executor and clock are the
  interfaces that a program runs against.
\<close>

record service =
  defaultReviewerID :: string
  reminderAfter :: duration
  executionRetryBase :: duration
  executionMaxAttempts :: go_int

definition NewService :: "string \<Rightarrow> duration \<Rightarrow> duration \<Rightarrow> go_int \<Rightarrow> service" where
  "NewService reviewer after retry attempts =
     \<lparr>defaultReviewerID = trim_space reviewer, reminderAfter = after,
      executionRetryBase = retry, executionMaxAttempts = attempts\<rparr>"

record create_draft_input =
  in_Type :: string
  in_TargetResource :: string
  in_Justification :: string

record review_input =
  in_Comment :: string

record execution_result_input =
  in_Success :: bool
  in_Error :: string
  in_ExternalReference :: string

subsection \<open>Pure helpers\<close>

definition canView :: "actor \<Rightarrow> request \<Rightarrow> bool" where
  "canView a q =
     (if act_Role a = RoleAdmin then True
      else if RequesterID q = act_ID a then True
      else AssignedReviewerID q = act_ID a \<and> act_Role a = RoleReviewer)"

definition canReview :: "actor \<Rightarrow> request \<Rightarrow> bool" where
  "canReview a q =
     (if act_Role a = RoleAdmin then True
      else act_Role a = RoleReviewer \<and> AssignedReviewerID q = act_ID a)"

definition fingerprint :: "string list \<Rightarrow> string" where
  "fingerprint parts = hex_encode (sha256 (bytes_of (join ''|'' parts)))"

definition decisionDescription :: "string \<Rightarrow> string \<Rightarrow> string" where
  "decisionDescription decision comment =
     (if trim_space comment = [] then decision
      else decision @ '': '' @ trim_space comment)"

definition systemActor :: actor where
  "systemActor = \<lparr>act_ID = ''system'', act_Role = RoleAdmin\<rparr>"

text \<open>\<open>auditFor\<close> draws an id and then reads the clock; the entry goes to the continuation.\<close>

definition auditFor ::
  "request \<Rightarrow> actor \<Rightarrow> string \<Rightarrow> string \<Rightarrow> (audit_entry \<Rightarrow> 'a prog) \<Rightarrow> 'a prog" where
  "auditFor q a action description k =
     NewID ''audit'' (\<lambda>i. Now (\<lambda>t.
       k \<lparr>aud_ID = i, aud_RequestID = ReqID q, aud_ActorID = act_ID a,
          aud_ActorRole = act_Role a, aud_Action = action,
          aud_Description = description, aud_CreatedAt = t\<rparr>))"

subsection \<open>Creating and reading\<close>

definition CreateDraft :: "actor \<Rightarrow> create_draft_input \<Rightarrow> request res prog" where
  "CreateDraft a inp =
     (case ValidateActor a of
        Some d \<Rightarrow> Return (Inl (Wrap ErrInvalidInput d))
      | None \<Rightarrow>
         if trim_space (in_Type inp) = [] \<or> trim_space (in_TargetResource inp) = []
            \<or> trim_space (in_Justification inp) = []
         then Return (Inl (Wrap ErrInvalidInput
                (Message ''type, target_resource, and justification are required'')))
         else Now (\<lambda>now. NewID ''req'' (\<lambda>i.
           let q = zero_request
                 \<lparr>ReqID := i, ReqType := trim_space (in_Type inp),
                  TargetResource := trim_space (in_TargetResource inp),
                  Justification := trim_space (in_Justification inp),
                  RequesterID := act_ID a, Status := StatusDraft, Version := 1,
                  CreatedAt := now, UpdatedAt := now\<rparr>
           in Write (CreateRequest q) (\<lambda>e. case e of
                Some err \<Rightarrow> Return (Inl err)
              | None \<Rightarrow>
                  auditFor q a ''draft_created'' ''draft request created'' (\<lambda>entry.
                    Write (AppendAudit entry) (\<lambda>e. case e of
                      Some err \<Rightarrow> Return (Inl err)
                    | None \<Rightarrow> Return (Inr q)))))))"

definition Service_GetRequest :: "actor \<Rightarrow> string \<Rightarrow> request res prog" where
  "Service_GetRequest a requestID =
     GetRequest requestID (\<lambda>r. case r of
       Inl err \<Rightarrow> Return (Inl err)
     | Inr q \<Rightarrow>
         if \<not> canView a q then Return (Inl (Sentinel ErrForbidden))
         else Return (Inr q))"

definition effectiveFilter :: "actor \<Rightarrow> request_filter \<Rightarrow> request_filter option" where
  "effectiveFilter a f =
     (if act_Role a = RoleEmployee then
        Some (f\<lparr>flt_RequesterID := act_ID a, flt_ReviewerID := []\<rparr>)
      else if act_Role a = RoleReviewer then
        Some (if flt_RequesterID f = [] then f\<lparr>flt_ReviewerID := act_ID a\<rparr> else f)
      else if act_Role a = RoleAdmin then Some f
      else None)"

definition Service_ListRequests :: "actor \<Rightarrow> request_filter \<Rightarrow> request list res prog" where
  "Service_ListRequests a f =
     (case ValidateActor a of
        Some d \<Rightarrow> Return (Inl (Wrap ErrInvalidInput d))
      | None \<Rightarrow>
         (case effectiveFilter a f of
            None \<Rightarrow> Return (Inl (Sentinel ErrForbidden))
          | Some f' \<Rightarrow> ListOf (ListRequests f') Return))"

definition Service_ListAudit :: "actor \<Rightarrow> string \<Rightarrow> audit_entry list res prog" where
  "Service_ListAudit a requestID =
     bind (Service_GetRequest a requestID) (\<lambda>r. case r of
       Inl err \<Rightarrow> Return (Inl err)
     | Inr q \<Rightarrow> ListAudit (ReqID q) Return)"

definition requireOwnedOrAdmin :: "actor \<Rightarrow> string \<Rightarrow> request res prog" where
  "requireOwnedOrAdmin a requestID =
     GetRequest requestID (\<lambda>r. case r of
       Inl err \<Rightarrow> Return (Inl err)
     | Inr q \<Rightarrow>
         if act_Role a = RoleAdmin \<or> RequesterID q = act_ID a then Return (Inr q)
         else Return (Inl (Sentinel ErrForbidden)))"

subsection \<open>Idempotency keys\<close>

text \<open>
  No error means that the key was new and is now recorded; \<open>ErrNotFound\<close> means that it was
  recorded before with the same payload, i.e. the call is a replay.
\<close>

definition ensureIdempotency ::
  "string \<Rightarrow> string \<Rightarrow> string \<Rightarrow> string \<Rightarrow> go_error option prog" where
  "ensureIdempotency scope key requestID payload =
     (if trim_space key = [] then
        Return (Some (Wrap ErrInvalidInput (Message ''idempotency key is required'')))
      else GetIdempotency scope key (\<lambda>r. case r of
        Inr rec \<Rightarrow>
          if idem_Fingerprint rec \<noteq> payload then Return (Some (Sentinel ErrIdempotencyKeyUsed))
          else Return (Some (Sentinel ErrNotFound))
      | Inl err \<Rightarrow>
          if \<not> errors_is err ErrNotFound then Return (Some err)
          else Now (\<lambda>t.
            Write (CreateIdempotency
                     \<lparr>idem_Key = key, idem_Scope = scope, idem_Fingerprint = payload,
                      idem_RequestID = requestID, idem_CreatedAt = t\<rparr>) Return)))"

subsection \<open>Submitting\<close>

definition submitted :: "service \<Rightarrow> time \<Rightarrow> request \<Rightarrow> request" where
  "submitted svc now q =
     q\<lparr>Status := StatusPendingReview, AssignedReviewerID := defaultReviewerID svc,
       SubmittedAt := Some now, UpdatedAt := now, Version := Version q + 1\<rparr>"

definition SubmitRequest :: "service \<Rightarrow> actor \<Rightarrow> string \<Rightarrow> string \<Rightarrow> request res prog" where
  "SubmitRequest svc a requestID key =
     bind (requireOwnedOrAdmin a requestID) (\<lambda>r. case r of
       Inl err \<Rightarrow> Return (Inl err)
     | Inr q \<Rightarrow>
        let scope = ''submit:'' @ requestID
        in bind (ensureIdempotency scope key requestID (act_ID a)) (\<lambda>e. case e of
          Some err \<Rightarrow>
            if errors_is err ErrNotFound then GetRequest requestID Return
            else if \<not> errors_is err ErrConflict then Return (Inl err)
            else GetIdempotency scope key (\<lambda>r. case r of
              Inl getErr \<Rightarrow> Return (Inl err)
            | Inr rec \<Rightarrow>
                if idem_Fingerprint rec \<noteq> act_ID a
                then Return (Inl (Sentinel ErrIdempotencyKeyUsed))
                else GetRequest requestID Return)
        | None \<Rightarrow>
            if Status q \<noteq> StatusDraft
            then Return (Inl (Wrap ErrConflict (Message ''only draft requests can be submitted'')))
            else Now (\<lambda>now.
              let q' = submitted svc now q
              in Write (UpdateRequest q' (Version q)) (\<lambda>e. case e of
                Some err \<Rightarrow> Return (Inl err)
              | None \<Rightarrow>
                 auditFor q' a ''submitted'' ''request submitted for review'' (\<lambda>entry.
                   Write (AppendAudit entry) (\<lambda>e. case e of
                     Some err \<Rightarrow> Return (Inl err)
                   | None \<Rightarrow>
                      auditFor q' systemActor ''review_assigned'' ''request assigned to reviewer''
                        (\<lambda>entry. Write (AppendAudit entry) (\<lambda>e. case e of
                          Some err \<Rightarrow> Return (Inl err)
                        | None \<Rightarrow> Return (Inr q'))))))))) "

subsection \<open>Reviewing\<close>

text \<open>
  The two early returns for an already decided request end in \<open>return domain.Request{}, err\<close>,
  where \<open>err\<close> is the outer variable, the nil error of \<open>GetRequest\<close>: the error of
  \<open>ensureIdempotency\<close> is scoped to the \<open>if\<close> statement and is lost. The model returns
  what the code returns, the zero request without an error.
\<close>

definition reviewed :: "string \<Rightarrow> time \<Rightarrow> request \<Rightarrow> request" where
  "reviewed decision now q =
     (let q1 = q\<lparr>ReviewedAt := Some now, UpdatedAt := now, Version := Version q + 1\<rparr>
      in if decision = ''approved''
         then q1\<lparr>Status := StatusApproved, ApprovedAt := Some now,
                 NextExecutionAt := Some now, LastExecutionError := []\<rparr>
         else q1\<lparr>Status := StatusRejected, NextExecutionAt := None\<rparr>)"

definition replayDecided ::
  "request \<Rightarrow> string \<Rightarrow> string \<Rightarrow> string \<Rightarrow> string \<Rightarrow> request res prog" where
  "replayDecided q requestID key decision comment =
     bind (ensureIdempotency (decision @ '':'' @ requestID) key requestID
             (fingerprint [decision, comment]))
       (\<lambda>e. case e of
          None \<Rightarrow> Return (Inr q)
        | Some err \<Rightarrow>
            if errors_is err ErrNotFound then Return (Inr q)
            else Return (Inr zero_request))"

definition reviewRequest ::
  "actor \<Rightarrow> string \<Rightarrow> string \<Rightarrow> string \<Rightarrow> string \<Rightarrow> request res prog" where
  "reviewRequest a requestID key decision comment =
     GetRequest requestID (\<lambda>r. case r of
       Inl err \<Rightarrow> Return (Inl err)
     | Inr q \<Rightarrow>
        if Status q = StatusApproved \<and> decision = ''approved'' then
          replayDecided q requestID key decision comment
        else if Status q = StatusRejected \<and> decision = ''rejected'' then
          replayDecided q requestID key decision comment
        else if Status q \<noteq> StatusPendingReview then
          Return (Inl (Wrap ErrConflict (Message ''request is not awaiting review'')))
        else if \<not> canReview a q then Return (Inl (Sentinel ErrForbidden))
        else if act_ID a = RequesterID q then Return (Inl (Sentinel ErrForbidden))
        else bind (ensureIdempotency (decision @ '':'' @ requestID) key requestID
                     (fingerprint [decision, comment])) (\<lambda>e. case e of
          Some err \<Rightarrow>
            if errors_is err ErrNotFound then GetRequest requestID Return
            else Return (Inl err)
        | None \<Rightarrow> Now (\<lambda>now.
            let q' = reviewed decision now q
            in Write (UpdateRequest q' (Version q)) (\<lambda>e. case e of
              Some err \<Rightarrow> Return (Inl err)
            | None \<Rightarrow> NewID ''rev'' (\<lambda>i.
                Write (CreateReview
                  \<lparr>rev_ID = i, rev_RequestID = requestID, rev_Decision = decision,
                   rev_Comment = trim_space comment, rev_ActorID = act_ID a,
                   rev_CreatedAt = now\<rparr>) (\<lambda>e. case e of
                  Some err \<Rightarrow> Return (Inl err)
                | None \<Rightarrow>
                    auditFor q' a decision (decisionDescription decision comment) (\<lambda>entry.
                      Write (AppendAudit entry) (\<lambda>e. case e of
                        Some err \<Rightarrow> Return (Inl err)
                      | None \<Rightarrow> Return (Inr q')))))))))"

definition ApproveRequest ::
  "actor \<Rightarrow> string \<Rightarrow> string \<Rightarrow> review_input \<Rightarrow> request res prog" where
  "ApproveRequest a requestID key inp = reviewRequest a requestID key ''approved'' (in_Comment inp)"

definition RejectRequest ::
  "actor \<Rightarrow> string \<Rightarrow> string \<Rightarrow> review_input \<Rightarrow> request res prog" where
  "RejectRequest a requestID key inp = reviewRequest a requestID key ''rejected'' (in_Comment inp)"

subsection \<open>Execution results\<close>

definition executionApplied ::
  "service \<Rightarrow> bool \<Rightarrow> string \<Rightarrow> time \<Rightarrow> request \<Rightarrow> request" where
  "executionApplied svc success failureMessage now q =
     (let q1 = q\<lparr>UpdatedAt := now, Version := Version q + 1,
                 ExecutionAttempts := ExecutionAttempts q + 1\<rparr>
      in if success
         then q1\<lparr>Status := StatusExecuted, ExecutedAt := Some now,
                 NextExecutionAt := None, LastExecutionError := []\<rparr>
         else q1\<lparr>Status := StatusExecutionFailed,
                 LastExecutionError := trim_space failureMessage,
                 NextExecutionAt :=
                   (if go_le (executionMaxAttempts svc) (ExecutionAttempts q1) then None
                    else Some (time_add now (ExecutionAttempts q1 * executionRetryBase svc)))\<rparr>)"

definition applyExecutionResult ::
  "service \<Rightarrow> request \<Rightarrow> actor \<Rightarrow> bool \<Rightarrow> string \<Rightarrow> request res prog" where
  "applyExecutionResult svc q a success failureMessage =
     (if Status q \<noteq> StatusApproved \<and> Status q \<noteq> StatusExecutionFailed
      then Return (Inl (Wrap ErrConflict (Message ''request is not ready for execution updates'')))
      else Now (\<lambda>now.
        let q' = executionApplied svc success failureMessage now q
        in Write (UpdateRequest q' (Version q)) (\<lambda>e. case e of
          Some err \<Rightarrow> Return (Inl err)
        | None \<Rightarrow>
            auditFor q' a
              (if success then ''execution_succeeded'' else ''execution_failed'')
              (if success then ''request executed successfully''
               else ''execution failed: '' @ trim_space failureMessage)
              (\<lambda>entry. Write (AppendAudit entry) (\<lambda>e. case e of
                Some err \<Rightarrow> Return (Inl err)
              | None \<Rightarrow> Return (Inr q'))))))"

definition RecordExecutionResult ::
  "service \<Rightarrow> actor \<Rightarrow> string \<Rightarrow> execution_result_input \<Rightarrow> request res prog" where
  "RecordExecutionResult svc a requestID inp =
     (if act_Role a \<noteq> RoleAdmin \<and> act_Role a \<noteq> RoleReviewer
      then Return (Inl (Sentinel ErrForbidden))
      else GetRequest requestID (\<lambda>r. case r of
        Inl err \<Rightarrow> Return (Inl err)
      | Inr q \<Rightarrow> applyExecutionResult svc q a (in_Success inp) (in_Error inp)))"

subsection \<open>The passes of the worker\<close>

definition reminded :: "time \<Rightarrow> request \<Rightarrow> request" where
  "reminded now q =
     q\<lparr>Version := Version q + 1, ReminderCount := ReminderCount q + 1,
       UpdatedAt := now, LastRemindedAt := Some now\<rparr>"

primrec remindLoop :: "time \<Rightarrow> request list \<Rightarrow> go_error option prog" where
  "remindLoop now [] = Return None"
| "remindLoop now (q # qs) =
     (let q' = reminded now q
      in Write (UpdateRequest q' (Version q)) (\<lambda>e. case e of
           Some err \<Rightarrow> remindLoop now qs
         | None \<Rightarrow>
             auditFor q' systemActor ''reminder_sent'' ''review reminder generated'' (\<lambda>entry.
               Write (AppendAudit entry) (\<lambda>_. NewID ''job'' (\<lambda>i.
                 Write (AppendJobRun
                   \<lparr>job_ID = i, job_RequestID = ReqID q', job_JobType = ''reminder'',
                    job_Status = ''succeeded'', job_Attempt = ReminderCount q',
                    job_Message = ''reminder recorded'', job_ExecutedAt = now\<rparr>)
                   (\<lambda>_. remindLoop now qs))))))"

definition ProcessDueReminders :: "service \<Rightarrow> go_int \<Rightarrow> go_error option prog" where
  "ProcessDueReminders svc limit =
     Now (\<lambda>now.
       ListOf (ListRequestsNeedingReminder (time_add now (- reminderAfter svc)) limit) (\<lambda>r. case r of
         Inl err \<Rightarrow> Return (Some err)
       | Inr qs \<Rightarrow> remindLoop now qs))"

primrec executeLoop :: "service \<Rightarrow> time \<Rightarrow> request list \<Rightarrow> go_error option prog" where
  "executeLoop svc now [] = Return None"
| "executeLoop svc now (q # qs) =
     NewID ''job'' (\<lambda>i.
       let job = \<lparr>job_ID = i, job_RequestID = ReqID q, job_JobType = ''execution'',
                  job_Status = ''succeeded'', job_Attempt = ExecutionAttempts q + 1,
                  job_Message = [], job_ExecutedAt = now\<rparr>
       in Execute q (\<lambda>execErr. case execErr of
         Some msg \<Rightarrow>
           bind (applyExecutionResult svc q systemActor False msg) (\<lambda>_.
             Write (AppendJobRun (job\<lparr>job_Status := ''failed'', job_Message := msg\<rparr>)) (\<lambda>_.
               executeLoop svc now qs))
       | None \<Rightarrow>
           bind (applyExecutionResult svc q systemActor True []) (\<lambda>_.
             Write (AppendJobRun (job\<lparr>job_Message := ''execution completed''\<rparr>)) (\<lambda>_.
               executeLoop svc now qs))))"

definition ProcessDueExecutions :: "service \<Rightarrow> go_int \<Rightarrow> go_error option prog" where
  "ProcessDueExecutions svc limit =
     Now (\<lambda>now.
       ListOf (ListRequestsReadyForExecution now limit) (\<lambda>r. case r of
         Inl err \<Rightarrow> Return (Some err)
       | Inr qs \<Rightarrow> executeLoop svc now qs))"

subsection \<open>The simulated executor\<close>

definition SimulatedExecutor :: executor where
  "SimulatedExecutor q =
     (if contains (to_lower (TargetResource q)) ''fail''
      then Some (''simulated provisioning failure for '' @ TargetResource q)
      else None)"

text \<open>An audit entry is a fresh id, a clock reading and fixed fields.\<close>

lemma bind_auditFor [simp]:
  "bind (auditFor q a act desc k) f = auditFor q a act desc (\<lambda>e. bind (k e) f)"
  by (simp add: auditFor_def)

lemma SimulatedExecutor_fails:
  "SimulatedExecutor q \<noteq> None \<longleftrightarrow> sublist ''fail'' (to_lower (TargetResource q))"
  by (simp add: SimulatedExecutor_def contains_iff)

end
