(* ===== verification/StoreContract.thy ===== *)
theory StoreContract
  imports StoreApi
begin

text \<open>
  What the service relies on when it holds a \<open>Store\<close>: the contract both repositories keep.
  The contract speaks of the stored requests through an abstraction function \<open>view\<close>, and of
  the representation through an invariant \<open>inv\<close>.
\<close>

subsection \<open>What a store may change in a request it keeps\<close>

text \<open>
  A repository may keep timestamps at its own precision and trim the two free-text columns on
  the way back, as the Postgres one does. Everything else comes back as it was written; in
  particular which timestamps are set.
\<close>

definition same_text :: "string \<Rightarrow> string \<Rightarrow> bool" where
  "same_text a b \<longleftrightarrow> b = a \<or> b = trim_space a"

definition stored_as :: "request \<Rightarrow> request \<Rightarrow> bool" where
  "stored_as q q' \<longleftrightarrow>
     ReqID q' = ReqID q \<and> ReqType q' = ReqType q \<and> TargetResource q' = TargetResource q \<and>
     Justification q' = Justification q \<and> RequesterID q' = RequesterID q \<and>
     same_text (AssignedReviewerID q) (AssignedReviewerID q') \<and>
     Status q' = Status q \<and> Version q' = Version q \<and> ReminderCount q' = ReminderCount q \<and>
     ExecutionAttempts q' = ExecutionAttempts q \<and>
     same_text (LastExecutionError q) (LastExecutionError q') \<and>
     (SubmittedAt q' = None) = (SubmittedAt q = None) \<and>
     (ApprovedAt q' = None) = (ApprovedAt q = None) \<and>
     (ReviewedAt q' = None) = (ReviewedAt q = None) \<and>
     (ExecutedAt q' = None) = (ExecutedAt q = None) \<and>
     (LastRemindedAt q' = None) = (LastRemindedAt q = None) \<and>
     (NextExecutionAt q' = None) = (NextExecutionAt q = None)"

lemma stored_as_refl [simp]: "stored_as q q"
  by (simp add: stored_as_def same_text_def)

lemma stored_as_ids:
  assumes "stored_as q q'"
  shows "ReqID q' = ReqID q" "Version q' = Version q" "Status q' = Status q"
    "RequesterID q' = RequesterID q" "ExecutionAttempts q' = ExecutionAttempts q"
  using assms by (simp_all add: stored_as_def)

text \<open>What every request that a listing returns satisfies, whichever store answers.\<close>

fun selects :: "list_call \<Rightarrow> request \<Rightarrow> bool" where
  "selects (ListRequests f) q \<longleftrightarrow>
     (flt_RequesterID f = [] \<or> RequesterID q = flt_RequesterID f) \<and>
     (flt_ReviewerID f = [] \<or> trim_space (AssignedReviewerID q) = trim_space (flt_ReviewerID f)) \<and>
     (flt_Status f = [] \<or> Status q = flt_Status f)"
| "selects (ListRequestsNeedingReminder cutoff limit) q \<longleftrightarrow>
     Status q = StatusPendingReview \<and> SubmittedAt q \<noteq> None"
| "selects (ListRequestsReadyForExecution cutoff limit) q \<longleftrightarrow>
     (Status q = StatusApproved \<or> Status q = StatusExecutionFailed) \<and> NextExecutionAt q \<noteq> None"

text \<open>The write calls that concern the table of requests.\<close>

fun touches_requests :: "write_call \<Rightarrow> bool" where
  "touches_requests (CreateRequest q) = True"
| "touches_requests (UpdateRequest q v) = True"
| "touches_requests (AppendAudit e) = False"
| "touches_requests (CreateReview r) = False"
| "touches_requests (CreateIdempotency r) = False"
| "touches_requests (AppendJobRun r) = False"

subsection \<open>The request table: reads are snapshots, updates are guarded by the version\<close>

locale request_store =
  fixes ops :: "'s store_ops"
    and view :: "'s \<Rightarrow> string \<Rightarrow> request option"
    and inv :: "'s \<Rightarrow> bool"
  assumes view_id: "inv s \<Longrightarrow> view s i = Some q \<Longrightarrow> ReqID q = i"
    and get_state: "inv s \<Longrightarrow> op_GetRequest ops i s = (r, s') \<Longrightarrow> inv s' \<and> view s' = view s"
    and get_value: "inv s \<Longrightarrow> op_GetRequest ops i s = (Inr q, s') \<Longrightarrow> view s i = Some q"
    and list_state: "inv s \<Longrightarrow> op_list ops c s = (rs, s') \<Longrightarrow> inv s' \<and> view s' = view s"
    and list_value: "inv s \<Longrightarrow> op_list ops c s = (Inr qs, s') \<Longrightarrow> q \<in> set qs \<Longrightarrow>
      view s (ReqID q) = Some q \<and> selects c q"
    and audit_state: "inv s \<Longrightarrow> op_ListAudit ops i s = (ra, s') \<Longrightarrow> inv s' \<and> view s' = view s"
    and idem_state: "inv s \<Longrightarrow> op_GetIdempotency ops sc i s = (ri, s') \<Longrightarrow> inv s' \<and> view s' = view s"
    and write_inv: "inv s \<Longrightarrow> op_write ops w s = (e, s') \<Longrightarrow> inv s'"
    and write_frame: "inv s \<Longrightarrow> op_write ops w s = (e, s') \<Longrightarrow> \<not> touches_requests w \<Longrightarrow> view s' = view s"
    and create_effect: "inv s \<Longrightarrow> op_write ops (CreateRequest q) s = (e, s') \<Longrightarrow>
      view s' = view s \<and> e \<noteq> None \<or> (\<exists>q'. stored_as q q' \<and> view s' = (view s)(ReqID q \<mapsto> q'))"
    and update_effect: "inv s \<Longrightarrow> op_write ops (UpdateRequest q v) s = (e, s') \<Longrightarrow>
      view s' = view s \<and> e \<noteq> None \<or>
      (\<exists>cur q'. view s (ReqID q) = Some cur \<and> Version cur = v \<and>
         stored_as q q' \<and> view s' = (view s)(ReqID q \<mapsto> q'))"
begin

text \<open>An update that reports success was applied, to a row that had the expected version.\<close>

lemma update_success:
  assumes "inv s" and "op_write ops (UpdateRequest q v) s = (None, s')"
  obtains cur q' where "view s (ReqID q) = Some cur" "Version cur = v" "stored_as q q'"
    "view s' = (view s)(ReqID q \<mapsto> q')"
  using update_effect [OF assms] by auto

text \<open>An update against an outdated version changes nothing and fails.\<close>

lemma update_stale:
  assumes "inv s" and "op_write ops (UpdateRequest q v) s = (e, s')"
    and "view s (ReqID q) = Some cur" and "Version cur \<noteq> v"
  shows "e \<noteq> None \<and> view s' = view s"
  using update_effect [OF assms(1,2)] assms(3,4) by auto

text \<open>A run of any program keeps the invariant.\<close>

lemma run_inv: "inv (wstore w) \<Longrightarrow> run ops ex p w = (r, w') \<Longrightarrow> inv (wstore w')"
proof (induction p arbitrary: w)
  case (Write c k)
  from Write.prems obtain e s' where 1: "op_write ops c (wstore w) = (e, s')"
    "run ops ex (k e) (w\<lparr>wstore := s'\<rparr>) = (r, w')" by (auto split: prod.splits)
  with Write.prems(1) write_inv have "inv (wstore (w\<lparr>wstore := s'\<rparr>))" by simp
  with 1 Write.IH [OF rangeI] show ?case by blast
next
  case (GetRequest i k)
  from GetRequest.prems obtain e s' where 1: "op_GetRequest ops i (wstore w) = (e, s')"
    "run ops ex (k e) (w\<lparr>wstore := s'\<rparr>) = (r, w')" by (auto split: prod.splits)
  with GetRequest.prems(1) get_state have "inv (wstore (w\<lparr>wstore := s'\<rparr>))" by simp
  with 1 GetRequest.IH [OF rangeI] show ?case by blast
next
  case (ListOf c k)
  from ListOf.prems obtain e s' where 1: "op_list ops c (wstore w) = (e, s')"
    "run ops ex (k e) (w\<lparr>wstore := s'\<rparr>) = (r, w')" by (auto split: prod.splits)
  with ListOf.prems(1) list_state have "inv (wstore (w\<lparr>wstore := s'\<rparr>))" by simp
  with 1 ListOf.IH [OF rangeI] show ?case by blast
next
  case (ListAudit i k)
  from ListAudit.prems obtain e s' where 1: "op_ListAudit ops i (wstore w) = (e, s')"
    "run ops ex (k e) (w\<lparr>wstore := s'\<rparr>) = (r, w')" by (auto split: prod.splits)
  with ListAudit.prems(1) audit_state have "inv (wstore (w\<lparr>wstore := s'\<rparr>))" by simp
  with 1 ListAudit.IH [OF rangeI] show ?case by blast
next
  case (GetIdempotency sc i k)
  from GetIdempotency.prems obtain e s' where 1: "op_GetIdempotency ops sc i (wstore w) = (e, s')"
    "run ops ex (k e) (w\<lparr>wstore := s'\<rparr>) = (r, w')" by (auto split: prod.splits)
  with GetIdempotency.prems(1) idem_state have "inv (wstore (w\<lparr>wstore := s'\<rparr>))" by simp
  with 1 GetIdempotency.IH [OF rangeI] show ?case by blast
next
  case (NewID pre k)
  have "inv (wstore (after_draw w))" using NewID.prems(1) by (simp add: after_draw_def split: option.splits)
  moreover have "run ops ex (k (draw_id pre w)) (after_draw w) = (r, w')" using NewID.prems(2) by simp
  ultimately show ?case by (rule NewID.IH [OF rangeI])
next
  case (Now k)
  then have "run ops ex (k (clock w (ticks w))) (w\<lparr>ticks := ticks w + 1\<rparr>) = (r, w')"
    "inv (wstore (w\<lparr>ticks := ticks w + 1\<rparr>))" by simp_all
  then show ?case by (intro Now.IH [OF rangeI])
next
  case (Execute q k)
  then have "run ops ex (k (ex q)) (w\<lparr>executed := executed w @ [q]\<rparr>) = (r, w')"
    "inv (wstore (w\<lparr>executed := executed w @ [q]\<rparr>))" by simp_all
  then show ?case by (intro Execute.IH [OF rangeI])
qed simp

text \<open>No write call removes a request, and none moves one to another id.\<close>

lemma write_keeps:
  assumes "inv s" and "op_write ops w s = (e, s')" and "view s i \<noteq> None"
  shows "view s' i \<noteq> None"
proof (cases w)
  case (CreateRequest q)
  with assms create_effect [of s q e s'] show ?thesis by auto
next
  case (UpdateRequest q v)
  with assms update_effect [of s q v e s'] show ?thesis by auto
qed (use assms write_frame [of s w e s'] in auto)

end

subsection \<open>The audit log and the idempotency keys are append-only\<close>

locale workflow_store = request_store ops view inv
  for ops :: "'s store_ops" and view :: "'s \<Rightarrow> string \<Rightarrow> request option" and inv :: "'s \<Rightarrow> bool" +
  fixes idem :: "'s \<Rightarrow> string \<Rightarrow> string \<Rightarrow> idempotency_record option"
    and audit :: "'s \<Rightarrow> string \<Rightarrow> audit_entry list"
  assumes get_log: "inv s \<Longrightarrow> op_GetRequest ops i s = (r, s') \<Longrightarrow> idem s' = idem s \<and> audit s' = audit s"
    and list_log: "inv s \<Longrightarrow> op_list ops c s = (rs, s') \<Longrightarrow> idem s' = idem s \<and> audit s' = audit s"
    and audit_log: "inv s \<Longrightarrow> op_ListAudit ops i s = (ra, s') \<Longrightarrow> idem s' = idem s \<and> audit s' = audit s"
    and idem_log: "inv s \<Longrightarrow> op_GetIdempotency ops sc k s = (ri, s') \<Longrightarrow> idem s' = idem s \<and> audit s' = audit s"
    and idem_value: "inv s \<Longrightarrow> op_GetIdempotency ops sc k s = (Inr rec, s') \<Longrightarrow> idem s sc k = Some rec"
    and idem_absent: "inv s \<Longrightarrow> op_GetIdempotency ops sc k s = (Inl err, s') \<Longrightarrow>
      errors_is err ErrNotFound \<Longrightarrow> idem s sc k = None"
    and idem_kept: "inv s \<Longrightarrow> op_write ops w s = (e, s') \<Longrightarrow> idem s sc k = Some rec \<Longrightarrow> idem s' sc k = Some rec"
    and idem_created: "inv s \<Longrightarrow> op_write ops (CreateIdempotency rec) s = (None, s') \<Longrightarrow>
      idem s (idem_Scope rec) (idem_Key rec) = None \<and>
      (\<exists>rec'. idem s' (idem_Scope rec) (idem_Key rec) = Some rec' \<and>
              idem_Fingerprint rec' = idem_Fingerprint rec)"
    and audit_grows: "inv s \<Longrightarrow> op_write ops w s = (e, s') \<Longrightarrow> \<exists>es. audit s' i = audit s i @ es"
begin

text \<open>One step of any program: the log only grows and no idempotency key is forgotten.\<close>

lemma step_log:
  assumes "inv (wstore w)" and "step ops ex p w = (p', w')"
  shows "(\<exists>es. audit (wstore w') i = audit (wstore w) i @ es) \<and>
         (idem (wstore w) sc k = Some rec \<longrightarrow> idem (wstore w') sc k = Some rec)"
proof (cases p)
  case (Write c k)
  with assms audit_grows [of "wstore w" c] idem_kept [of "wstore w" c] show ?thesis
    by (auto split: prod.splits)
next
  case (GetRequest i k)
  with assms get_log [of "wstore w" i] show ?thesis by (auto split: prod.splits)
next
  case (ListOf c k)
  with assms list_log [of "wstore w" c] show ?thesis by (auto split: prod.splits)
next
  case (ListAudit i k)
  with assms audit_log [of "wstore w" i] show ?thesis by (auto split: prod.splits)
next
  case (GetIdempotency s i k)
  with assms idem_log [of "wstore w" s i] show ?thesis by (auto split: prod.splits)
qed (use assms in \<open>auto simp: after_draw_def split: option.splits\<close>)

text \<open>A program that only reads changes none of the tables.\<close>

lemma run_reads:
  "inv (wstore w) \<Longrightarrow> reads p \<Longrightarrow> run ops ex p w = (r, w') \<Longrightarrow>
   view (wstore w') = view (wstore w) \<and> idem (wstore w') = idem (wstore w) \<and>
   audit (wstore w') = audit (wstore w) \<and> executed w' = executed w"
proof (induction p arbitrary: w)
  case (GetRequest i k)
  from GetRequest.prems obtain e s' where 1: "op_GetRequest ops i (wstore w) = (e, s')"
    "run ops ex (k e) (w\<lparr>wstore := s'\<rparr>) = (r, w')" by (auto split: prod.splits)
  with GetRequest.IH [OF rangeI, of "w\<lparr>wstore := s'\<rparr>" e] GetRequest.prems
    get_state [OF GetRequest.prems(1) 1(1)] get_log [OF GetRequest.prems(1) 1(1)]
  show ?case by simp
next
  case (ListOf c k)
  from ListOf.prems obtain e s' where 1: "op_list ops c (wstore w) = (e, s')"
    "run ops ex (k e) (w\<lparr>wstore := s'\<rparr>) = (r, w')" by (auto split: prod.splits)
  with ListOf.IH [OF rangeI, of "w\<lparr>wstore := s'\<rparr>" e] ListOf.prems
    list_state [OF ListOf.prems(1) 1(1)] list_log [OF ListOf.prems(1) 1(1)]
  show ?case by simp
next
  case (ListAudit i k)
  from ListAudit.prems obtain e s' where 1: "op_ListAudit ops i (wstore w) = (e, s')"
    "run ops ex (k e) (w\<lparr>wstore := s'\<rparr>) = (r, w')" by (auto split: prod.splits)
  with ListAudit.IH [OF rangeI, of "w\<lparr>wstore := s'\<rparr>" e] ListAudit.prems
    audit_state [OF ListAudit.prems(1) 1(1)] audit_log [OF ListAudit.prems(1) 1(1)]
  show ?case by simp
next
  case (GetIdempotency sc i k)
  from GetIdempotency.prems obtain e s' where 1: "op_GetIdempotency ops sc i (wstore w) = (e, s')"
    "run ops ex (k e) (w\<lparr>wstore := s'\<rparr>) = (r, w')" by (auto split: prod.splits)
  with GetIdempotency.IH [OF rangeI, of "w\<lparr>wstore := s'\<rparr>" e] GetIdempotency.prems
    idem_state [OF GetIdempotency.prems(1) 1(1)] idem_log [OF GetIdempotency.prems(1) 1(1)]
  show ?case by simp
next
  case (Now k)
  from Now.IH [OF rangeI, of "w\<lparr>ticks := ticks w + 1\<rparr>" "clock w (ticks w)"] Now.prems
  show ?case by simp
next
  case (NewID pre k)
  have w: "wstore (after_draw w) = wstore w" "executed (after_draw w) = executed w"
    by (simp_all add: after_draw_def split: option.splits)
  with NewID.IH [OF rangeI, of "after_draw w" "draw_id pre w"] NewID.prems show ?case by simp
qed auto

end

end
