(* ===== verification/Workflow.thy ===== *)
theory Workflow
  imports Service StoreContract
begin

text \<open>
  The abstract specification of the workflow, independent of any store and of any schedule:
  the calls a client or the worker may make, the change of a request each call may cause and
  who may cause it (\<open>allowed\<close>), the graph of statuses (\<open>next_status\<close>), and the coherence of a
  request's fields (\<open>well_formed\<close>). The lemmas show that allowed changes follow the graph and
  keep requests coherent.
\<close>

subsection \<open>The calls on the service\<close>

datatype api_call =
    CallCreateDraft actor create_draft_input
  | CallGetRequest actor string
  | CallListRequests actor request_filter
  | CallSubmit actor string string
  | CallApprove actor string string review_input
  | CallReject actor string string review_input
  | CallExecutionResult actor string execution_result_input
  | CallListAudit actor string
  | CallReminders go_int
  | CallExecutions go_int

datatype outcome =
    ARequest "request res"
  | Requests "request list res"
  | Audit "audit_entry list res"
  | Pass "go_error option"

fun api_prog :: "service \<Rightarrow> api_call \<Rightarrow> outcome prog" where
  "api_prog svc (CallCreateDraft a inp) = bind (CreateDraft a inp) (\<lambda>r. Return (ARequest r))"
| "api_prog svc (CallGetRequest a i) = bind (Service_GetRequest a i) (\<lambda>r. Return (ARequest r))"
| "api_prog svc (CallListRequests a f) = bind (Service_ListRequests a f) (\<lambda>r. Return (Requests r))"
| "api_prog svc (CallSubmit a i key) = bind (SubmitRequest svc a i key) (\<lambda>r. Return (ARequest r))"
| "api_prog svc (CallApprove a i key inp) = bind (ApproveRequest a i key inp) (\<lambda>r. Return (ARequest r))"
| "api_prog svc (CallReject a i key inp) = bind (RejectRequest a i key inp) (\<lambda>r. Return (ARequest r))"
| "api_prog svc (CallExecutionResult a i inp) =
     bind (RecordExecutionResult svc a i inp) (\<lambda>r. Return (ARequest r))"
| "api_prog svc (CallListAudit a i) = bind (Service_ListAudit a i) (\<lambda>r. Return (Audit r))"
| "api_prog svc (CallReminders limit) = bind (ProcessDueReminders svc limit) (\<lambda>r. Return (Pass r))"
| "api_prog svc (CallExecutions limit) = bind (ProcessDueExecutions svc limit) (\<lambda>r. Return (Pass r))"

subsection \<open>Who may change what\<close>

definition is_draft_of :: "actor \<Rightarrow> create_draft_input \<Rightarrow> request \<Rightarrow> bool" where
  "is_draft_of a inp q \<longleftrightarrow>
     ValidateActor a = None \<and> RequesterID q = act_ID a \<and> Status q = StatusDraft \<and> Version q = 1 \<and>
     ReqType q = trim_space (in_Type inp) \<and> TargetResource q = trim_space (in_TargetResource inp) \<and>
     Justification q = trim_space (in_Justification inp) \<and>
     ReqType q \<noteq> [] \<and> TargetResource q \<noteq> [] \<and> Justification q \<noteq> [] \<and>
     AssignedReviewerID q = [] \<and> ReminderCount q = 0 \<and> ExecutionAttempts q = 0 \<and>
     LastExecutionError q = [] \<and> SubmittedAt q = None \<and> ApprovedAt q = None \<and>
     ReviewedAt q = None \<and> ExecutedAt q = None \<and> LastRemindedAt q = None \<and>
     NextExecutionAt q = None \<and> UpdatedAt q = CreatedAt q"

text \<open>
  What the code allows, which is more than the documents say in one place: a reviewer need not be
  assigned to a request to report its execution result.
  \<open>allowed svc ex c None q\<close>: the call \<open>c\<close> may create \<open>q\<close>; \<open>allowed svc ex c (Some old) q\<close>: it
  may replace \<open>old\<close> by \<open>q\<close>.
\<close>

fun allowed :: "service \<Rightarrow> executor \<Rightarrow> api_call \<Rightarrow> request option \<Rightarrow> request \<Rightarrow> bool" where
  "allowed svc ex (CallCreateDraft a inp) None q \<longleftrightarrow> is_draft_of a inp q"
| "allowed svc ex (CallSubmit a i key) (Some old) q \<longleftrightarrow>
     ReqID old = i \<and> Status old = StatusDraft \<and>
     (act_Role a = RoleAdmin \<or> RequesterID old = act_ID a) \<and>
     (\<exists>t. q = submitted svc t old)"
| "allowed svc ex (CallApprove a i key inp) (Some old) q \<longleftrightarrow>
     ReqID old = i \<and> Status old = StatusPendingReview \<and>
     canReview a old \<and> act_ID a \<noteq> RequesterID old \<and>
     (\<exists>t. q = reviewed ''approved'' t old)"
| "allowed svc ex (CallReject a i key inp) (Some old) q \<longleftrightarrow>
     ReqID old = i \<and> Status old = StatusPendingReview \<and>
     canReview a old \<and> act_ID a \<noteq> RequesterID old \<and>
     (\<exists>t. q = reviewed ''rejected'' t old)"
| "allowed svc ex (CallExecutionResult a i inp) (Some old) q \<longleftrightarrow>
     ReqID old = i \<and> (act_Role a = RoleAdmin \<or> act_Role a = RoleReviewer) \<and>
     (Status old = StatusApproved \<or> Status old = StatusExecutionFailed) \<and>
     (\<exists>t. q = executionApplied svc (in_Success inp) (in_Error inp) t old)"
| "allowed svc ex (CallReminders limit) (Some old) q \<longleftrightarrow>
     Status old = StatusPendingReview \<and> (\<exists>t. q = reminded t old)"
| "allowed svc ex (CallExecutions limit) (Some old) q \<longleftrightarrow>
     (Status old = StatusApproved \<or> Status old = StatusExecutionFailed) \<and> NextExecutionAt old \<noteq> None \<and>
     (\<exists>t. q = (case ex old of None \<Rightarrow> executionApplied svc True [] t old
                            | Some msg \<Rightarrow> executionApplied svc False msg t old))"
| "allowed svc ex _ _ q \<longleftrightarrow> False"

text \<open>The shape of an allowed change, whichever call makes it.\<close>

inductive changes :: "service \<Rightarrow> request \<Rightarrow> request \<Rightarrow> bool" for svc where
  submit: "Status old = StatusDraft \<Longrightarrow> changes svc old (submitted svc t old)"
| approve: "Status old = StatusPendingReview \<Longrightarrow> changes svc old (reviewed ''approved'' t old)"
| reject: "Status old = StatusPendingReview \<Longrightarrow> changes svc old (reviewed ''rejected'' t old)"
| remind: "Status old = StatusPendingReview \<Longrightarrow> changes svc old (reminded t old)"
| execution: "Status old = StatusApproved \<or> Status old = StatusExecutionFailed \<Longrightarrow>
    changes svc old (executionApplied svc success msg t old)"

lemma allowed_changes: "allowed svc ex c (Some old) q \<Longrightarrow> changes svc old q"
  by (cases c; clarsimp split: option.splits; blast intro: changes.intros)

lemma allowed_create: "allowed svc ex c None q \<Longrightarrow> \<exists>a inp. c = CallCreateDraft a inp \<and> is_draft_of a inp q"
  by (cases c) auto

lemmas change_defs = submitted_def reviewed_def executionApplied_def reminded_def Let_def

lemma change_ids [simp]:
  "ReqID (submitted svc t q) = ReqID q" "ReqID (reviewed d t q) = ReqID q"
  "ReqID (reminded t q) = ReqID q" "ReqID (executionApplied svc success msg t q) = ReqID q"
  "Version (submitted svc t q) = Version q + 1" "Version (reviewed d t q) = Version q + 1"
  "Version (reminded t q) = Version q + 1"
  "Version (executionApplied svc success msg t q) = Version q + 1"
  by (simp_all add: change_defs)

text \<open>What no change touches, and what every change advances.\<close>

lemma changes_frame:
  assumes "changes svc old q"
  shows "ReqID q = ReqID old" "Version q = Version old + 1" "RequesterID q = RequesterID old"
    "ReqType q = ReqType old" "TargetResource q = TargetResource old"
    "Justification q = Justification old" "CreatedAt q = CreatedAt old"
  using assms by (induction; simp add: change_defs)+

subsection \<open>The graph of statuses\<close>

inductive next_status :: "status \<Rightarrow> status \<Rightarrow> bool" where
  submit: "next_status StatusDraft StatusPendingReview"
| remind: "next_status StatusPendingReview StatusPendingReview"
| approve: "next_status StatusPendingReview StatusApproved"
| reject: "next_status StatusPendingReview StatusRejected"
| execute: "next_status StatusApproved StatusExecuted"
| fail: "next_status StatusApproved StatusExecutionFailed"
| retry: "next_status StatusExecutionFailed StatusExecuted"
| fail_again: "next_status StatusExecutionFailed StatusExecutionFailed"

inductive_simps from_rejected: "next_status StatusRejected s"
inductive_simps from_executed: "next_status StatusExecuted s"
inductive_cases into_approved: "next_status s StatusApproved"

lemma terminal_statuses:
  "\<not> next_status StatusRejected s" "\<not> next_status StatusExecuted s" "\<not> next_status s StatusSubmitted"
    "\<not> next_status s StatusDraft"
  by (auto simp: from_rejected from_executed elim: next_status.cases)

lemma approved_only_from_review: "next_status s StatusApproved \<Longrightarrow> s = StatusPendingReview"
  by (erule into_approved) auto

lemma changes_status: "changes svc old q \<Longrightarrow> next_status (Status old) (Status q)"
proof (induction rule: changes.induct)
  case (execution old success msg t)
  then show ?case
    by (cases success) (auto simp: change_defs intro: next_status.intros)
qed (simp_all add: change_defs next_status.intros)

subsection \<open>Coherence of a request\<close>

definition well_formed :: "service \<Rightarrow> request \<Rightarrow> bool" where
  "well_formed svc q \<longleftrightarrow>
     Status q \<in> {StatusDraft, StatusPendingReview, StatusApproved, StatusRejected, StatusExecuted,
                 StatusExecutionFailed} \<and>
     (SubmittedAt q = None \<longleftrightarrow> Status q = StatusDraft) \<and>
     (ReviewedAt q = None \<longleftrightarrow> Status q \<in> {StatusDraft, StatusPendingReview}) \<and>
     (ApprovedAt q = None \<longleftrightarrow> Status q \<in> {StatusDraft, StatusPendingReview, StatusRejected}) \<and>
     (ExecutedAt q = None \<longleftrightarrow> Status q \<noteq> StatusExecuted) \<and>
     (NextExecutionAt q \<noteq> None \<longleftrightarrow>
        Status q = StatusApproved \<or>
        Status q = StatusExecutionFailed \<and> go_less (ExecutionAttempts q) (executionMaxAttempts svc)) \<and>
     AssignedReviewerID q = (if Status q = StatusDraft then [] else defaultReviewerID svc) \<and>
     (ExecutionAttempts q = 0 \<longleftrightarrow> Status q \<notin> {StatusExecuted, StatusExecutionFailed}) \<and>
     (LastRemindedAt q = None \<longleftrightarrow> ReminderCount q = 0) \<and>
     (Status q = StatusDraft \<longrightarrow> ReminderCount q = 0) \<and>
     (LastExecutionError q \<noteq> [] \<longrightarrow> Status q = StatusExecutionFailed) \<and>
     0 \<le> sint (ExecutionAttempts q) \<and> 0 \<le> sint (ReminderCount q) \<and>
     sint (ExecutionAttempts q) + sint (ReminderCount q) < sint (Version q)"

lemma well_formed_draft: "is_draft_of a inp q \<Longrightarrow> well_formed svc q"
  by (auto simp: is_draft_of_def well_formed_def)

lemma well_formed_stored:
  assumes "well_formed svc q" and "stored_as q q'"
    and "trim_space (defaultReviewerID svc) = defaultReviewerID svc"
  shows "well_formed svc q'"
proof -
  have "AssignedReviewerID q' = AssignedReviewerID q"
    using assms by (auto simp: well_formed_def stored_as_def same_text_def split: if_splits)
  moreover have "LastExecutionError q' \<noteq> [] \<Longrightarrow> LastExecutionError q \<noteq> []"
    using assms(2) by (auto simp: stored_as_def same_text_def)
  ultimately show ?thesis
    using assms(1,2) unfolding well_formed_def stored_as_def by presburger
qed

text \<open>Counters below the version cannot wrap while the version does not.\<close>

lemma counter_inc:
  fixes k v :: go_int
  assumes "0 \<le> sint k" and "sint k < sint v"
  shows "sint (k + 1) = sint k + 1" and "k + 1 \<noteq> 0"
proof -
  show eq: "sint (k + 1) = sint k + 1"
    using assms(2) by (rule sint_inc_le)
  show "k + 1 \<noteq> 0"
  proof
    assume "k + 1 = 0"
    with eq assms(1) show False by simp
  qed
qed

lemma wf_counters:
  assumes "well_formed svc q"
  shows "0 \<le> sint (ExecutionAttempts q)" "0 \<le> sint (ReminderCount q)"
    "sint (ExecutionAttempts q) + sint (ReminderCount q) < sint (Version q)"
    "sint (ExecutionAttempts q) < sint (Version q)" "sint (ReminderCount q) < sint (Version q)"
  using assms by (auto simp: well_formed_def)

lemma wf_submitted:
  assumes "well_formed svc old" "Status old = StatusDraft" "sint (Version old) < 2 ^ 63 - 1"
  shows "well_formed svc (submitted svc t old)"
  using assms sint_inc [of "Version old"] by (auto simp: well_formed_def submitted_def)

lemma wf_reviewed:
  assumes "well_formed svc old" "Status old = StatusPendingReview" "sint (Version old) < 2 ^ 63 - 1"
  shows "well_formed svc (reviewed decision t old)"
  using assms sint_inc [of "Version old"]
  by (cases "decision = ''approved''") (simp_all add: well_formed_def reviewed_def Let_def)

lemma wf_reminded:
  assumes "well_formed svc old" "Status old = StatusPendingReview" "sint (Version old) < 2 ^ 63 - 1"
  shows "well_formed svc (reminded t old)"
  using assms sint_inc [of "Version old"] counter_inc [of "ReminderCount old" "Version old"]
    wf_counters [OF assms(1)]
  by (simp add: well_formed_def reminded_def)

lemma wf_executable:
  assumes "well_formed svc q" "Status q = StatusApproved \<or> Status q = StatusExecutionFailed"
  shows "SubmittedAt q \<noteq> None" "ReviewedAt q \<noteq> None" "ApprovedAt q \<noteq> None" "ExecutedAt q = None"
    "AssignedReviewerID q = defaultReviewerID svc" "(LastRemindedAt q = None) = (ReminderCount q = 0)"
  using assms unfolding well_formed_def by (elim conjE disjE; simp)+

lemma wf_executionApplied:
  assumes "well_formed svc old" "Status old = StatusApproved \<or> Status old = StatusExecutionFailed"
    "sint (Version old) < 2 ^ 63 - 1"
  shows "well_formed svc (executionApplied svc success msg t old)"
proof -
  note wf_executable [OF assms(1,2), simp] wf_counters [OF assms(1), simp]
  have "sint (ExecutionAttempts old + 1) = sint (ExecutionAttempts old) + 1"
    "ExecutionAttempts old + 1 \<noteq> 0" "sint (Version old + 1) = sint (Version old) + 1"
    using counter_inc [of "ExecutionAttempts old" "Version old"] sint_inc [OF assms(3)] by simp_all
  moreover have "sint (ExecutionAttempts old) + 1 + sint (ReminderCount old) \<le> sint (Version old)"
    using wf_counters(3) [OF assms(1)] by linarith
  ultimately show ?thesis
    by (cases success) (simp_all add: well_formed_def executionApplied_def Let_def go_le_def go_less_def)
qed

lemma changes_well_formed:
  assumes "changes svc old q" and "well_formed svc old" and "sint (Version old) < 2 ^ 63 - 1"
  shows "well_formed svc q"
  using assms
  by (induction; blast intro: wf_submitted wf_reviewed wf_reminded wf_executionApplied)

end
