(* ===== verification/Guarantee.thy ===== *)
theory Guarantee
  imports Workflow
begin

text \<open>
  A logic for one goroutine among many. While a service program runs, other goroutines change
  the store between any two of its calls, so all it can rely on is what it has read: the
  requests it knows (\<open>K\<close>) were stored at some time, and the ids it drew and has not used
  (\<open>F\<close>) are its own. \<open>ok ex G Q p K F\<close> says that, whatever the calls answer, every request
  the program writes is permitted by the guarantee \<open>G\<close>: a creation uses an id of its own, an
  update names a known request as its old value, with that request's version. The lemmas prove
  it for every method of the service, with the change the workflow allows that call.
\<close>

type_synonym guarantee = "request option \<Rightarrow> request \<Rightarrow> bool"

fun permitted :: "guarantee \<Rightarrow> request set \<Rightarrow> string set \<Rightarrow> write_call \<Rightarrow> bool" where
  "permitted G K F (CreateRequest q) \<longleftrightarrow> ReqID q \<in> F \<and> G None q"
| "permitted G K F (UpdateRequest q v) \<longleftrightarrow>
     (\<exists>old \<in> K. ReqID old = ReqID q \<and> Version old = v \<and> G (Some old) q)"
| "permitted G K F (AppendAudit e) \<longleftrightarrow> True"
| "permitted G K F (CreateReview r) \<longleftrightarrow> True"
| "permitted G K F (CreateIdempotency r) \<longleftrightarrow> True"
| "permitted G K F (AppendJobRun r) \<longleftrightarrow> True"

fun uses_up :: "write_call \<Rightarrow> string set" where
  "uses_up (CreateRequest q) = {ReqID q}"
| "uses_up _ = {}"

primrec ok ::
  "executor \<Rightarrow> guarantee \<Rightarrow> ('a \<Rightarrow> request set \<Rightarrow> string set \<Rightarrow> bool) \<Rightarrow> 'a prog \<Rightarrow>
   request set \<Rightarrow> string set \<Rightarrow> bool" where
  "ok ex G Q (Return a) = (\<lambda>K F. Q a K F)"
| "ok ex G Q (Write c k) = (\<lambda>K F. permitted G K F c \<and> (\<forall>r. ok ex G Q (k r) K (F - uses_up c)))"
| "ok ex G Q (GetRequest i k) =
     (\<lambda>K F. (\<forall>err. ok ex G Q (k (Inl err)) K F) \<and>
            (\<forall>q. ReqID q = i \<longrightarrow> ok ex G Q (k (Inr q)) (insert q K) F))"
| "ok ex G Q (ListOf c k) =
     (\<lambda>K F. (\<forall>err. ok ex G Q (k (Inl err)) K F) \<and>
            (\<forall>qs. (\<forall>q \<in> set qs. selects c q) \<longrightarrow> ok ex G Q (k (Inr qs)) (set qs \<union> K) F))"
| "ok ex G Q (ListAudit i k) = (\<lambda>K F. \<forall>r. ok ex G Q (k r) K F)"
| "ok ex G Q (GetIdempotency s i k) = (\<lambda>K F. \<forall>r. ok ex G Q (k r) K F)"
| "ok ex G Q (Now k) = (\<lambda>K F. \<forall>t. ok ex G Q (k t) K F)"
| "ok ex G Q (NewID p k) = (\<lambda>K F. \<forall>i. ok ex G Q (k i) K (insert i F))"
| "ok ex G Q (Execute q k) = (\<lambda>K F. ok ex G Q (k (ex q)) K F)"

lemma permitted_mono: "permitted G K F c \<Longrightarrow> K \<subseteq> K' \<Longrightarrow> F \<subseteq> F' \<Longrightarrow> permitted G K' F' c"
  by (cases c) auto

text \<open>Knowing more and owning more never hurts, and a weaker postcondition follows.\<close>

lemma ok_mono:
  assumes "ok ex G Q p K F" and "K \<subseteq> K'" and "F \<subseteq> F'"
    and "\<And>a K F K' F'. Q a K F \<Longrightarrow> K \<subseteq> K' \<Longrightarrow> F \<subseteq> F' \<Longrightarrow> Q' a K' F'"
  shows "ok ex G Q' p K' F'"
  using assms(1-3)
proof (induction p arbitrary: K F K' F')
  case (Return a)
  then show ?case using assms(4) by auto
next
  case (Write c k)
  have "ok ex G Q' (k r) K' (F' - uses_up c)" for r
  proof -
    from Write.prems(1) have "ok ex G Q (k r) K (F - uses_up c)" by simp
    then show ?thesis
      by (rule Write.IH [OF rangeI]) (use Write.prems in auto)
  qed
  with Write.prems show ?case by (auto dest: permitted_mono)
next
  case (GetRequest i k)
  have "ok ex G Q' (k (Inr q)) (insert q K') F'" if "ReqID q = i" for q
  proof -
    from GetRequest.prems(1) that have "ok ex G Q (k (Inr q)) (insert q K) F" by simp
    then show ?thesis
      by (rule GetRequest.IH [OF rangeI]) (use GetRequest.prems in auto)
  qed
  moreover have "ok ex G Q' (k (Inl err)) K' F'" for err
    using GetRequest.prems by (intro GetRequest.IH [OF rangeI, of "Inl err" K F]) auto
  ultimately show ?case by simp
next
  case (ListOf c k)
  have "ok ex G Q' (k (Inr qs)) (set qs \<union> K') F'" if "\<forall>q \<in> set qs. selects c q" for qs
  proof -
    from ListOf.prems(1) that have "ok ex G Q (k (Inr qs)) (set qs \<union> K) F" by simp
    then show ?thesis
      by (rule ListOf.IH [OF rangeI]) (use ListOf.prems in auto)
  qed
  moreover have "ok ex G Q' (k (Inl err)) K' F'" for err
    using ListOf.prems by (intro ListOf.IH [OF rangeI, of "Inl err" K F]) auto
  ultimately show ?case by simp
next
  case (NewID pre k)
  have "ok ex G Q' (k i) K' (insert i F')" for i
  proof -
    from NewID.prems(1) have "ok ex G Q (k i) K (insert i F)" by simp
    then show ?thesis
      by (rule NewID.IH [OF rangeI]) (use NewID.prems in auto)
  qed
  then show ?case by simp
next
  case (ListAudit i k)
  then show ?case by simp (metis rangeI)
next
  case (GetIdempotency s i k)
  then show ?case by simp (metis rangeI)
next
  case (Now k)
  then show ?case by simp (metis rangeI)
qed auto

lemma ok_weaken: "ok ex G (\<lambda>_ _ _. True) p K F \<Longrightarrow> K \<subseteq> K' \<Longrightarrow> F \<subseteq> F' \<Longrightarrow> ok ex G (\<lambda>_ _ _. True) p K' F'"
  by (erule ok_mono) auto

lemma ok_bind:
  "ok ex G (\<lambda>a K F. ok ex G Q (f a) K F) p K F \<Longrightarrow> ok ex G Q (bind p f) K F"
  by (induction p arbitrary: K F) auto

text \<open>
  The postcondition of most subprograms: nothing was forgotten and nothing was used up.
\<close>

definition keeps :: "request set \<Rightarrow> string set \<Rightarrow> 'a \<Rightarrow> request set \<Rightarrow> string set \<Rightarrow> bool" where
  "keeps K F a K' F' \<longleftrightarrow> K \<subseteq> K' \<and> F \<subseteq> F'"

lemma ok_bind_keeps:
  assumes "ok ex G (keeps K F) p K F" and "\<And>a. ok ex G (\<lambda>_ _ _. True) (f a) K F"
  shows "ok ex G (\<lambda>_ _ _. True) (bind p f) K F"
proof (rule ok_bind)
  have kept: "ok ex G (\<lambda>_ _ _. True) (f a) K' F'" if "keeps K F a K0 F0" "K0 \<subseteq> K'" "F0 \<subseteq> F'" for a K0 F0 K' F'
    using assms(2) by (rule ok_weaken) (use that in \<open>auto simp: keeps_def\<close>)
  show "ok ex G (\<lambda>a K F. ok ex G (\<lambda>_ _ _. True) (f a) K F) p K F"
    by (rule ok_mono [OF assms(1) subset_refl subset_refl]) (rule kept)
qed

lemma ok_auditFor:
  assumes "\<And>e i. ok ex G Q (k e) K (insert i F)"
  shows "ok ex G Q (auditFor q a action desc k) K F"
  using assms by (simp add: auditFor_def)


subsection \<open>The subprograms of the service\<close>

text \<open>A program that writes no request keeps every guarantee.\<close>

lemma ok_ensureIdempotency:
  "ok ex G (keeps K F) (ensureIdempotency scope key i payload) K F"
  by (auto simp: ensureIdempotency_def keeps_def split: sum.split)

lemma ok_requireOwnedOrAdmin:
  assumes "\<And>err. ok ex G (\<lambda>_ _ _. True) (f (Inl err)) {} F"
    and "\<And>q. ReqID q = i \<Longrightarrow> act_Role a = RoleAdmin \<or> RequesterID q = act_ID a \<Longrightarrow>
          ok ex G (\<lambda>_ _ _. True) (f (Inr q)) {q} F"
  shows "ok ex G (\<lambda>_ _ _. True) (bind (requireOwnedOrAdmin a i) f) {} F"
  using assms ok_weaken [OF assms(1)] by (auto simp: requireOwnedOrAdmin_def)

lemma ok_applyExecutionResult:
  assumes "q \<in> K"
    and "\<And>t. Status q = StatusApproved \<or> Status q = StatusExecutionFailed \<Longrightarrow>
          G (Some q) (executionApplied svc success msg t q)"
  shows "ok ex G (keeps K F) (applyExecutionResult svc q a success msg) K F"
  using assms
  by (auto simp: applyExecutionResult_def auditFor_def keeps_def Let_def
      split: option.split)

lemma ok_CreateDraft:
  "ok ex (allowed svc ex (CallCreateDraft a inp)) (\<lambda>_ _ _. True) (CreateDraft a inp) {} {}"
  by (auto simp: CreateDraft_def auditFor_def is_draft_of_def zero_request_def Let_def split: option.split)

lemma ok_SubmitRequest:
  "ok ex (allowed svc ex (CallSubmit a i key)) (\<lambda>_ _ _. True) (SubmitRequest svc a i key) {} {}"
  unfolding SubmitRequest_def Let_def
proof (rule ok_requireOwnedOrAdmin, goal_cases)
  case (2 q)
  show ?case
    by (simp only: sum.case, rule ok_bind_keeps [OF ok_ensureIdempotency])
      (use 2 in \<open>auto simp: auditFor_def split: option.split sum.split\<close>)
qed simp

lemma ok_replayDecided: "ok ex G (\<lambda>_ _ _. True) (replayDecided q i key decision comment) K F"
  unfolding replayDecided_def
  by (rule ok_bind_keeps [OF ok_ensureIdempotency]) (simp split: option.split)

lemma ok_reviewRequest:
  assumes "\<And>q t. ReqID q = i \<Longrightarrow> Status q = StatusPendingReview \<Longrightarrow> canReview a q \<Longrightarrow>
      act_ID a \<noteq> RequesterID q \<Longrightarrow> G (Some q) (reviewed decision t q)"
  shows "ok ex G (\<lambda>_ _ _. True) (reviewRequest a i key decision comment) {} {}"
  unfolding reviewRequest_def
  by (simp add: ok_replayDecided Let_def split: option.split)
    (auto simp: auditFor_def intro!: ok_bind_keeps [OF ok_ensureIdempotency] assms split: option.split)

lemma ok_remindLoop:
  assumes "\<And>q t. q \<in> set qs \<Longrightarrow> G (Some q) (reminded t q)" and "set qs \<subseteq> K"
  shows "ok ex G (\<lambda>_ _ _. True) (remindLoop now qs) K F"
  using assms
proof (induction qs arbitrary: F)
  case (Cons q qs)
  then have "ok ex G (\<lambda>_ _ _. True) (remindLoop now qs) K F" for F by simp
  with Cons.prems show ?case
    by (auto simp: auditFor_def Let_def split: option.split)
qed simp

lemma ok_executeLoop:
  assumes "\<And>q t. q \<in> set qs \<Longrightarrow> Status q = StatusApproved \<or> Status q = StatusExecutionFailed \<Longrightarrow>
      G (Some q) (case ex q of None \<Rightarrow> executionApplied svc True [] t q
                             | Some msg \<Rightarrow> executionApplied svc False msg t q)"
    and "set qs \<subseteq> K"
  shows "ok ex G (\<lambda>_ _ _. True) (executeLoop svc now qs) K F"
  using assms
proof (induction qs arbitrary: F)
  case (Cons q qs)
  then have rest: "ok ex G (\<lambda>_ _ _. True) (executeLoop svc now qs) K F" for F by simp
  have app: "ok ex G (\<lambda>_ _ _. True) (bind (applyExecutionResult svc q a s m) (\<lambda>_. Write (AppendJobRun j)
      (\<lambda>_. executeLoop svc now qs))) K (insert i F)"
    if "s = (ex q = None)" "m = (case ex q of None \<Rightarrow> [] | Some msg \<Rightarrow> msg)" for a s m j i F
    by (rule ok_bind_keeps [OF ok_applyExecutionResult])
      (use that Cons.prems in \<open>force simp: rest split: option.splits\<close>)+
  show ?case
    by (cases "ex q") (simp_all add: Let_def app)
qed simp


text \<open>Every call on the service writes only what the workflow allows that call.\<close>

lemma ok_bind_Return:
  assumes "ok ex G (\<lambda>_ _ _. True) p K F"
  shows "ok ex G (\<lambda>_ _ _. True) (bind p (\<lambda>r. Return (g r))) K F"
  by (rule ok_bind, rule ok_mono [OF assms subset_refl subset_refl]) simp

lemma ok_RecordExecutionResult:
  "ok ex (allowed svc ex (CallExecutionResult a i inp)) (\<lambda>_ _ _. True)
     (RecordExecutionResult svc a i inp) {} {}"
proof -
  have "ok ex (allowed svc ex (CallExecutionResult a i inp)) (\<lambda>_ _ _. True)
      (applyExecutionResult svc q a (in_Success inp) (in_Error inp)) {q} {}"
    if "act_Role a = RoleAdmin \<or> act_Role a = RoleReviewer" "ReqID q = i" for q
    by (rule ok_mono [OF ok_applyExecutionResult subset_refl subset_refl]) (use that in auto)
  then show ?thesis
    by (auto simp: RecordExecutionResult_def)
qed

lemma ok_reads:
  "ok ex G (\<lambda>_ _ _. True) (Service_GetRequest a i) {} {}"
  "ok ex G (\<lambda>_ _ _. True) (Service_ListRequests a f) {} {}"
  "ok ex G (\<lambda>_ _ _. True) (Service_ListAudit a i) {} {}"
  by (simp_all add: Service_GetRequest_def Service_ListRequests_def Service_ListAudit_def split: option.split)

lemma ok_ProcessDueReminders:
  "ok ex (allowed svc ex (CallReminders l)) (\<lambda>_ _ _. True) (ProcessDueReminders svc l) {} {}"
  by (auto simp: ProcessDueReminders_def intro!: ok_remindLoop)

lemma ok_ProcessDueExecutions:
  "ok ex (allowed svc ex (CallExecutions l)) (\<lambda>_ _ _. True) (ProcessDueExecutions svc l) {} {}"
  by (auto simp: ProcessDueExecutions_def intro!: ok_executeLoop split: option.split)

lemma ok_api_prog: "ok ex (allowed svc ex c) (\<lambda>_ _ _. True) (api_prog svc c) {} {}"
  by (cases c)
    (auto intro!: ok_bind_Return ok_CreateDraft ok_reads ok_SubmitRequest ok_reviewRequest
      ok_RecordExecutionResult ok_ProcessDueReminders ok_ProcessDueExecutions
      simp: ApproveRequest_def RejectRequest_def)

end
