(* ===== verification/Concurrency.thy ===== *)
theory Concurrency
  imports Guarantee
begin

text \<open>
  The running server: any number of goroutines (HTTP handlers and passes of the worker), each in
  the middle of one call on the service, share one store, one clock and one source of ids. A
  step of the system starts a call, lets one goroutine make its next store call, or ends a
  goroutine at any point (it has returned, its client went away, or the process died). The log
  of events is a ghost: it records, newest first, every change of the table of requests with
  the call that made it and the value it replaced.

  An id is drawn from 64 random bits; the steps assume that no id is drawn twice.
\<close>

type_synonym event = "api_call \<times> request option \<times> request"

record 's sys =
  sworld :: "'s world"
  threads :: "nat \<Rightarrow> (api_call \<times> outcome prog) option"
  history :: "request set"
  events :: "event list"
  drawn :: "string set"

abbreviation sstore :: "'s sys \<Rightarrow> 's" where
  "sstore s \<equiv> wstore (sworld s)"

fun drawn_by :: "'a prog \<Rightarrow> 's world \<Rightarrow> string set" where
  "drawn_by (NewID pre k) w = {draw_id pre w}"
| "drawn_by _ w = {}"

text \<open>What a store call did to the table: the events to add to the log.\<close>

fun new_events ::
  "('s \<Rightarrow> string \<Rightarrow> request option) \<Rightarrow> api_call \<Rightarrow> outcome prog \<Rightarrow> 's \<Rightarrow> 's \<Rightarrow> event list" where
  "new_events view c (Write (CreateRequest q) k) s s' =
     (if view s' (ReqID q) = view s (ReqID q) then [] else [(c, None, q)])"
| "new_events view c (Write (UpdateRequest q v) k) s s' =
     (if view s' (ReqID q) = view s (ReqID q) then [] else [(c, view s (ReqID q), q)])"
| "new_events view c _ s s' = []"

inductive sys_step ::
  "service \<Rightarrow> executor \<Rightarrow> 's store_ops \<Rightarrow> ('s \<Rightarrow> string \<Rightarrow> request option) \<Rightarrow> 's sys \<Rightarrow> 's sys \<Rightarrow> bool"
  for svc ex ops view where
  start: "threads s n = None \<Longrightarrow>
    sys_step svc ex ops view s (s\<lparr>threads := (threads s)(n \<mapsto> (c, api_prog svc c))\<rparr>)"
| call: "threads s n = Some (c, p) \<Longrightarrow> step ops ex p (sworld s) = (p', w') \<Longrightarrow>
    drawn_by p (sworld s) \<inter> drawn s = {} \<Longrightarrow>
    sys_step svc ex ops view s
      (s\<lparr>sworld := w', threads := (threads s)(n \<mapsto> (c, p')),
         history := history s \<union> ran (view (wstore w')),
         events := new_events view c p (sstore s) (wstore w') @ events s,
         drawn := drawn s \<union> drawn_by p (sworld s)\<rparr>)"
| stop: "sys_step svc ex ops view s (s\<lparr>threads := (threads s)(n := None)\<rparr>)"

definition boot :: "'s world \<Rightarrow> 's sys" where
  "boot w = \<lparr>sworld = w, threads = (\<lambda>_. None), history = {}, events = [], drawn = {}\<rparr>"

inductive reachable ::
  "service \<Rightarrow> executor \<Rightarrow> 's store_ops \<Rightarrow> ('s \<Rightarrow> string \<Rightarrow> request option) \<Rightarrow> 's world \<Rightarrow> 's sys \<Rightarrow> bool"
  for svc ex ops view w0 where
  boot: "reachable svc ex ops view w0 (boot w0)"
| step: "reachable svc ex ops view w0 s \<Longrightarrow> sys_step svc ex ops view s s' \<Longrightarrow>
    reachable svc ex ops view w0 s'"

text \<open>The newest event of a request, and logs in which every event continues the one before.\<close>

definition event_id :: "event \<Rightarrow> string" where
  "event_id e = ReqID (snd (snd e))"

definition last_event :: "string \<Rightarrow> event list \<Rightarrow> event option" where
  "last_event i es = find (\<lambda>e. event_id e = i) es"

fun continues :: "event \<Rightarrow> event option \<Rightarrow> bool" where
  "continues (c, None, q) latest \<longleftrightarrow> latest = None"
| "continues (c, Some old, q) latest \<longleftrightarrow>
     (\<exists>c' old' q'. latest = Some (c', old', q') \<and> stored_as q' old)"

fun chained :: "event list \<Rightarrow> bool" where
  "chained [] = True"
| "chained (e # es) = (continues e (last_event (event_id e) es) \<and> chained es)"

lemma last_event_Cons [simp]:
  "last_event i (e # es) = (if event_id e = i then Some e else last_event i es)"
  by (simp add: last_event_def)

lemma events_grow: "sys_step svc ex ops view s s' \<Longrightarrow> \<exists>es. events s' = es @ events s"
  by (induction rule: sys_step.induct) auto

subsection \<open>The invariant of the running system\<close>

text \<open>
  The entry of the table for an id agrees with the newest event; every value ever stored is
  coherent, not newer than the current one, and is the current one if the versions agree.
\<close>

definition entry_ok :: "'s sys \<Rightarrow> string \<Rightarrow> request option \<Rightarrow> bool" where
  "entry_ok s i x \<longleftrightarrow>
     (case x of
        None \<Rightarrow> last_event i (events s) = None
      | Some q \<Rightarrow> ReqID q = i \<and> q \<in> history s \<and>
          (\<exists>c old q0. last_event i (events s) = Some (c, old, q0) \<and> stored_as q0 q))"

definition past_ok :: "service \<Rightarrow> (string \<Rightarrow> request option) \<Rightarrow> 's sys \<Rightarrow> request \<Rightarrow> bool" where
  "past_ok svc tab s q \<longleftrightarrow>
     well_formed svc q \<and> ReqID q \<in> drawn s \<and> sint (Version q) \<le> int (length (events s)) \<and>
     (\<exists>cur. tab (ReqID q) = Some cur \<and> sint (Version q) \<le> sint (Version cur) \<and>
        (Version cur = Version q \<longrightarrow> cur = q))"

definition table_inv :: "service \<Rightarrow> (string \<Rightarrow> request option) \<Rightarrow> 's sys \<Rightarrow> bool" where
  "table_inv svc tab s \<longleftrightarrow> (\<forall>i. entry_ok s i (tab i)) \<and> (\<forall>q \<in> history s. past_ok svc tab s q)"

text \<open>Every event was allowed, and no version of a request was written twice.\<close>

definition event_ok :: "service \<Rightarrow> executor \<Rightarrow> (string \<Rightarrow> request option) \<Rightarrow> event \<Rightarrow> bool" where
  "event_ok svc ex tab e \<longleftrightarrow>
     allowed svc ex (fst e) (fst (snd e)) (snd (snd e)) \<and>
     (\<exists>cur. tab (event_id e) = Some cur \<and> sint (Version (snd (snd e))) \<le> sint (Version cur))"

definition event_key :: "event \<Rightarrow> string \<times> go_int" where
  "event_key e = (event_id e, Version (snd (snd e)))"

definition log_inv :: "service \<Rightarrow> executor \<Rightarrow> (string \<Rightarrow> request option) \<Rightarrow> event list \<Rightarrow> bool" where
  "log_inv svc ex tab es \<longleftrightarrow>
     (\<forall>e \<in> set es. event_ok svc ex tab e) \<and> chained es \<and> distinct (map event_key es)"

text \<open>Per goroutine: it keeps its guarantee, and ids drawn but not used have one owner.\<close>

definition owner_ok :: "service \<Rightarrow> executor \<Rightarrow> 's sys \<Rightarrow> nat \<Rightarrow> string set \<Rightarrow> bool" where
  "owner_ok svc ex s n X \<longleftrightarrow>
     (\<forall>c p. threads s n = Some (c, p) \<longrightarrow>
        (\<exists>K \<subseteq> history s. ok ex (allowed svc ex c) (\<lambda>_ _ _. True) p K X)) \<and>
     X \<subseteq> drawn s \<and> X \<inter> ReqID ` history s = {}"

definition owners_inv :: "service \<Rightarrow> executor \<Rightarrow> 's sys \<Rightarrow> (nat \<Rightarrow> string set) \<Rightarrow> bool" where
  "owners_inv svc ex s F \<longleftrightarrow>
     (\<forall>n. owner_ok svc ex s n (F n)) \<and> (\<forall>m n. m \<noteq> n \<longrightarrow> F m \<inter> F n = {})"

definition sys_inv ::
  "service \<Rightarrow> executor \<Rightarrow> ('s \<Rightarrow> string \<Rightarrow> request option) \<Rightarrow> ('s \<Rightarrow> bool) \<Rightarrow> 's sys \<Rightarrow> bool" where
  "sys_inv svc ex view invar s \<longleftrightarrow>
     invar (sstore s) \<and> table_inv svc (view (sstore s)) s \<and>
     log_inv svc ex (view (sstore s)) (events s) \<and> (\<exists>F. owners_inv svc ex s F)"

lemma table_inv_entry: "table_inv svc tab s \<Longrightarrow> entry_ok s i (tab i)"
  by (simp add: table_inv_def)

lemma table_inv_past: "table_inv svc tab s \<Longrightarrow> q \<in> history s \<Longrightarrow> past_ok svc tab s q"
  by (simp add: table_inv_def)

lemma table_inv_Some:
  assumes "table_inv svc tab s" and "tab i = Some q"
  shows "ReqID q = i \<and> q \<in> history s \<and> past_ok svc tab s q \<and>
    (\<exists>c old q0. last_event i (events s) = Some (c, old, q0) \<and> stored_as q0 q)"
  using table_inv_entry [OF assms(1), of i] table_inv_past [OF assms(1), of q] assms(2)
  by (simp add: entry_ok_def)

text \<open>A known value with the current version is the current value: there is no lost update.\<close>

lemma known_is_current:
  assumes "table_inv svc tab s" and "old \<in> history s" and "tab (ReqID old) = Some cur"
    and "Version cur = Version old"
  shows "cur = old"
  using table_inv_past [OF assms(1,2)] assms(3,4) by (auto simp: past_ok_def)

subsection \<open>How the parts of the invariant change\<close>

lemma table_inv_same:
  assumes "table_inv svc tab s" and "history s' = history s" and "events s' = events s"
    and "drawn s \<subseteq> drawn s'"
  shows "table_inv svc tab s'"
proof -
  have "entry_ok s' i x = entry_ok s i x" for i x
    using assms(2,3) by (cases x) (simp_all add: entry_ok_def)
  moreover have "past_ok svc tab s q \<Longrightarrow> past_ok svc tab s' q" for q
    using assms(3,4) by (auto simp: past_ok_def)
  ultimately show ?thesis
    using assms(1,2) by (simp add: table_inv_def)
qed

text \<open>A write of a newer version of one request.\<close>

lemma entry_ok_write:
  assumes "entry_ok s j (tab j)" and "stored_as q q'" and "ReqID q = i"
    and "history s' = insert q' (history s)" "events s' = (c, old, q) # events s"
  shows "entry_ok s' j ((tab(i \<mapsto> q')) j)"
proof (cases "j = i")
  case True
  with assms show ?thesis by (simp add: entry_ok_def event_id_def) (simp add: stored_as_def)
next
  case False
  with assms(1,3-5) show ?thesis
    by (cases "tab j") (simp_all add: entry_ok_def event_id_def)
qed

lemma past_ok_write:
  assumes "past_ok svc tab s r" and "ReqID r = i \<Longrightarrow> sint (Version r) < sint (Version q')"
    and "events s' = e # events s" "drawn s \<subseteq> drawn s'"
  shows "past_ok svc (tab(i \<mapsto> q')) s' r"
  using assms by (cases "ReqID r = i") (auto simp: past_ok_def)

lemma table_inv_write:
  assumes inv: "table_inv svc tab s" and q: "stored_as q q'" "well_formed svc q'" "ReqID q = i"
    and i: "i \<in> drawn s"
    and newer: "\<And>r. r \<in> history s \<Longrightarrow> ReqID r = i \<Longrightarrow> sint (Version r) < sint (Version q)"
    and bound: "sint (Version q) \<le> 1 + int (length (events s))"
    and s': "history s' = insert q' (history s)" "events s' = (c, old, q) # events s"
      "drawn s \<subseteq> drawn s'"
  shows "table_inv svc (tab(i \<mapsto> q')) s'"
proof -
  have q': "ReqID q' = i" "Version q' = Version q"
    using q by (auto simp: stored_as_def)
  have "past_ok svc (tab(i \<mapsto> q')) s' q'"
    using q q' i s' bound by (auto simp: past_ok_def)
  moreover have "past_ok svc (tab(i \<mapsto> q')) s' r" if "r \<in> history s" for r
    using table_inv_past [OF inv that] newer [OF that] q' s'
    by (auto intro!: past_ok_write [where s = s] simp del: fun_upd_apply)
  moreover have "entry_ok s' j ((tab(i \<mapsto> q')) j)" for j
    using table_inv_entry [OF inv, of j] q(1,3) s'(1,2) by (rule entry_ok_write)
  ultimately show ?thesis
    using s'(1) by (simp add: table_inv_def del: fun_upd_apply)
qed

lemma event_ok_write:
  assumes "event_ok svc ex tab e" and "\<And>cur. tab i = Some cur \<Longrightarrow> sint (Version cur) < sint (Version q')"
  shows "event_ok svc ex (tab(i \<mapsto> q')) e"
proof (cases "event_id e = i")
  case True
  from assms(1) obtain cur where "tab (event_id e) = Some cur"
    "sint (Version (snd (snd e))) \<le> sint (Version cur)" and a: "allowed svc ex (fst e) (fst (snd e)) (snd (snd e))"
    by (auto simp: event_ok_def)
  with True assms(2) [of cur] show ?thesis by (simp add: event_ok_def)
next
  case False
  with assms(1) show ?thesis by (simp add: event_ok_def)
qed

lemma log_inv_write:
  assumes inv: "log_inv svc ex tab es" and q: "stored_as q q'" "ReqID q = i"
    and e: "allowed svc ex c old q" "continues (c, old, q) (last_event i es)"
    and newer: "\<And>cur. tab i = Some cur \<Longrightarrow> sint (Version cur) < sint (Version q)"
  shows "log_inv svc ex (tab(i \<mapsto> q')) ((c, old, q) # es)"
proof -
  have q': "ReqID q' = i" "Version q' = Version q"
    using q by (auto simp: stored_as_def)
  have "event_ok svc ex (tab(i \<mapsto> q')) (c, old, q)"
    using q q' e by (simp add: event_ok_def event_id_def)
  moreover have "event_ok svc ex (tab(i \<mapsto> q')) d" if "d \<in> set es" for d
    using inv that newer q' by (intro event_ok_write) (auto simp: log_inv_def)
  moreover have "event_key (c, old, q) \<notin> event_key ` set es"
  proof
    assume "event_key (c, old, q) \<in> event_key ` set es"
    then obtain d where "d \<in> set es" and k: "event_key (c, old, q) = event_key d" by blast
    with inv have "event_ok svc ex tab d" by (simp add: log_inv_def)
    then obtain cur where "tab (event_id d) = Some cur"
      "sint (Version (snd (snd d))) \<le> sint (Version cur)"
      by (auto simp: event_ok_def)
    with newer q k show False
      by (auto simp: event_key_def event_id_def)
  qed
  ultimately show ?thesis
    using inv e q by (auto simp: log_inv_def event_id_def)
qed


subsection \<open>One call of one goroutine\<close>

fun used_by :: "'a prog \<Rightarrow> string set" where
  "used_by (Write c k) = uses_up c"
| "used_by _ = {}"

text \<open>The three things a call can do to the table of requests.\<close>

inductive table_step ::
  "'a prog \<Rightarrow> (string \<Rightarrow> request option) \<Rightarrow> (string \<Rightarrow> request option) \<Rightarrow> bool" where
  unchanged: "table_step p tab tab"
| created: "stored_as q q' \<Longrightarrow>
    table_step (Write (CreateRequest q) k) tab (tab(ReqID q \<mapsto> q'))"
| updated: "tab (ReqID q) = Some cur \<Longrightarrow> stored_as q q' \<Longrightarrow>
    table_step (Write (UpdateRequest q (Version cur)) k) tab (tab(ReqID q \<mapsto> q'))"

lemma table_unchanged: "tab' = tab \<Longrightarrow> table_step p tab tab'"
  by (simp add: table_step.unchanged)

text \<open>A store that keeps the contract, shared by goroutines.\<close>

locale server = request_store ops view inv
  for ops :: "'s store_ops" and view :: "'s \<Rightarrow> string \<Rightarrow> request option" and inv :: "'s \<Rightarrow> bool"
begin

lemma step_inv: "inv (wstore w) \<Longrightarrow> step ops ex p w = (p', w') \<Longrightarrow> inv (wstore w')"
proof (cases p)
  case (Write c k)
  then show "inv (wstore w) \<Longrightarrow> step ops ex p w = (p', w') \<Longrightarrow> inv (wstore w')"
    using write_inv by (auto split: prod.splits)
qed (auto simp: after_draw_def split: prod.splits option.splits
      dest: get_state list_state audit_state idem_state)

lemma step_table:
  assumes "inv (wstore w)" and "step ops ex p w = (p', w')"
  shows "table_step p (view (wstore w)) (view (wstore w'))"
proof (cases p)
  case (Write c k)
  obtain e s' where op: "op_write ops c (wstore w) = (e, s')" by fastforce
  with Write assms(2) have s': "wstore w' = s'" by auto
  show ?thesis
  proof (cases c)
    case (CreateRequest q)
    from op have "op_write ops (CreateRequest q) (wstore w) = (e, s')" by (simp add: CreateRequest)
    from create_effect [OF assms(1) this] CreateRequest Write s' show ?thesis
      by (auto intro: table_step.intros)
  next
    case (UpdateRequest q v)
    from op have "op_write ops (UpdateRequest q v) (wstore w) = (e, s')" by (simp add: UpdateRequest)
    from update_effect [OF assms(1) this] UpdateRequest Write s' show ?thesis
      by (auto intro: table_step.intros)
  qed (use write_frame [OF assms(1) op] Write s' in \<open>auto intro: table_step.intros\<close>)
qed (use assms in \<open>auto simp: after_draw_def split: prod.splits option.splits
      intro!: table_unchanged dest: get_state list_state audit_state idem_state\<close>)

text \<open>The goroutine keeps its guarantee, knowing what it has just read from the table.\<close>

lemma step_ok:
  assumes "inv (wstore w)" and "step ops ex p w = (p', w')" and "ok ex G Q p K F"
  shows "\<exists>K' \<subseteq> K \<union> ran (view (wstore w')). ok ex G Q p' K' ((F \<union> drawn_by p w) - used_by p)"
proof (cases p)
  case (GetRequest i k)
  obtain r s' where op: "op_GetRequest ops i (wstore w) = (r, s')" by fastforce
  with GetRequest assms(2) have e: "p' = k r" "wstore w' = s'" by auto
  show ?thesis
  proof (cases r)
    case (Inl err)
    with GetRequest assms(3) e show ?thesis by auto
  next
    case (Inr q)
    with op have "view (wstore w) i = Some q" by (simp add: get_value [OF assms(1)])
    with op have "ReqID q = i" "q \<in> ran (view s')"
      using view_id [OF assms(1)] get_state [OF assms(1) op] by (auto intro: ranI)
    with GetRequest assms(3) e Inr show ?thesis
      by (intro exI [of _ "insert q K"]) auto
  qed
next
  case (ListOf c k)
  obtain r s' where op: "op_list ops c (wstore w) = (r, s')" by fastforce
  with ListOf assms(2) have e: "p' = k r" "wstore w' = s'" by auto
  show ?thesis
  proof (cases r)
    case (Inl err)
    with ListOf assms(3) e show ?thesis by auto
  next
    case (Inr qs)
    with op list_value [OF assms(1)] list_state [OF assms(1) op]
    have "\<forall>q \<in> set qs. selects c q \<and> view s' (ReqID q) = Some q"
      by simp
    then have "\<forall>q \<in> set qs. selects c q" "set qs \<subseteq> ran (view s')"
      by (auto intro: ranI)
    with ListOf assms(3) e Inr show ?thesis
      by (intro exI [of _ "set qs \<union> K"]) auto
  qed
qed (use assms(2,3) in \<open>auto split: prod.splits intro!: exI [of _ K]\<close>)

end


subsection \<open>Every step keeps the invariant\<close>

lemma disjoint_after_use:
  "A \<inter> H = {} \<Longrightarrow> D \<inter> R = {} \<Longrightarrow> H \<subseteq> R \<Longrightarrow> H' \<subseteq> H \<union> U \<inter> A \<Longrightarrow> (A \<union> D - U) \<inter> H' = {}"
  by blast

lemma disjoint_other:
  "B \<inter> H = {} \<Longrightarrow> A \<inter> B = {} \<Longrightarrow> H' \<subseteq> H \<union> U \<inter> A \<Longrightarrow> B \<inter> H' = {}"
  by blast

lemma owners_call:
  assumes F: "owners_inv svc ex s F" and n: "threads s n = Some (c, p)"
    and ok': "\<exists>K' \<subseteq> history s'. ok ex (allowed svc ex c) (\<lambda>_ _ _. True) p'
        K' ((F n \<union> drawn_by p w) - used_by p)"
    and fresh: "drawn_by p w \<inter> drawn s = {}"
    and s': "threads s' = (threads s)(n \<mapsto> (c, p'))" "drawn s' = drawn s \<union> drawn_by p w"
      "history s \<subseteq> history s'" "ReqID ` history s' \<subseteq> ReqID ` history s \<union> used_by p \<inter> F n"
      "ReqID ` history s \<subseteq> drawn s"
  shows "owners_inv svc ex s' (F(n := (F n \<union> drawn_by p w) - used_by p))"
proof -
  let ?X = "(F n \<union> drawn_by p w) - used_by p"
  have F': "owner_ok svc ex s m (F m)" "m \<noteq> k \<Longrightarrow> F m \<inter> F k = {}" for m k
    using F by (auto simp: owners_inv_def)
  have old: "F m \<subseteq> drawn s" "F m \<inter> ReqID ` history s = {}" for m
    using F'(1)[of m] by (auto simp: owner_ok_def)
  have "owner_ok svc ex s' m ((F(n := ?X)) m)" for m
  proof (cases "m = n")
    case True
    have "?X \<inter> ReqID ` history s' = {}"
      using old(2)[of n] fresh s'(5,4) by (rule disjoint_after_use)
    moreover have "?X \<subseteq> drawn s'"
      using old(1)[of n] s'(2) by blast
    moreover note True
    ultimately show ?thesis using ok' s'(1) by (simp add: owner_ok_def)
  next
    case False
    have "F m \<inter> ReqID ` history s' = {}"
      using old(2)[of m] F'(2)[OF False [symmetric]] s'(4) by (rule disjoint_other)
    moreover have "F m \<subseteq> drawn s'"
      using old(1)[of m] s'(2) by blast
    moreover have "\<exists>K \<subseteq> history s'. ok ex (allowed svc ex d) (\<lambda>_ _ _. True) r K (F m)"
      if "threads s m = Some (d, r)" for d r
      using F'(1)[of m] that s'(3) unfolding owner_ok_def by (meson order_trans)
    ultimately show ?thesis using False s'(1) by (simp add: owner_ok_def)
  qed
  moreover have "?X \<inter> F m = {}" if "m \<noteq> n" for m
    using old(1)[of m] F'(2)[of n m] fresh that by blast
  then have "(F(n := ?X)) m \<inter> (F(n := ?X)) k = {}" if "m \<noteq> k" for m k
    using F'(2)[OF that] that by (cases "m = n"; cases "k = n") (simp_all add: Int_commute)
  ultimately show ?thesis
    unfolding owners_inv_def by blast
qed

lemma ran_upd_history:
  "ran tab \<subseteq> history s \<Longrightarrow> history s \<union> ran (tab(i \<mapsto> q)) = insert q (history s)"
  by (auto simp: ran_def)

lemma table_inv_ran: "table_inv svc tab s \<Longrightarrow> ran tab \<subseteq> history s"
  by (auto simp: ran_def dest: table_inv_Some)

lemma table_inv_drawn: "table_inv svc tab s \<Longrightarrow> ReqID ` history s \<subseteq> drawn s"
  by (auto dest: table_inv_past simp: past_ok_def)

text \<open>
  The three kinds of call: what the table and the log of the next state (\<open>s'\<close>) satisfy, from
  what the goroutine's guarantee permits.
\<close>

lemma created_keeps:
  assumes T: "table_inv svc tab s" and L: "log_inv svc ex tab (events s)"
    and F: "F \<subseteq> drawn s" "F \<inter> ReqID ` history s = {}"
    and p: "ReqID q \<in> F" "allowed svc ex c None q" "stored_as q q'"
    and svc: "trim_space (defaultReviewerID svc) = defaultReviewerID svc"
    and s': "history s' = insert q' (history s)" "events s' = (c, None, q) # events s" "drawn s \<subseteq> drawn s'"
  shows "table_inv svc (tab(ReqID q \<mapsto> q')) s' \<and> log_inv svc ex (tab(ReqID q \<mapsto> q')) (events s')"
proof -
  from p(2) obtain a inp where d: "is_draft_of a inp q" by (auto dest: allowed_create)
  then have wf: "well_formed svc q'"
    using p(3) svc by (blast intro: well_formed_draft well_formed_stored)
  have new: "ReqID q \<notin> ReqID ` history s" using F p(1) by blast
  then have none: "tab (ReqID q) = None"
    using table_inv_Some [OF T] by (metis imageI not_None_eq)
  then have "last_event (ReqID q) (events s) = None"
    using table_inv_entry [OF T, of "ReqID q"] by (simp add: entry_ok_def)
  with L p none have "log_inv svc ex (tab(ReqID q \<mapsto> q')) (events s')"
    unfolding s'(2) by (intro log_inv_write) auto
  moreover have "table_inv svc (tab(ReqID q \<mapsto> q')) s'"
  proof (rule table_inv_write [OF T p(3) wf refl _ _ _ s'])
    show "sint (Version r) < sint (Version q)" if "r \<in> history s" "ReqID r = ReqID q" for r
      using new that by (metis imageI)
  qed (use F(1) p(1) d in \<open>auto simp: is_draft_of_def\<close>)
  ultimately show ?thesis by blast
qed

lemma updated_keeps:
  assumes T: "table_inv svc tab s" and L: "log_inv svc ex tab (events s)"
    and p: "tab (ReqID q) = Some old" "allowed svc ex c (Some old) q" "stored_as q q'"
    and svc: "trim_space (defaultReviewerID svc) = defaultReviewerID svc"
    and bound: "int (length (events s)) < 2 ^ 63 - 1"
    and s': "history s' = insert q' (history s)" "events s' = (c, Some old, q) # events s"
      "drawn s \<subseteq> drawn s'"
  shows "table_inv svc (tab(ReqID q \<mapsto> q')) s' \<and> log_inv svc ex (tab(ReqID q \<mapsto> q')) (events s')"
proof -
  from table_inv_Some [OF T p(1)] obtain c0 old0 q0 where
    old: "ReqID old = ReqID q" "past_ok svc tab s old" and
    last: "last_event (ReqID q) (events s) = Some (c0, old0, q0)" "stored_as q0 old"
    by auto
  from p(2) have ch: "changes svc old q" by (rule allowed_changes)
  have small: "sint (Version old) < 2 ^ 63 - 1"
    using old(2) bound by (simp add: past_ok_def)
  then have v: "sint (Version q) = sint (Version old) + 1"
    using changes_frame(2) [OF ch] by (simp add: sint_inc)
  have wf: "well_formed svc q'"
    using changes_well_formed [OF ch _ small] old(2) p(3) svc
    by (auto simp: past_ok_def intro: well_formed_stored)
  have newer: "sint (Version r) < sint (Version q)" if "r \<in> history s" "ReqID r = ReqID q" for r
    using table_inv_past [OF T that(1)] that(2) p(1) v by (auto simp: past_ok_def)
  from L p last v have "log_inv svc ex (tab(ReqID q \<mapsto> q')) (events s')"
    unfolding s'(2) by (intro log_inv_write) auto
  moreover have "ReqID q \<in> drawn s" "sint (Version q) \<le> 1 + int (length (events s))"
    using old v by (auto simp: past_ok_def)
  then have "table_inv svc (tab(ReqID q \<mapsto> q')) s'"
    using newer by (intro table_inv_write [OF T p(3) wf refl _ _ _ s'])
  ultimately show ?thesis by blast
qed


lemma owners_invD:
  assumes "owners_inv svc ex s F" and "threads s n = Some (c, p)"
  shows "F n \<subseteq> drawn s" "F n \<inter> ReqID ` history s = {}"
    "\<exists>K \<subseteq> history s. ok ex (allowed svc ex c) (\<lambda>_ _ _. True) p K (F n)"
  using assms by (auto simp: owners_inv_def owner_ok_def)

text \<open>
  The table part of a call, from the table step and the goroutine's guarantee: nothing changed,
  or a change the workflow allows the goroutine's call was made to the current value.
\<close>

inductive table_change ::
  "service \<Rightarrow> executor \<Rightarrow> api_call \<Rightarrow> string set \<Rightarrow> outcome prog \<Rightarrow> (string \<Rightarrow> request option) \<Rightarrow>
   (string \<Rightarrow> request option) \<Rightarrow> bool"
  for svc ex c F p tab where
  idle: "table_change svc ex c F p tab tab"
| new_row: "p = Write (CreateRequest q) k \<Longrightarrow> ReqID q \<in> F \<Longrightarrow> tab (ReqID q) = None \<Longrightarrow>
    allowed svc ex c None q \<Longrightarrow> stored_as q q' \<Longrightarrow> table_change svc ex c F p tab (tab(ReqID q \<mapsto> q'))"
| new_value: "p = Write (UpdateRequest q (Version cur)) k \<Longrightarrow> tab (ReqID q) = Some cur \<Longrightarrow>
    allowed svc ex c (Some cur) q \<Longrightarrow> stored_as q q' \<Longrightarrow> table_change svc ex c F p tab (tab(ReqID q \<mapsto> q'))"

lemma table_step_change:
  assumes step: "table_step p tab tab'" and T: "table_inv svc tab s"
    and G: "ok ex (allowed svc ex c) (\<lambda>_ _ _. True) p K F" "K \<subseteq> history s"
    and F: "F \<inter> ReqID ` history s = {}"
  shows "table_change svc ex c F p tab tab'"
  using step
proof cases
  case unchanged
  then show ?thesis by (simp add: table_change.idle)
next
  case (created q q' k)
  from created(1) G(1) have q: "ReqID q \<in> F" "allowed svc ex c None q" by auto
  then have "ReqID q \<notin> ReqID ` history s" using F by blast
  then have "tab (ReqID q) = None"
    using table_inv_Some [OF T] by (metis imageI not_None_eq)
  then show ?thesis
    unfolding created(2) using created(1,3) q by (intro table_change.new_row)
next
  case (updated q cur q' k)
  from updated(1) G obtain old where old: "old \<in> history s" "ReqID old = ReqID q"
    "Version old = Version cur" "allowed svc ex c (Some old) q"
    by auto
  then have "cur = old"
    using known_is_current [OF T old(1)] updated(3) by simp
  then show ?thesis
    unfolding updated(2) using updated(1,3,4) old(4) by (intro table_change.new_value) simp_all
qed

lemma table_step_keeps:
  assumes step: "table_step p tab tab'"
    and T: "table_inv svc tab s" and L: "log_inv svc ex tab (events s)"
    and G: "ok ex (allowed svc ex c) (\<lambda>_ _ _. True) p K F" "K \<subseteq> history s"
    and F: "F \<subseteq> drawn s" "F \<inter> ReqID ` history s = {}"
    and svc: "trim_space (defaultReviewerID svc) = defaultReviewerID svc"
    and bound: "int (length (events s')) < 2 ^ 63"
    and view: "view (wstore w) = tab" "view (wstore w') = tab'"
    and s': "history s' = history s \<union> ran tab'"
      "events s' = new_events view c p (wstore w) (wstore w') @ events s" "drawn s \<subseteq> drawn s'"
  shows "table_inv svc tab' s' \<and> log_inv svc ex tab' (events s') \<and>
    ReqID ` history s' \<subseteq> ReqID ` history s \<union> used_by p \<inter> F"
  using table_step_change [OF step T G F(2)]
proof cases
  case idle
  then have "new_events view c p (wstore w) (wstore w') = []"
    using view by (induction view c p "wstore w" "wstore w'" rule: new_events.induct) auto
  with idle T L s' table_inv_ran [OF T] show ?thesis
    by (auto intro: table_inv_same [OF T])
next
  case (new_row q k q')
  then have ev: "events s' = (c, None, q) # events s"
    using view s'(2) by simp
  have h: "history s' = insert q' (history s)"
    using new_row(1) s'(1) ran_upd_history [OF table_inv_ran [OF T]] by simp
  show ?thesis
    using created_keeps [OF T L F new_row(3,5,6) svc h ev s'(3)] new_row h stored_as_ids(1) [OF new_row(6)]
    by auto
next
  case (new_value q cur k q')
  then have "Version q = Version cur + 1"
    using changes_frame(2) allowed_changes by blast
  then have "q' \<noteq> cur"
    using stored_as_ids(2) [OF new_value(5)] by auto
  then have ev: "events s' = (c, Some cur, q) # events s"
    using new_value view s'(2) by simp
  have h: "history s' = insert q' (history s)"
    using new_value(1) s'(1) ran_upd_history [OF table_inv_ran [OF T]] by simp
  have "ReqID q' \<in> ReqID ` history s"
    using table_inv_Some [OF T new_value(3)] stored_as_ids(1) [OF new_value(5)] by (auto intro: rev_image_eqI)
  then show ?thesis
    using updated_keeps [OF T L new_value(3,4,5) svc _ h ev s'(3)] bound ev new_value(1) h by auto
qed

context server
begin

lemma call_keeps_sys_inv:
  assumes I: "sys_inv svc ex view inv s"
    and svc: "trim_space (defaultReviewerID svc) = defaultReviewerID svc"
    and n: "threads s n = Some (c, p)" and call: "step ops ex p (sworld s) = (p', w')"
    and fresh: "drawn_by p (sworld s) \<inter> drawn s = {}"
    and s': "s' = s\<lparr>sworld := w', threads := (threads s)(n \<mapsto> (c, p')),
         history := history s \<union> ran (view (wstore w')),
         events := new_events view c p (sstore s) (wstore w') @ events s,
         drawn := drawn s \<union> drawn_by p (sworld s)\<rparr>"
    and bound: "int (length (events s')) < 2 ^ 63"
  shows "sys_inv svc ex view inv s'"
proof -
  have I': "inv (sstore s)" "table_inv svc (view (sstore s)) s"
    "log_inv svc ex (view (sstore s)) (events s)"
    using I by (auto simp: sys_inv_def)
  from I obtain F where F: "owners_inv svc ex s F" by (auto simp: sys_inv_def)
  note Fn = owners_invD [OF F n]
  from Fn(3) obtain K where K: "K \<subseteq> history s" "ok ex (allowed svc ex c) (\<lambda>_ _ _. True) p K (F n)"
    by blast
  have tab: "table_step p (view (sstore s)) (view (wstore w'))"
    using I'(1) call by (rule step_table)
  have "table_inv svc (view (wstore w')) s' \<and> log_inv svc ex (view (wstore w')) (events s') \<and>
      ReqID ` history s' \<subseteq> ReqID ` history s \<union> used_by p \<inter> F n"
    by (rule table_step_keeps [OF tab I'(2,3) K(2,1) Fn(1,2) svc bound refl refl])
      (use s' in auto)
  note tl = this
  obtain K' where K': "K' \<subseteq> K \<union> ran (view (wstore w'))"
    "ok ex (allowed svc ex c) (\<lambda>_ _ _. True) p' K' ((F n \<union> drawn_by p (sworld s)) - used_by p)"
    using step_ok [OF I'(1) call K(2)] by blast
  have h: "history s' = history s \<union> ran (view (wstore w'))" "drawn s' = drawn s \<union> drawn_by p (sworld s)"
    "threads s' = (threads s)(n \<mapsto> (c, p'))" "sworld s' = w'"
    using s' by simp_all
  have "K' \<subseteq> history s'" "history s \<subseteq> history s'"
    using K'(1) K(1) h(1) by auto
  with K'(2) tl have "owners_inv svc ex s' (F(n := (F n \<union> drawn_by p (sworld s)) - used_by p))"
    by (intro owners_call [OF F n _ fresh h(3,2) _ _ table_inv_drawn [OF I'(2)]]) blast+
  then show ?thesis
    using tl step_inv [OF I'(1) call] h(4) unfolding sys_inv_def by metis
qed

end


lemma owners_start:
  assumes "owners_inv svc ex s F"
  shows "owners_inv svc ex (s\<lparr>threads := (threads s)(n \<mapsto> (c, api_prog svc c))\<rparr>) F"
proof -
  have "ok ex (allowed svc ex c) (\<lambda>_ _ _. True) (api_prog svc c) {} (F n)"
    by (rule ok_weaken [OF ok_api_prog]) simp_all
  with assms show ?thesis
    by (auto simp: owners_inv_def owner_ok_def)
qed

lemma owners_stop:
  "owners_inv svc ex s F \<Longrightarrow> owners_inv svc ex (s\<lparr>threads := (threads s)(n := None)\<rparr>) F"
  by (auto simp: owners_inv_def owner_ok_def)

lemma sys_inv_threads:
  assumes "sys_inv svc ex view invar s" and "\<And>F. owners_inv svc ex s F \<Longrightarrow> owners_inv svc ex (s\<lparr>threads := t\<rparr>) F"
  shows "sys_inv svc ex view invar (s\<lparr>threads := t\<rparr>)"
  using assms table_inv_same [of svc "view (sstore s)" s "s\<lparr>threads := t\<rparr>"]
  unfolding sys_inv_def by fastforce

context server
begin

lemma boot_inv:
  assumes "inv (wstore w)" and "view (wstore w) = Map.empty"
  shows "sys_inv svc ex view inv (boot w)"
proof -
  have "owners_inv svc ex (boot w) (\<lambda>_. {})"
    by (simp add: owners_inv_def owner_ok_def boot_def)
  with assms show ?thesis
    by (auto simp: sys_inv_def boot_def table_inv_def log_inv_def entry_ok_def last_event_def)
qed

lemma step_keeps_sys_inv:
  assumes "sys_step svc ex ops view s s'" and "sys_inv svc ex view inv s"
    and "trim_space (defaultReviewerID svc) = defaultReviewerID svc"
    and "int (length (events s')) < 2 ^ 63"
  shows "sys_inv svc ex view inv s'"
  using assms
proof cases
  case (call n c p p' w')
  then show ?thesis
    by (intro call_keeps_sys_inv [OF assms(2,3) call(2,3,4,1) assms(4)])
qed (use assms(2) in \<open>auto intro: sys_inv_threads owners_start owners_stop\<close>)

theorem reachable_inv:
  assumes "reachable svc ex ops view w s" and "inv (wstore w)" and "view (wstore w) = Map.empty"
    and "trim_space (defaultReviewerID svc) = defaultReviewerID svc"
    and "int (length (events s)) < 2 ^ 63"
  shows "sys_inv svc ex view inv s"
  using assms(1,5)
proof induction
  case boot
  show ?case using assms(2,3) by (rule boot_inv)
next
  case (step s s')
  from events_grow [OF step.hyps(2)] have "length (events s) \<le> length (events s')" by auto
  with step show ?case
    using step_keeps_sys_inv [OF step.hyps(2) _ assms(4)] by simp
qed

end

subsection \<open>What a log of allowed, chained events shows\<close>

lemma allowed_to_approved:
  assumes "allowed svc ex c (Some old) q" and "Status q = StatusApproved"
  shows "\<exists>a key inp. c = CallApprove a (ReqID old) key inp \<and> canReview a old \<and> act_ID a \<noteq> RequesterID old"
  using assms by (cases c) (auto simp: change_defs split: option.splits if_splits)

text \<open>
  Whatever is approved, executed or failed in execution was approved in an event of the log, by
  an administrator or the assigned reviewer, and not by its requester.
\<close>

fun approves :: "string \<Rightarrow> string \<Rightarrow> event \<Rightarrow> bool" where
  "approves i requester (CallApprove a j key inp, Some old, q) \<longleftrightarrow>
     j = i \<and> canReview a old \<and> RequesterID old = requester \<and> act_ID a \<noteq> requester"
| "approves i requester _ \<longleftrightarrow> False"

definition approved_in :: "event list \<Rightarrow> string \<Rightarrow> string \<Rightarrow> bool" where
  "approved_in es i requester \<longleftrightarrow> list_ex (approves i requester) es"

lemma approved_in_Cons: "approved_in es i r \<Longrightarrow> approved_in (e # es) i r"
  by (simp add: approved_in_def)

lemma approved_in_here:
  assumes "allowed svc ex c (Some old) q" and "Status q = StatusApproved" and "ReqID old = i"
  shows "approved_in ((c, Some old, q) # es) i (RequesterID old)"
  using allowed_to_approved [OF assms(1,2)] assms(3) by (auto simp: approved_in_def)

lemma log_approval:
  assumes "\<forall>e \<in> set es. allowed svc ex (fst e) (fst (snd e)) (snd (snd e))" and "chained es"
    and "last_event i es = Some (c, old, q)"
    and "Status q \<in> {StatusApproved, StatusExecuted, StatusExecutionFailed}"
  shows "approved_in es i (RequesterID q)"
  using assms
proof (induction es arbitrary: c old q)
  case Nil
  then show ?case by (simp add: last_event_def)
next
  case (Cons e es)
  show ?case
  proof (cases "event_id e = i")
    case False
    with Cons.prems have "last_event i es = Some (c, old, q)" by simp
    with Cons.prems Cons.IH show ?thesis by (intro approved_in_Cons) simp
  next
    case True
    with Cons.prems have e: "e = (c, old, q)" "ReqID q = i" "allowed svc ex c old q"
      "continues e (last_event i es)"
      by (auto simp: event_id_def)
    obtain old' where old': "old = Some old'"
      using e(3) Cons.prems(4) by (cases old) (auto dest!: allowed_create simp: is_draft_of_def)
    from e(3) old' have ch: "changes svc old' q" by (auto dest: allowed_changes)
    note frame = changes_frame [OF ch]
    show ?thesis
    proof (cases "Status q = StatusApproved")
      case True
      have "approved_in ((c, Some old', q) # es) i (RequesterID old')"
        using e(2,3) old' frame(1) True by (intro approved_in_here) auto
      then show ?thesis using e(1) old' frame(3) by simp
    next
      case False
      with Cons.prems(4) changes_status [OF ch]
      have st: "Status old' \<in> {StatusApproved, StatusExecuted, StatusExecutionFailed}"
        by (auto elim: next_status.cases)
      from e old' obtain c0 o0 q0 where "last_event i es = Some (c0, o0, q0)" "stored_as q0 old'"
        by auto
      with Cons.IH [of c0 o0 q0] Cons.prems(1,2) st have "approved_in es i (RequesterID old')"
        by (simp add: stored_as_ids)
      then show ?thesis using frame(3) by (simp add: approved_in_Cons)
    qed
  qed
qed

text \<open>What a request is about never changes, and versions only grow.\<close>

definition same_identity :: "request \<Rightarrow> request \<Rightarrow> bool" where
  "same_identity a b \<longleftrightarrow>
     ReqID a = ReqID b \<and> RequesterID a = RequesterID b \<and> ReqType a = ReqType b \<and>
     TargetResource a = TargetResource b \<and> Justification a = Justification b"

lemma same_identity_stored: "stored_as q q' \<Longrightarrow> same_identity q q'"
  by (simp add: same_identity_def stored_as_def)

lemma same_identity_changes: "changes svc old q \<Longrightarrow> same_identity old q"
  by (simp add: same_identity_def changes_frame)

lemma same_identity_trans: "same_identity a b \<Longrightarrow> same_identity b c \<Longrightarrow> same_identity a c"
  by (simp add: same_identity_def)

lemma log_identity:
  assumes "\<forall>e \<in> set es. allowed svc ex (fst e) (fst (snd e)) (snd (snd e))" and "chained es"
    and "(c, old, q) \<in> set es" and "last_event (ReqID q) es = Some (c', old', q')"
  shows "same_identity q q'"
  using assms
proof (induction es arbitrary: c' old' q')
  case Nil
  then show ?case by simp
next
  case (Cons e es)
  show ?case
  proof (cases "event_id e = ReqID q")
    case False
    with Cons.prems have "(c, old, q) \<in> set es" by (auto simp: event_id_def)
    with Cons False show ?thesis by simp
  next
    case True
    with Cons.prems(4) have e: "e = (c', old', q')" by simp
    show ?thesis
    proof (cases "(c, old, q) \<in> set es")
      case False
      with Cons.prems(3) e show ?thesis by (simp add: same_identity_def)
    next
      case in_es: True
      then have "last_event (ReqID q) es \<noteq> None"
        by (auto simp: last_event_def find_None_iff event_id_def)
      moreover from Cons.prems(2) True have "continues e (last_event (ReqID q) es)" by simp
      ultimately obtain old1 c1 o1 q1 where l: "old' = Some old1" "last_event (ReqID q) es = Some (c1, o1, q1)"
        "stored_as q1 old1"
        unfolding e by (cases old') auto
      have "same_identity q q1" using Cons in_es l(2) by simp
      moreover have "same_identity q1 old1" using l(3) by (rule same_identity_stored)
      moreover have "allowed svc ex c' (Some old1) q'" using Cons.prems(1) e l(1) by simp
      then have "same_identity old1 q'" by (intro same_identity_changes allowed_changes)
      ultimately show ?thesis by (blast intro: same_identity_trans)
    qed
  qed
qed

text \<open>Nothing follows a rejection or a successful execution.\<close>

lemma log_terminal:
  assumes "\<forall>e \<in> set es. allowed svc ex (fst e) (fst (snd e)) (snd (snd e))" and "chained es"
    and "(c, old, q) \<in> set es" and "Status q \<in> {StatusRejected, StatusExecuted}"
  shows "last_event (ReqID q) es = Some (c, old, q)"
  using assms
proof (induction es)
  case Nil
  then show ?case by simp
next
  case (Cons e es)
  show ?case
  proof (cases "e = (c, old, q)")
    case True
    then show ?thesis by (simp add: event_id_def)
  next
    case False
    with Cons have last: "last_event (ReqID q) es = Some (c, old, q)" by simp
    have "event_id e \<noteq> ReqID q"
    proof
      assume id: "event_id e = ReqID q"
      obtain c1 o1 q1 where e: "e = (c1, o1, q1)" by (cases e)
      with Cons.prems(1,2) id last obtain old1 where "o1 = Some old1" "stored_as q old1"
        "allowed svc ex c1 (Some old1) q1"
        by (cases o1) auto
      then have "next_status (Status q) (Status q1)"
        using changes_status allowed_changes stored_as_ids(3) by metis
      with Cons.prems(4) show False
        by (auto simp: terminal_statuses)
    qed
    with last show ?thesis by simp
  qed
qed


text \<open>The retry budget: how many executions the worker may record for one request.\<close>

fun worker_run :: "string \<Rightarrow> event \<Rightarrow> bool" where
  "worker_run i (CallExecutions limit, old, q) \<longleftrightarrow> ReqID q = i"
| "worker_run i _ \<longleftrightarrow> False"

definition worker_runs :: "string \<Rightarrow> event list \<Rightarrow> nat" where
  "worker_runs i es = length (filter (worker_run i) es)"

definition budget :: "service \<Rightarrow> int" where
  "budget svc = max 1 (sint (executionMaxAttempts svc))"

lemma worker_runs_Cons [simp]:
  "worker_runs i (e # es) = (if worker_run i e then Suc (worker_runs i es) else worker_runs i es)"
  by (simp add: worker_runs_def)

lemma worker_runs_Nil [simp]: "worker_runs i [] = 0"
  by (simp add: worker_runs_def)

lemma worker_run_id: "worker_run i e \<Longrightarrow> event_id e = i"
  by (induction i e rule: worker_run.induct) (auto simp: event_id_def)

lemma worker_runs_none: "last_event i es = None \<Longrightarrow> worker_runs i es = 0"
  by (induction es) (auto split: if_splits dest: worker_run_id)

text \<open>One event: the attempts counter moves with the worker's executions and stays in budget.\<close>

lemma allowed_attempts:
  assumes "allowed svc ex c (Some old) q" and "well_formed svc old"
  shows "sint (ExecutionAttempts old) \<le> sint (ExecutionAttempts q)"
    and "worker_run i (c, Some old, q) \<Longrightarrow>
      sint (ExecutionAttempts q) = sint (ExecutionAttempts old) + 1 \<and> sint (ExecutionAttempts old) < budget svc"
proof -
  from assms(1) have "changes svc old q" by (rule allowed_changes)
  then have "ExecutionAttempts q = ExecutionAttempts old \<or> ExecutionAttempts q = ExecutionAttempts old + 1"
    by induction (auto simp: change_defs)
  moreover have inc: "sint (ExecutionAttempts old + 1) = sint (ExecutionAttempts old) + 1"
    using wf_counters(1,4) [OF assms(2)] by (rule counter_inc)
  ultimately show "sint (ExecutionAttempts old) \<le> sint (ExecutionAttempts q)" by auto
  assume "worker_run i (c, Some old, q)"
  then obtain l where c: "c = CallExecutions l" by (cases c) auto
  with assms(1) have "ExecutionAttempts q = ExecutionAttempts old + 1"
    by (auto simp: executionApplied_def Let_def split: option.splits)
  moreover have "NextExecutionAt old \<noteq> None" "Status old = StatusApproved \<or> Status old = StatusExecutionFailed"
    using assms(1) c by (simp_all split: option.splits)
  then have "ExecutionAttempts old = 0 \<or> go_less (ExecutionAttempts old) (executionMaxAttempts svc)"
    using assms(2) unfolding well_formed_def by (elim disjE conjE; simp)
  then have "sint (ExecutionAttempts old) < budget svc"
    by (auto simp: budget_def go_less_def)
  ultimately show "sint (ExecutionAttempts q) = sint (ExecutionAttempts old) + 1 \<and>
      sint (ExecutionAttempts old) < budget svc"
    using inc by simp
qed

definition within_budget :: "service \<Rightarrow> event list \<Rightarrow> string \<Rightarrow> request \<Rightarrow> bool" where
  "within_budget svc es i q \<longleftrightarrow>
     well_formed svc q \<and> sint (Version q) \<le> int (length es) \<and>
     int (worker_runs i es) \<le> sint (ExecutionAttempts q) \<and> int (worker_runs i es) \<le> budget svc"

lemma log_budget:
  assumes "\<forall>e \<in> set es. allowed svc ex (fst e) (fst (snd e)) (snd (snd e))" and "chained es"
    and "int (length es) < 2 ^ 63" and "trim_space (defaultReviewerID svc) = defaultReviewerID svc"
    and "last_event i es = Some (c, old, q)"
  shows "within_budget svc es i q"
  using assms
proof (induction es arbitrary: c old q)
  case Nil
  then show ?case by (simp add: last_event_def)
next
  case (Cons e es)
  show ?case
  proof (cases "event_id e = i")
    case False
    with Cons.prems have "within_budget svc es i q" by (intro Cons.IH) auto
    with False show ?thesis
      by (auto simp: within_budget_def dest: worker_run_id)
  next
    case True
    with Cons.prems have e: "e = (c, old, q)" "ReqID q = i" "allowed svc ex c old q"
      "continues e (last_event i es)"
      by (auto simp: event_id_def)
    show ?thesis
    proof (cases old)
      case None
      with e obtain a inp where "c = CallCreateDraft a inp" "is_draft_of a inp q"
        by (auto dest: allowed_create)
      moreover have "worker_runs i es = 0"
        using e None by (intro worker_runs_none) simp
      moreover have "Version q = 1" "ExecutionAttempts q = 0"
        using calculation(2) by (simp_all add: is_draft_of_def)
      ultimately show ?thesis
        using e(1) None by (auto simp: within_budget_def budget_def intro: well_formed_draft)
    next
      case (Some old')
      with e obtain c0 o0 q0 where "last_event i es = Some (c0, o0, q0)" and st: "stored_as q0 old'"
        by auto
      with Cons.prems have b: "within_budget svc es i q0" by (intro Cons.IH) auto
      have wf: "well_formed svc old'"
        using b st Cons.prems(4) by (auto simp: within_budget_def intro: well_formed_stored)
      have ch: "changes svc old' q" using e(3) Some by (auto dest: allowed_changes)
      have small: "sint (Version old') < 2 ^ 63 - 1"
        using b st Cons.prems(3) by (simp add: within_budget_def stored_as_ids)
      have "sint (Version q) = sint (Version old') + 1"
        using changes_frame(2) [OF ch] small by (simp add: sint_inc)
      moreover have "sint (ExecutionAttempts old') = sint (ExecutionAttempts q0)" "sint (Version old') = sint (Version q0)"
        using st by (simp_all add: stored_as_ids)
      moreover note allowed_attempts(1) [OF e(3) [unfolded Some] wf]
        allowed_attempts(2) [OF e(3) [unfolded Some] wf, of i]
        changes_well_formed [OF ch wf small]
      ultimately show ?thesis
        using b e(1) Some by (cases "worker_run i e") (simp_all add: within_budget_def)
    qed
  qed
qed

lemma log_inv_allowed: "log_inv svc ex tab es \<Longrightarrow> \<forall>e \<in> set es. allowed svc ex (fst e) (fst (snd e)) (snd (snd e))"
  by (auto simp: log_inv_def event_ok_def)

end
