(* ===== verification/Refinement.thy ===== *)
theory Refinement
  imports Concurrency
begin

text \<open>
  The abstract machine of the workflow: a table of requests, changed one event at a time. An
  event names the call that causes it, the value it replaces, which must be the current one,
  and the value it writes, which must be what the call prescribes for the current one. The
  machine knows neither stores nor goroutines, faults, idempotency keys or versions that do not
  match. Every step of the concurrent server over a store that keeps the contract is, seen
  through the store's view, no step of the machine or exactly one, and then the step the log
  records; so the log of every run is a run of the machine that ends in the stored table. The
  last part counts the events of a log: the counters of a stored request are these numbers.
\<close>

inductive workflow_step ::
  "service \<Rightarrow> executor \<Rightarrow> event \<Rightarrow> (string \<Rightarrow> request option) \<Rightarrow> (string \<Rightarrow> request option) \<Rightarrow> bool"
  for svc ex where
  create: "tab (ReqID q) = None \<Longrightarrow> allowed svc ex c None q \<Longrightarrow> stored_as q q' \<Longrightarrow>
    workflow_step svc ex (c, None, q) tab (tab(ReqID q \<mapsto> q'))"
| change: "tab (ReqID q) = Some cur \<Longrightarrow> allowed svc ex c (Some cur) q \<Longrightarrow> stored_as q q' \<Longrightarrow>
    workflow_step svc ex (c, Some cur, q) tab (tab(ReqID q \<mapsto> q'))"

inductive workflow_run ::
  "service \<Rightarrow> executor \<Rightarrow> event list \<Rightarrow> (string \<Rightarrow> request option) \<Rightarrow> bool" for svc ex where
  empty: "workflow_run svc ex [] Map.empty"
| step: "workflow_run svc ex es tab \<Longrightarrow> workflow_step svc ex e tab tab' \<Longrightarrow>
    workflow_run svc ex (e # es) tab'"

lemma table_change_refines:
  assumes "table_change svc ex c F p (view s) (view s')"
  shows "new_events view c p s s' = [] \<and> view s' = view s \<or>
    (\<exists>old q. new_events view c p s s' = [(c, old, q)] \<and> workflow_step svc ex (c, old, q) (view s) (view s'))"
  using assms
proof cases
  case idle
  then have "new_events view c p s s' = []"
    by (induction view c p s s' rule: new_events.induct) auto
  with idle show ?thesis by simp
next
  case (new_row q k q')
  have "workflow_step svc ex (c, None, q) (view s) (view s')"
    unfolding new_row(1) using new_row(4-6) by (rule workflow_step.create)
  moreover have "new_events view c p s s' = [(c, None, q)]"
    using new_row by simp
  ultimately show ?thesis by blast
next
  case (new_value q cur k q')
  have "Version q = Version cur + 1"
    using new_value(4) changes_frame(2) allowed_changes by blast
  then have "q' \<noteq> cur"
    using stored_as_ids(2) [OF new_value(5)] by auto
  then have "new_events view c p s s' = [(c, Some cur, q)]"
    using new_value by simp
  moreover have "workflow_step svc ex (c, Some cur, q) (view s) (view s')"
    unfolding new_value(1) using new_value(3-5) by (rule workflow_step.change)
  ultimately show ?thesis by blast
qed

context server
begin

text \<open>What the next call of a goroutine does to the table.\<close>

lemma call_changes:
  assumes "sys_inv svc ex view inv s" and "threads s n = Some (c, p)"
    and "table_step p (view (sstore s)) tab'"
  shows "\<exists>F. table_change svc ex c F p (view (sstore s)) tab'"
proof -
  from assms(1) obtain F where F: "owners_inv svc ex s F" and T: "table_inv svc (view (sstore s)) s"
    by (auto simp: sys_inv_def)
  note Fn = owners_invD [OF F assms(2)]
  from Fn(3) obtain K where K: "K \<subseteq> history s" "ok ex (allowed svc ex c) (\<lambda>_ _ _. True) p K (F n)"
    by blast
  from table_step_change [OF assms(3) T K(2,1) Fn(2)] show ?thesis by blast
qed

lemma step_refines:
  assumes "sys_step svc ex ops view s s'" and "sys_inv svc ex view inv s"
  shows "events s' = events s \<and> view (sstore s') = view (sstore s) \<or>
    (\<exists>n c p old q. threads s n = Some (c, p) \<and> events s' = (c, old, q) # events s \<and>
       workflow_step svc ex (c, old, q) (view (sstore s)) (view (sstore s')))"
  using assms
proof cases
  case (call n c p p' w')
  have "inv (sstore s)" using assms(2) by (simp add: sys_inv_def)
  then have "table_step p (view (sstore s)) (view (wstore w'))"
    using call(3) by (rule step_table)
  with call_changes [OF assms(2) call(2)] obtain F where
    "table_change svc ex c F p (view (sstore s)) (view (wstore w'))" by blast
  from table_change_refines [of svc ex c F p view, OF this] show ?thesis
    using call(1,2) by fastforce
qed auto

lemma reachable_refines:
  assumes "reachable svc ex ops view w s" and "inv (wstore w)" and "view (wstore w) = Map.empty"
    and "trim_space (defaultReviewerID svc) = defaultReviewerID svc"
    and "int (length (events s)) < 2 ^ 63"
  shows "workflow_run svc ex (events s) (view (sstore s))"
  using assms(1,5)
proof induction
  case boot
  show ?case using assms(3) by (simp add: boot_def workflow_run.empty)
next
  case (step s s')
  from events_grow [OF step.hyps(2)] have "length (events s) \<le> length (events s')" by auto
  with step.prems have small: "int (length (events s)) < 2 ^ 63" by simp
  have "sys_inv svc ex view inv s"
    using step.hyps(1) assms(2-4) small by (rule reachable_inv)
  from step_refines [OF step.hyps(2) this] step.IH [OF small] show ?case
    by (auto intro: workflow_run.step)
qed

text \<open>An update the store acknowledges was computed from the current value, and is stored.\<close>

lemma acknowledged_update:
  assumes "sys_inv svc ex view inv s" and "threads s n = Some (c, Write (UpdateRequest q v) k)"
    and "op_write ops (UpdateRequest q v) (sstore s) = (None, d)"
  shows "\<exists>cur q'. view (sstore s) (ReqID q) = Some cur \<and> allowed svc ex c (Some cur) q \<and>
    stored_as q q' \<and> view d = (view (sstore s))(ReqID q \<mapsto> q')"
proof -
  have "inv (sstore s)" using assms(1) by (simp add: sys_inv_def)
  then obtain cur q' where u: "view (sstore s) (ReqID q) = Some cur" "Version cur = v" "stored_as q q'"
    "view d = (view (sstore s))(ReqID q \<mapsto> q')"
    using assms(3) by (rule update_success)
  then have "table_step (Write (UpdateRequest q v) k) (view (sstore s)) (view d)"
    using table_step.updated [of "view (sstore s)" q cur q' k] by simp
  from call_changes [OF assms(1,2) this] obtain F where
    "table_change svc ex c F (Write (UpdateRequest q v) k) (view (sstore s)) (view d)" by blast
  then show ?thesis
  proof cases
    case idle
    then have q': "q' = cur" using u by (metis fun_upd_same option.inject)
    from assms(1) obtain F where F: "owners_inv svc ex s F" and T: "table_inv svc (view (sstore s)) s"
      by (auto simp: sys_inv_def)
    from owners_invD(3) [OF F assms(2)] obtain old where old: "old \<in> history s" "ReqID old = ReqID q"
      "Version old = v" "allowed svc ex c (Some old) q" by auto
    then have "cur = old" using known_is_current [OF T old(1)] u(1,2) by simp
    with old(4) u show ?thesis by blast
  next
    case (new_value q1 cur1 k1 q1')
    then show ?thesis using u by auto
  qed simp
qed

end


subsection \<open>Counting the events of a log\<close>

definition events_of :: "string \<Rightarrow> event list \<Rightarrow> nat" where
  "events_of i es = length (filter (\<lambda>e. event_id e = i) es)"

fun reports_execution :: "api_call \<Rightarrow> bool" where
  "reports_execution (CallExecutionResult a i inp) = True"
| "reports_execution (CallExecutions limit) = True"
| "reports_execution _ = False"

fun reminds :: "api_call \<Rightarrow> bool" where
  "reminds (CallReminders limit) = True"
| "reminds _ = False"

definition executions_of :: "string \<Rightarrow> event list \<Rightarrow> nat" where
  "executions_of i es = length (filter (\<lambda>e. event_id e = i \<and> reports_execution (fst e)) es)"

definition reminders_of :: "string \<Rightarrow> event list \<Rightarrow> nat" where
  "reminders_of i es = length (filter (\<lambda>e. event_id e = i \<and> reminds (fst e)) es)"

lemmas count_defs = events_of_def executions_of_def reminders_of_def

definition counted :: "string \<Rightarrow> event list \<Rightarrow> request \<Rightarrow> bool" where
  "counted i es q \<longleftrightarrow>
     sint (Version q) = int (events_of i es) \<and> sint (ExecutionAttempts q) = int (executions_of i es) \<and>
     sint (ReminderCount q) = int (reminders_of i es)"

lemma counts_bound: "executions_of i es \<le> length es" "reminders_of i es \<le> length es" "events_of i es \<le> length es"
  by (simp_all add: count_defs)

lemma no_events: "last_event i es = None \<Longrightarrow> events_of i es = 0 \<and> executions_of i es = 0 \<and> reminders_of i es = 0"
  by (induction es) (auto simp: count_defs split: if_splits)

lemma counted_stored: "counted i es q \<Longrightarrow> stored_as q q' \<Longrightarrow> counted i es q'"
  by (simp add: counted_def stored_as_def)

lemma allowed_counts:
  assumes "allowed svc ex c (Some old) q"
  shows "Version q = Version old + 1"
    "ExecutionAttempts q = (if reports_execution c then ExecutionAttempts old + 1 else ExecutionAttempts old)"
    "ReminderCount q = (if reminds c then ReminderCount old + 1 else ReminderCount old)"
  using assms by (cases c; auto simp: change_defs split: option.splits)+

lemma counted_step:
  assumes "allowed svc ex c (Some old) q" and "counted i es old" and "int (length es) < 2 ^ 63 - 1"
    and "ReqID q = i"
  shows "counted i ((c, Some old, q) # es) q"
proof -
  note b = counts_bound [of i es]
  have "sint (Version q) = sint (Version old) + 1"
    unfolding allowed_counts(1) [OF assms(1)]
    by (rule sint_inc) (use assms(2,3) b in \<open>simp add: counted_def\<close>)
  moreover have "sint (ExecutionAttempts old + 1) = sint (ExecutionAttempts old) + 1"
    by (rule sint_inc) (use assms(2,3) b in \<open>simp add: counted_def\<close>)
  moreover have "sint (ReminderCount old + 1) = sint (ReminderCount old) + 1"
    by (rule sint_inc) (use assms(2,3) b in \<open>simp add: counted_def\<close>)
  ultimately show ?thesis
    using assms(2,4) allowed_counts(2,3) [OF assms(1)] by (simp add: counted_def count_defs event_id_def)
qed

lemma log_counts:
  assumes "\<forall>e \<in> set es. allowed svc ex (fst e) (fst (snd e)) (snd (snd e))" and "chained es"
    and "int (length es) < 2 ^ 63" and "last_event i es = Some (c, old, q)"
  shows "counted i es q"
  using assms
proof (induction es arbitrary: c old q)
  case Nil
  then show ?case by (simp add: last_event_def)
next
  case (Cons e es)
  show ?case
  proof (cases "event_id e = i")
    case False
    with Cons.prems have "counted i es q" by (intro Cons.IH) auto
    with False show ?thesis by (simp add: counted_def count_defs)
  next
    case True
    with Cons.prems have e: "e = (c, old, q)" "ReqID q = i" "allowed svc ex c old q"
      "continues e (last_event i es)"
      by (auto simp: event_id_def)
    show ?thesis
    proof (cases old)
      case None
      with e no_events [of i es] obtain a inp where "c = CallCreateDraft a inp" "is_draft_of a inp q"
        "events_of i es = 0" "executions_of i es = 0" "reminders_of i es = 0"
        by (auto dest: allowed_create)
      with e show ?thesis by (simp add: counted_def count_defs is_draft_of_def event_id_def)
    next
      case (Some old')
      with e obtain c0 o0 q0 where "last_event i es = Some (c0, o0, q0)" and st: "stored_as q0 old'"
        by auto
      with Cons.prems have "counted i es q0" by (intro Cons.IH) auto
      then have "counted i es old'" using st by (rule counted_stored)
      with e Some Cons.prems(3) show ?thesis by (auto intro: counted_step)
    qed
  qed
qed

end
