(* ===== verification/Runs.thy ===== *)
theory Runs
  imports Concurrency
begin

text \<open>
  Runs of the system: a goroutine that is scheduled alone finishes its call with the sequential
  result (\<open>run\<close>), so every sequence of calls is a run of the concurrent system. \<open>trace\<close> is
  what such a run draws and writes.
\<close>

primrec trace ::
  "'s store_ops \<Rightarrow> executor \<Rightarrow> ('s \<Rightarrow> string \<Rightarrow> request option) \<Rightarrow> api_call \<Rightarrow> outcome prog \<Rightarrow> 's world \<Rightarrow>
   string list \<times> event list" where
  "trace ops ex view c (Return a) = (\<lambda>w. ([], []))"
| "trace ops ex view c (Write wc k) =
     (\<lambda>w. let (r, s) = op_write ops wc (wstore w);
             (ids, es) = trace ops ex view c (k r) (w\<lparr>wstore := s\<rparr>)
         in (ids, es @ new_events view c (Write wc k) (wstore w) s))"
| "trace ops ex view c (GetRequest i k) =
     (\<lambda>w. let (r, s) = op_GetRequest ops i (wstore w) in trace ops ex view c (k r) (w\<lparr>wstore := s\<rparr>))"
| "trace ops ex view c (ListOf lc k) =
     (\<lambda>w. let (r, s) = op_list ops lc (wstore w) in trace ops ex view c (k r) (w\<lparr>wstore := s\<rparr>))"
| "trace ops ex view c (ListAudit i k) =
     (\<lambda>w. let (r, s) = op_ListAudit ops i (wstore w) in trace ops ex view c (k r) (w\<lparr>wstore := s\<rparr>))"
| "trace ops ex view c (GetIdempotency sc i k) =
     (\<lambda>w. let (r, s) = op_GetIdempotency ops sc i (wstore w) in trace ops ex view c (k r) (w\<lparr>wstore := s\<rparr>))"
| "trace ops ex view c (Now k) = (\<lambda>w. trace ops ex view c (k (clock w (ticks w))) (w\<lparr>ticks := ticks w + 1\<rparr>))"
| "trace ops ex view c (NewID p k) =
     (\<lambda>w. let (ids, es) = trace ops ex view c (k (draw_id p w)) (after_draw w)
         in (draw_id p w # ids, es))"
| "trace ops ex view c (Execute q k) =
     (\<lambda>w. trace ops ex view c (k (ex q)) (w\<lparr>executed := executed w @ [q]\<rparr>))"

lemma reach_call:
  assumes "reachable svc ex ops view w0 s" and "threads s n = Some (c, p)"
    and "step ops ex p (sworld s) = (p', w')" and "drawn_by p (sworld s) \<inter> drawn s = {}"
  obtains s1 where "reachable svc ex ops view w0 s1" "threads s1 = (threads s)(n \<mapsto> (c, p'))"
    "sworld s1 = w'" "drawn s1 = drawn s \<union> drawn_by p (sworld s)"
    "events s1 = new_events view c p (sstore s) (wstore w') @ events s"
  using reachable.step [OF assms(1) sys_step.call [OF assms(2-4)]] by (rule that) simp_all

text \<open>What a goroutine leaves behind when it has run \<open>p\<close> to its end from \<open>s\<close>.\<close>

definition finished ::
  "'s store_ops \<Rightarrow> executor \<Rightarrow> ('s \<Rightarrow> string \<Rightarrow> request option) \<Rightarrow> nat \<Rightarrow> api_call \<Rightarrow> outcome prog \<Rightarrow>
   's sys \<Rightarrow> 's sys \<Rightarrow> bool" where
  "finished ops ex view n c p s s' \<longleftrightarrow>
     threads s' = (threads s)(n \<mapsto> (c, Return (fst (run ops ex p (sworld s))))) \<and>
     sworld s' = snd (run ops ex p (sworld s)) \<and>
     drawn s' = drawn s \<union> set (fst (trace ops ex view c p (sworld s))) \<and>
     events s' = snd (trace ops ex view c p (sworld s)) @ events s"

lemma finished_step:
  assumes "finished ops ex view n c p' s1 s'" and "threads s1 = (threads s)(n \<mapsto> (c, p'))"
    and "step ops ex p (sworld s) = (p', sworld s1)"
    and "drawn s1 = drawn s \<union> set ids" "events s1 = es @ events s"
    and "trace ops ex view c p (sworld s) =
      (ids @ fst (trace ops ex view c p' (sworld s1)), snd (trace ops ex view c p' (sworld s1)) @ es)"
  shows "finished ops ex view n c p s s'"
  using assms unfolding finished_def by (simp add: run_step [of ops ex p] Un_assoc)

lemma trace_step:
  assumes "step ops ex p w = (p', w')" and "\<nexists>a. p = Return a"
  shows "\<exists>ids. set ids = drawn_by p w \<and> length ids \<le> 1 \<and>
    trace ops ex view c p w =
      (ids @ fst (trace ops ex view c p' w'),
       snd (trace ops ex view c p' w') @ new_events view c p (wstore w) (wstore w'))"
proof (cases p)
  case (NewID pre k)
  then show ?thesis using assms by (intro exI [of _ "[draw_id pre w]"]) (auto split: prod.splits)
qed (use assms in \<open>auto split: prod.splits\<close>)

definition fresh_ids :: "string list \<Rightarrow> string set \<Rightarrow> bool" where
  "fresh_ids ids used \<longleftrightarrow> distinct ids \<and> set ids \<inter> used = {}"

lemma reach_step:
  assumes "reachable svc ex ops view w0 s" and "threads s n = Some (c, p)" and "\<nexists>a. p = Return a"
    and "fresh_ids (fst (trace ops ex view c p (sworld s))) (drawn s)"
    and "step ops ex p (sworld s) = (p', w')"
    and IH: "\<And>s1. reachable svc ex ops view w0 s1 \<Longrightarrow> threads s1 n = Some (c, p') \<Longrightarrow>
      fresh_ids (fst (trace ops ex view c p' (sworld s1))) (drawn s1) \<Longrightarrow>
      \<exists>s'. reachable svc ex ops view w0 s' \<and> finished ops ex view n c p' s1 s'"
  shows "\<exists>s'. reachable svc ex ops view w0 s' \<and> finished ops ex view n c p s s'"
proof -
  from trace_step [OF assms(5,3), of view c] obtain ids where
    tr: "set ids = drawn_by p (sworld s)" "trace ops ex view c p (sworld s) =
      (ids @ fst (trace ops ex view c p' w'),
       snd (trace ops ex view c p' w') @ new_events view c p (sstore s) (wstore w'))" by blast
  with assms(4) have fresh: "drawn_by p (sworld s) \<inter> drawn s = {}" by (auto simp: fresh_ids_def)
  obtain s1 where s1: "reachable svc ex ops view w0 s1" "threads s1 = (threads s)(n \<mapsto> (c, p'))"
    "sworld s1 = w'" "drawn s1 = drawn s \<union> drawn_by p (sworld s)"
    "events s1 = new_events view c p (sstore s) (wstore w') @ events s"
    using reach_call [OF assms(1,2,5) fresh] by blast
  have "fresh_ids (fst (trace ops ex view c p' (sworld s1))) (drawn s1)"
    using assms(4) tr s1(3,4) by (auto simp: fresh_ids_def)
  with IH [OF s1(1)] s1(2) obtain s' where
    s': "reachable svc ex ops view w0 s'" "finished ops ex view n c p' s1 s'" by auto
  have "finished ops ex view n c p s s'"
    by (rule finished_step [OF s'(2) s1(2), where ids = ids and es = "new_events view c p (sstore s) (wstore w')"])
      (use assms(5) s1 tr in auto)
  with s'(1) show ?thesis by blast
qed

lemma reach_run:
  assumes "reachable svc ex ops view w0 s" and "threads s n = Some (c, p)"
    and "fresh_ids (fst (trace ops ex view c p (sworld s))) (drawn s)"
  shows "\<exists>s'. reachable svc ex ops view w0 s' \<and> finished ops ex view n c p s s'"
  using assms
proof (induction p arbitrary: s)
  case (Return a)
  then have "finished ops ex view n c (Return a) s s" by (auto simp: finished_def)
  with Return.prems(1) show ?case by blast
next
  case (Write wc k)
  obtain p' w' where st: "step ops ex (Write wc k) (sworld s) = (p', w')" by fastforce
  then have "p' \<in> range k" by (auto split: prod.splits)
  then show ?case by (intro reach_step [OF Write.prems(1,2) _ Write.prems(3) st] Write.IH) simp_all
next
  case (GetRequest i k)
  obtain p' w' where st: "step ops ex (GetRequest i k) (sworld s) = (p', w')" by fastforce
  then have "p' \<in> range k" by (auto split: prod.splits)
  then show ?case by (intro reach_step [OF GetRequest.prems(1,2) _ GetRequest.prems(3) st] GetRequest.IH) simp_all
next
  case (ListOf lc k)
  obtain p' w' where st: "step ops ex (ListOf lc k) (sworld s) = (p', w')" by fastforce
  then have "p' \<in> range k" by (auto split: prod.splits)
  then show ?case by (intro reach_step [OF ListOf.prems(1,2) _ ListOf.prems(3) st] ListOf.IH) simp_all
next
  case (ListAudit i k)
  obtain p' w' where st: "step ops ex (ListAudit i k) (sworld s) = (p', w')" by fastforce
  then have "p' \<in> range k" by (auto split: prod.splits)
  then show ?case by (intro reach_step [OF ListAudit.prems(1,2) _ ListAudit.prems(3) st] ListAudit.IH) simp_all
next
  case (GetIdempotency sc i k)
  obtain p' w' where st: "step ops ex (GetIdempotency sc i k) (sworld s) = (p', w')" by fastforce
  then have "p' \<in> range k" by (auto split: prod.splits)
  then show ?case
    by (intro reach_step [OF GetIdempotency.prems(1,2) _ GetIdempotency.prems(3) st] GetIdempotency.IH) simp_all
next
  case (Now k)
  show ?case by (rule reach_step [OF Now.prems(1,2) _ Now.prems(3)]) (auto intro: Now.IH)
next
  case (NewID pre k)
  show ?case by (rule reach_step [OF NewID.prems(1,2) _ NewID.prems(3)]) (auto intro: NewID.IH)
next
  case (Execute q k)
  show ?case by (rule reach_step [OF Execute.prems(1,2) _ Execute.prems(3)]) (auto intro: Execute.IH)
qed

subsection \<open>A sequence of calls\<close>

fun run_calls ::
  "service \<Rightarrow> executor \<Rightarrow> 's store_ops \<Rightarrow> ('s \<Rightarrow> string \<Rightarrow> request option) \<Rightarrow> api_call list \<Rightarrow> 's world \<Rightarrow>
   's world \<times> string list \<times> event list" where
  "run_calls svc ex ops view [] w = (w, [], [])"
| "run_calls svc ex ops view (c # cs) w =
     (let p = api_prog svc c;
          (ids, es) = trace ops ex view c p w;
          (w', ids', es') = run_calls svc ex ops view cs (snd (run ops ex p w))
      in (w', ids @ ids', es' @ es))"

lemma reach_calls:
  assumes "reachable svc ex ops view w0 s" and "threads s 0 = None"
    and "run_calls svc ex ops view cs (sworld s) = (w', ids, es)" and "fresh_ids ids (drawn s)"
  shows "\<exists>s'. reachable svc ex ops view w0 s' \<and> sworld s' = w' \<and> events s' = es @ events s"
  using assms
proof (induction cs arbitrary: s ids es)
  case Nil
  then show ?case by auto
next
  case (Cons c cs)
  let ?p = "api_prog svc c"
  obtain ids1 es1 where tr: "trace ops ex view c ?p (sworld s) = (ids1, es1)" by fastforce
  obtain ids2 es2 where rest: "run_calls svc ex ops view cs (snd (run ops ex ?p (sworld s))) = (w', ids2, es2)"
    and ids: "ids = ids1 @ ids2" "es = es2 @ es1"
    using Cons.prems(3) tr by (auto simp: Let_def split: prod.splits)
  let ?s0 = "s\<lparr>threads := (threads s)(0 \<mapsto> (c, ?p))\<rparr>"
  have "reachable svc ex ops view w0 ?s0"
    using reachable.step [OF Cons.prems(1) sys_step.start [OF Cons.prems(2)]] .
  moreover have "fresh_ids (fst (trace ops ex view c ?p (sworld ?s0))) (drawn ?s0)"
    using Cons.prems(4) tr ids by (auto simp: fresh_ids_def)
  ultimately obtain s1 where s1: "reachable svc ex ops view w0 s1" "finished ops ex view 0 c ?p ?s0 s1"
    using reach_run [of svc ex ops view w0 ?s0 0 c ?p] by auto
  let ?s2 = "s1\<lparr>threads := (threads s1)(0 := None)\<rparr>"
  have "reachable svc ex ops view w0 ?s2"
    using reachable.step [OF s1(1) sys_step.stop] .
  moreover have "fresh_ids ids2 (drawn ?s2)"
    using Cons.prems(4) ids s1(2) tr by (auto simp: fresh_ids_def finished_def)
  moreover have "sworld ?s2 = snd (run ops ex ?p (sworld s))" "events ?s2 = es1 @ events s"
    using s1(2) tr by (simp_all add: finished_def)
  ultimately show ?case
    using Cons.IH [of ?s2 ids2 es2] rest ids by auto
qed

end
