(* ===== verification/PostgresStore.thy ===== *)
theory PostgresStore
  imports StoreContract
begin

text \<open>
  The runtime repository of \<open>internal/repository/postgres/store.go\<close> over the schema of
  \<open>db/migrations/000001_init.sql\<close>. Every method issues one SQL statement, which the server
  runs atomically. The statements are translated to functions on tables (lists of rows) with
  the constraints of the schema: primary keys, foreign keys on \<open>requests(id)\<close>, 32-bit
  \<open>INTEGER\<close> columns.

  The server and its driver are not part of the repository. What the model leaves open about
  them are fields of the state, about which nothing is assumed unless a theorem says so: which
  statement fails (\<open>db_fault\<close>; a failing statement may have been executed or not, since the
  connection can break after the commit), the precision of \<open>TIMESTAMPTZ\<close> (\<open>db_ts\<close>), which
  byte strings are valid \<open>TEXT\<close> (\<open>db_text\<close>), and the order of rows that \<open>ORDER BY\<close> leaves
  open (\<open>db_order\<close>, \<open>db_audit_order\<close>, permutations by the invariant).
\<close>

subsection \<open>State\<close>

datatype fault =
    FaultBefore string
  | FaultAfter string

record db =
  tbl_requests :: "request list"
  tbl_reviews :: "review_action list"
  tbl_audit :: "audit_entry list"
  tbl_idempotency :: "idempotency_record list"
  tbl_jobs :: "job_run list"
  db_fault :: "nat \<Rightarrow> fault option"
  db_ts :: "time \<Rightarrow> time"
  db_text :: "string \<Rightarrow> bool"
  db_order :: "nat \<Rightarrow> request list \<Rightarrow> request list"
  db_audit_order :: "nat \<Rightarrow> audit_entry list \<Rightarrow> audit_entry list"
  db_queries :: nat

text \<open>One statement: it may fail, before or after its effect.\<close>

definition statement :: "(db \<Rightarrow> 'a res \<times> db) \<Rightarrow> db \<Rightarrow> 'a res \<times> db" where
  "statement f d =
     (let d' = d\<lparr>db_queries := db_queries d + 1\<rparr>
      in case db_fault d (db_queries d) of
           None \<Rightarrow> f d'
         | Some (FaultBefore m) \<Rightarrow> (Inl (OtherError m), d')
         | Some (FaultAfter m) \<Rightarrow> (Inl (OtherError m), snd (f d')))"

text \<open>\<open>Exec\<close> with its row count ignored, as the plain inserts use it.\<close>

fun exec_error :: "nat res \<times> db \<Rightarrow> go_error option \<times> db" where
  "exec_error (Inl e, d) = (Some e, d)"
| "exec_error (Inr n, d) = (None, d)"

text \<open>\<open>Exec\<close> whose row count decides: no row affected is a conflict.\<close>

fun exec_affected :: "nat res \<times> db \<Rightarrow> go_error option \<times> db" where
  "exec_affected (Inl e, d) = (Some e, d)"
| "exec_affected (Inr n, d) = (if n = 0 then (Some (Sentinel ErrConflict), d) else (None, d))"

subsection \<open>Rows\<close>

definition int4 :: "go_int \<Rightarrow> bool" where
  "int4 w \<longleftrightarrow> - (2 ^ 31) \<le> sint w \<and> sint w < 2 ^ 31"

definition request_params_ok :: "db \<Rightarrow> request \<Rightarrow> bool" where
  "request_params_ok d q \<longleftrightarrow>
     list_all (db_text d)
       [ReqID q, ReqType q, TargetResource q, Justification q, RequesterID q,
        AssignedReviewerID q, Status q, LastExecutionError q] \<and>
     int4 (Version q) \<and> int4 (ReminderCount q) \<and> int4 (ExecutionAttempts q)"

definition encode_request :: "(time \<Rightarrow> time) \<Rightarrow> request \<Rightarrow> request" where
  "encode_request ts q =
     q\<lparr>CreatedAt := ts (CreatedAt q), UpdatedAt := ts (UpdatedAt q),
       SubmittedAt := map_option ts (SubmittedAt q), ApprovedAt := map_option ts (ApprovedAt q),
       ReviewedAt := map_option ts (ReviewedAt q), ExecutedAt := map_option ts (ExecutedAt q),
       LastRemindedAt := map_option ts (LastRemindedAt q),
       NextExecutionAt := map_option ts (NextExecutionAt q)\<rparr>"

definition scanRequest :: "request \<Rightarrow> request" where
  "scanRequest row =
     row\<lparr>AssignedReviewerID := trim_space (AssignedReviewerID row),
         LastExecutionError := trim_space (LastExecutionError row)\<rparr>"

definition request_exists :: "string \<Rightarrow> db \<Rightarrow> bool" where
  "request_exists i d \<longleftrightarrow> list_ex (\<lambda>r. ReqID r = i) (tbl_requests d)"

subsection \<open>Requests\<close>

definition insert_request :: "request \<Rightarrow> db \<Rightarrow> nat res \<times> db" where
  "insert_request q d =
     (if \<not> request_params_ok d q then (Inl (OtherError ''invalid parameter''), d)
      else if request_exists (ReqID q) d then (Inl (OtherError ''duplicate key''), d)
      else (Inr 1, d\<lparr>tbl_requests := tbl_requests d @ [encode_request (db_ts d) q]\<rparr>))"

definition pg_CreateRequest :: "request \<Rightarrow> db \<Rightarrow> go_error option \<times> db" where
  "pg_CreateRequest q d = exec_error (statement (insert_request q) d)"

definition select_request :: "string \<Rightarrow> db \<Rightarrow> request res \<times> db" where
  "select_request i d =
     (if \<not> db_text d i then (Inl (OtherError ''invalid parameter''), d)
      else case find (\<lambda>r. ReqID r = i) (tbl_requests d) of
        None \<Rightarrow> (Inl (Sentinel ErrNotFound), d)
      | Some row \<Rightarrow> (Inr (scanRequest row), d))"

definition pg_GetRequest :: "string \<Rightarrow> db \<Rightarrow> request res \<times> db" where
  "pg_GetRequest i d = statement (select_request i) d"

definition pg_matches :: "request_filter \<Rightarrow> request \<Rightarrow> bool" where
  "pg_matches f r \<longleftrightarrow>
     (flt_RequesterID f = [] \<or> RequesterID r = flt_RequesterID f) \<and>
     (flt_ReviewerID f = [] \<or> AssignedReviewerID r = flt_ReviewerID f) \<and>
     (flt_Status f = [] \<or> Status r = flt_Status f)"

definition heap_order :: "db \<Rightarrow> request list" where
  "heap_order d = db_order d (db_queries d) (tbl_requests d)"

definition select_requests :: "request_filter \<Rightarrow> db \<Rightarrow> request list res \<times> db" where
  "select_requests f d =
     (if \<not> list_all (db_text d) [flt_RequesterID f, flt_ReviewerID f, flt_Status f]
      then (Inl (OtherError ''invalid parameter''), d)
      else (Inr (map scanRequest (sort_key CreatedAt (filter (pg_matches f) (heap_order d)))), d))"

definition pg_ListRequests :: "request_filter \<Rightarrow> db \<Rightarrow> request list res \<times> db" where
  "pg_ListRequests f d = statement (select_requests f) d"

text \<open>The \<open>SET\<close> list names every column but \<open>id\<close> and \<open>created_at\<close>.\<close>

definition set_columns :: "(time \<Rightarrow> time) \<Rightarrow> request \<Rightarrow> request \<Rightarrow> request" where
  "set_columns ts q row = (encode_request ts q)\<lparr>CreatedAt := CreatedAt row\<rparr>"

definition update_request :: "request \<Rightarrow> go_int \<Rightarrow> db \<Rightarrow> nat res \<times> db" where
  "update_request q expectedVersion d =
     (let hit = (\<lambda>r. ReqID r = ReqID q \<and> Version r = expectedVersion)
      in if \<not> request_params_ok d q \<or> \<not> int4 expectedVersion
         then (Inl (OtherError ''invalid parameter''), d)
         else (Inr (length (filter hit (tbl_requests d))),
               d\<lparr>tbl_requests :=
                   map (\<lambda>r. if hit r then set_columns (db_ts d) q r else r) (tbl_requests d)\<rparr>))"

definition pg_UpdateRequest :: "request \<Rightarrow> go_int \<Rightarrow> db \<Rightarrow> go_error option \<times> db" where
  "pg_UpdateRequest q expectedVersion d = exec_affected (statement (update_request q expectedVersion) d)"

definition default_limit :: "go_int \<Rightarrow> nat" where
  "default_limit limit = (if sint limit \<le> 0 then 25 else nat (sint limit))"

definition pg_needs_reminder :: "time \<Rightarrow> request \<Rightarrow> bool" where
  "pg_needs_reminder cutoff r \<longleftrightarrow>
     Status r = StatusPendingReview \<and>
     (case SubmittedAt r of None \<Rightarrow> False | Some t \<Rightarrow> t \<le> cutoff) \<and>
     (case LastRemindedAt r of None \<Rightarrow> True | Some t \<Rightarrow> t \<le> cutoff)"

definition select_reminders :: "time \<Rightarrow> nat \<Rightarrow> db \<Rightarrow> request list res \<times> db" where
  "select_reminders cutoff limit d =
     (Inr (map scanRequest (take limit (sort_key (\<lambda>r. the (SubmittedAt r))
        (filter (pg_needs_reminder (db_ts d cutoff)) (heap_order d))))), d)"

definition pg_ListRequestsNeedingReminder ::
  "time \<Rightarrow> go_int \<Rightarrow> db \<Rightarrow> request list res \<times> db" where
  "pg_ListRequestsNeedingReminder cutoff limit d =
     statement (select_reminders cutoff (default_limit limit)) d"

definition pg_ready :: "time \<Rightarrow> request \<Rightarrow> bool" where
  "pg_ready cutoff r \<longleftrightarrow>
     (Status r = StatusApproved \<or> Status r = StatusExecutionFailed) \<and>
     (case NextExecutionAt r of None \<Rightarrow> False | Some t \<Rightarrow> t \<le> cutoff)"

definition select_ready :: "time \<Rightarrow> nat \<Rightarrow> db \<Rightarrow> request list res \<times> db" where
  "select_ready cutoff limit d =
     (Inr (map scanRequest (take limit (sort_key (\<lambda>r. the (NextExecutionAt r))
        (filter (pg_ready (db_ts d cutoff)) (heap_order d))))), d)"

definition pg_ListRequestsReadyForExecution ::
  "time \<Rightarrow> go_int \<Rightarrow> db \<Rightarrow> request list res \<times> db" where
  "pg_ListRequestsReadyForExecution cutoff limit d =
     statement (select_ready cutoff (default_limit limit)) d"


subsection \<open>The other tables\<close>

definition insert_audit :: "audit_entry \<Rightarrow> db \<Rightarrow> nat res \<times> db" where
  "insert_audit e d =
     (if \<not> list_all (db_text d)
           [aud_ID e, aud_RequestID e, aud_ActorID e, aud_ActorRole e, aud_Action e, aud_Description e]
      then (Inl (OtherError ''invalid parameter''), d)
      else if list_ex (\<lambda>r. aud_ID r = aud_ID e) (tbl_audit d) then (Inl (OtherError ''duplicate key''), d)
      else if \<not> request_exists (aud_RequestID e) d then (Inl (OtherError ''foreign key''), d)
      else (Inr 1, d\<lparr>tbl_audit := tbl_audit d @ [e\<lparr>aud_CreatedAt := db_ts d (aud_CreatedAt e)\<rparr>]\<rparr>))"

definition pg_AppendAudit :: "audit_entry \<Rightarrow> db \<Rightarrow> go_error option \<times> db" where
  "pg_AppendAudit e d = exec_error (statement (insert_audit e) d)"

definition select_audit :: "string \<Rightarrow> db \<Rightarrow> audit_entry list res \<times> db" where
  "select_audit i d =
     (if \<not> db_text d i then (Inl (OtherError ''invalid parameter''), d)
      else (Inr (sort_key aud_CreatedAt
              (db_audit_order d (db_queries d) (filter (\<lambda>r. aud_RequestID r = i) (tbl_audit d)))), d))"

definition pg_ListAudit :: "string \<Rightarrow> db \<Rightarrow> audit_entry list res \<times> db" where
  "pg_ListAudit i d = statement (select_audit i) d"

definition insert_review :: "review_action \<Rightarrow> db \<Rightarrow> nat res \<times> db" where
  "insert_review r d =
     (if \<not> list_all (db_text d) [rev_ID r, rev_RequestID r, rev_Decision r, rev_Comment r, rev_ActorID r]
      then (Inl (OtherError ''invalid parameter''), d)
      else if list_ex (\<lambda>x. rev_ID x = rev_ID r) (tbl_reviews d) then (Inl (OtherError ''duplicate key''), d)
      else if \<not> request_exists (rev_RequestID r) d then (Inl (OtherError ''foreign key''), d)
      else (Inr 1, d\<lparr>tbl_reviews := tbl_reviews d @ [r\<lparr>rev_CreatedAt := db_ts d (rev_CreatedAt r)\<rparr>]\<rparr>))"

definition pg_CreateReview :: "review_action \<Rightarrow> db \<Rightarrow> go_error option \<times> db" where
  "pg_CreateReview r d = exec_error (statement (insert_review r) d)"

definition is_key :: "string \<Rightarrow> string \<Rightarrow> idempotency_record \<Rightarrow> bool" where
  "is_key scope key r \<longleftrightarrow> idem_Scope r = scope \<and> idem_Key r = key"

definition select_idempotency :: "string \<Rightarrow> string \<Rightarrow> db \<Rightarrow> idempotency_record res \<times> db" where
  "select_idempotency scope key d =
     (if \<not> db_text d scope \<or> \<not> db_text d key then (Inl (OtherError ''invalid parameter''), d)
      else case find (is_key scope key) (tbl_idempotency d) of
        None \<Rightarrow> (Inl (Sentinel ErrNotFound), d)
      | Some r \<Rightarrow> (Inr r, d))"

definition pg_GetIdempotency :: "string \<Rightarrow> string \<Rightarrow> db \<Rightarrow> idempotency_record res \<times> db" where
  "pg_GetIdempotency scope key d = statement (select_idempotency scope key) d"

text \<open>\<open>ON CONFLICT DO NOTHING\<close>: an existing key leaves the table alone and affects no row.\<close>

definition insert_idempotency :: "idempotency_record \<Rightarrow> db \<Rightarrow> nat res \<times> db" where
  "insert_idempotency r d =
     (if \<not> list_all (db_text d) [idem_Scope r, idem_Key r, idem_Fingerprint r, idem_RequestID r]
      then (Inl (OtherError ''invalid parameter''), d)
      else if list_ex (is_key (idem_Scope r) (idem_Key r)) (tbl_idempotency d) then (Inr 0, d)
      else (Inr 1, d\<lparr>tbl_idempotency :=
              tbl_idempotency d @ [r\<lparr>idem_CreatedAt := db_ts d (idem_CreatedAt r)\<rparr>]\<rparr>))"

definition pg_CreateIdempotency :: "idempotency_record \<Rightarrow> db \<Rightarrow> go_error option \<times> db" where
  "pg_CreateIdempotency r d = exec_affected (statement (insert_idempotency r) d)"

definition insert_job :: "job_run \<Rightarrow> db \<Rightarrow> nat res \<times> db" where
  "insert_job r d =
     (if \<not> list_all (db_text d) [job_ID r, job_RequestID r, job_JobType r, job_Status r, job_Message r]
         \<or> \<not> int4 (job_Attempt r)
      then (Inl (OtherError ''invalid parameter''), d)
      else if list_ex (\<lambda>x. job_ID x = job_ID r) (tbl_jobs d) then (Inl (OtherError ''duplicate key''), d)
      else if \<not> request_exists (job_RequestID r) d then (Inl (OtherError ''foreign key''), d)
      else (Inr 1, d\<lparr>tbl_jobs := tbl_jobs d @ [r\<lparr>job_ExecutedAt := db_ts d (job_ExecutedAt r)\<rparr>]\<rparr>))"

definition pg_AppendJobRun :: "job_run \<Rightarrow> db \<Rightarrow> go_error option \<times> db" where
  "pg_AppendJobRun r d = exec_error (statement (insert_job r) d)"

fun pg_write :: "write_call \<Rightarrow> db \<Rightarrow> go_error option \<times> db" where
  "pg_write (CreateRequest q) = pg_CreateRequest q"
| "pg_write (UpdateRequest q v) = pg_UpdateRequest q v"
| "pg_write (AppendAudit e) = pg_AppendAudit e"
| "pg_write (CreateReview r) = pg_CreateReview r"
| "pg_write (CreateIdempotency r) = pg_CreateIdempotency r"
| "pg_write (AppendJobRun r) = pg_AppendJobRun r"

fun pg_list :: "list_call \<Rightarrow> db \<Rightarrow> request list res \<times> db" where
  "pg_list (ListRequests f) = pg_ListRequests f"
| "pg_list (ListRequestsNeedingReminder cutoff limit) = pg_ListRequestsNeedingReminder cutoff limit"
| "pg_list (ListRequestsReadyForExecution cutoff limit) = pg_ListRequestsReadyForExecution cutoff limit"

definition pg_ops :: "db store_ops" where
  "pg_ops = \<lparr>op_write = pg_write, op_GetRequest = pg_GetRequest, op_list = pg_list,
             op_ListAudit = pg_ListAudit, op_GetIdempotency = pg_GetIdempotency\<rparr>"

lemma pg_ops_sel [simp]:
  "op_write pg_ops = pg_write" "op_GetRequest pg_ops = pg_GetRequest" "op_list pg_ops = pg_list"
  "op_ListAudit pg_ops = pg_ListAudit" "op_GetIdempotency pg_ops = pg_GetIdempotency"
  by (simp_all add: pg_ops_def)


lemmas pg_inserts = insert_request_def insert_audit_def insert_review_def insert_idempotency_def insert_job_def
lemmas pg_selects = select_request_def select_requests_def select_reminders_def select_ready_def
  select_audit_def select_idempotency_def
lemmas pg_write_defs = pg_CreateRequest_def pg_UpdateRequest_def pg_AppendAudit_def pg_CreateReview_def
  pg_CreateIdempotency_def pg_AppendJobRun_def
lemmas pg_list_defs = pg_ListRequests_def pg_ListRequestsNeedingReminder_def
  pg_ListRequestsReadyForExecution_def

subsection \<open>Abstraction and invariant\<close>

definition pg_view :: "db \<Rightarrow> string \<Rightarrow> request option" where
  "pg_view d i = map_option scanRequest (find (\<lambda>r. ReqID r = i) (tbl_requests d))"

definition pg_idem :: "db \<Rightarrow> string \<Rightarrow> string \<Rightarrow> idempotency_record option" where
  "pg_idem d scope key = find (is_key scope key) (tbl_idempotency d)"

definition pg_audit :: "db \<Rightarrow> string \<Rightarrow> audit_entry list" where
  "pg_audit d i = filter (\<lambda>r. aud_RequestID r = i) (tbl_audit d)"

definition pg_inv :: "db \<Rightarrow> bool" where
  "pg_inv d \<longleftrightarrow>
     distinct (map ReqID (tbl_requests d)) \<and>
     permutes_lists (db_order d) \<and> permutes_lists (db_audit_order d)"

definition tick :: "db \<Rightarrow> db" where
  "tick d = d\<lparr>db_queries := db_queries d + 1\<rparr>"

lemma tick_sel [simp]:
  "tbl_requests (tick d) = tbl_requests d" "tbl_audit (tick d) = tbl_audit d"
  "tbl_idempotency (tick d) = tbl_idempotency d" "db_ts (tick d) = db_ts d" "db_text (tick d) = db_text d"
  "pg_view (tick d) = pg_view d" "pg_idem (tick d) = pg_idem d" "pg_audit (tick d) = pg_audit d"
  "pg_inv (tick d) = pg_inv d" "request_exists i (tick d) = request_exists i d"
  "request_params_ok (tick d) q = request_params_ok d q"
  by (auto simp: tick_def pg_view_def pg_idem_def pg_audit_def pg_inv_def request_exists_def
      request_params_ok_def fun_eq_iff)

text \<open>What a statement can have done: run, or fail without or after its effect.\<close>

lemma statement_outcome:
  assumes "statement f d = (r, d')"
  shows "f (tick d) = (r, d') \<or> (\<exists>m. r = Inl (OtherError m) \<and> (d' = tick d \<or> d' = snd (f (tick d))))"
  using assms by (auto simp: statement_def tick_def Let_def split: option.splits fault.splits)

lemma statement_read:
  assumes "statement f d = (r, d')" and "\<And>e. snd (f e) = e"
  shows "d' = tick d"
  using statement_outcome [OF assms(1)] assms(2) by (metis snd_conv)

lemma statement_value: "statement f d = (Inr x, d') \<Longrightarrow> f (tick d) = (Inr x, d')"
  using statement_outcome by fastforce

lemma statement_error:
  "statement f d = (Inl e, d') \<Longrightarrow> errors_is e s \<Longrightarrow> f (tick d) = (Inl e, d')"
  using statement_outcome by fastforce

lemma select_snd:
  "snd (select_request i d) = d" "snd (select_requests f d) = d" "snd (select_reminders b n d) = d"
  "snd (select_ready b n d) = d" "snd (select_audit i d) = d" "snd (select_idempotency s k d) = d"
  by (auto simp: pg_selects split: option.splits)

lemma pg_read_state:
  "pg_GetRequest i d = (r1, d') \<Longrightarrow> d' = tick d"
  "pg_list c d = (r2, d') \<Longrightarrow> d' = tick d"
  "pg_ListAudit i d = (r3, d') \<Longrightarrow> d' = tick d"
  "pg_GetIdempotency sc k d = (r4, d') \<Longrightarrow> d' = tick d"
  by (cases c; auto simp: pg_GetRequest_def pg_list_defs pg_ListAudit_def pg_GetIdempotency_def
      dest!: statement_read intro: select_snd)+

lemma exec_error_outcome:
  assumes "exec_error (statement f d) = (e, d')"
  shows "(\<exists>n. e = None \<and> f (tick d) = (Inr n, d')) \<or>
    e \<noteq> None \<and> (d' = tick d \<or> d' = snd (f (tick d)))"
proof -
  obtain r d1 where st: "statement f d = (r, d1)" by fastforce
  with assms show ?thesis
    using statement_outcome [OF st] by (cases r) (auto dest: statement_value)
qed

lemma exec_affected_outcome:
  assumes "exec_affected (statement f d) = (e, d')"
  shows "(\<exists>n. n \<noteq> 0 \<and> e = None \<and> f (tick d) = (Inr n, d')) \<or>
    e \<noteq> None \<and> (d' = tick d \<or> d' = snd (f (tick d)))"
proof -
  obtain r d1 where st: "statement f d = (r, d1)" by fastforce
  with assms show ?thesis
    using statement_outcome [OF st] by (cases r) (auto dest: statement_value split: if_splits)
qed

text \<open>So a write leaves the tables as they were, or as its statement makes them.\<close>

fun pg_effect :: "write_call \<Rightarrow> db \<Rightarrow> db" where
  "pg_effect (CreateRequest q) d = snd (insert_request q d)"
| "pg_effect (UpdateRequest q v) d = snd (update_request q v d)"
| "pg_effect (AppendAudit e) d = snd (insert_audit e d)"
| "pg_effect (CreateReview r) d = snd (insert_review r d)"
| "pg_effect (CreateIdempotency r) d = snd (insert_idempotency r d)"
| "pg_effect (AppendJobRun r) d = snd (insert_job r d)"

lemma pg_write_outcome:
  assumes "pg_write c d = (e, d')"
  shows "d' = tick d \<and> e \<noteq> None \<or> d' = pg_effect c (tick d)"
  using assms
  by (cases c) (auto simp: pg_write_defs dest!: exec_error_outcome exec_affected_outcome)


subsection \<open>Effects on the view\<close>

lemma stored_as_row: "stored_as q (scanRequest ((encode_request ts q)\<lparr>CreatedAt := t\<rparr>))"
  by (simp add: stored_as_def same_text_def scanRequest_def encode_request_def)

lemma encode_ids [simp]:
  "ReqID (encode_request ts q) = ReqID q" "ReqID (set_columns ts q r) = ReqID q"
  "ReqID (scanRequest r) = ReqID r" "Version (scanRequest r) = Version r"
  by (simp_all add: encode_request_def set_columns_def scanRequest_def)

lemma request_exists_view: "request_exists i d \<longleftrightarrow> pg_view d i \<noteq> None"
  by (auto simp: request_exists_def pg_view_def list_ex_iff find_None_iff)

lemma find_append: "find P (xs @ ys) = (case find P xs of None \<Rightarrow> find P ys | Some x \<Rightarrow> Some x)"
  by (induction xs) auto

lemma insert_request_effect:
  assumes "insert_request q d = (r, d')"
  shows "d' = d \<and> (\<exists>m. r = Inl m) \<or>
    (\<exists>q'. stored_as q q' \<and> pg_view d' = (pg_view d)(ReqID q \<mapsto> q'))"
proof (cases "request_params_ok d q \<and> \<not> request_exists (ReqID q) d")
  case True
  let ?q' = "scanRequest (encode_request (db_ts d) q)"
  from True have "find (\<lambda>r. ReqID r = ReqID q) (tbl_requests d) = None"
    by (simp add: request_exists_def list_ex_iff find_None_iff)
  moreover from True assms have
    "d' = d\<lparr>tbl_requests := tbl_requests d @ [encode_request (db_ts d) q]\<rparr>"
    by (simp add: insert_request_def)
  ultimately have "pg_view d' i = ((pg_view d)(ReqID q \<mapsto> ?q')) i" for i
    by (cases "i = ReqID q"; cases "find (\<lambda>r. ReqID r = i) (tbl_requests d)")
      (simp_all add: pg_view_def find_append)
  moreover have "stored_as q ?q'"
    using stored_as_row [of q "CreatedAt (encode_request (db_ts d) q)" "db_ts d"] by simp
  ultimately show ?thesis by blast
next
  case False
  with assms show ?thesis by (auto simp: insert_request_def split: if_splits)
qed

text \<open>The rows an update hits: none, or the one with the id if its version is as expected.\<close>

lemma filter_hit:
  assumes "distinct (map ReqID rows)"
  shows "filter (\<lambda>r. ReqID r = i \<and> Version r = v) rows =
    (case find (\<lambda>r. ReqID r = i) rows of
       None \<Rightarrow> [] | Some r \<Rightarrow> if Version r = v then [r] else [])"
  using assms
proof (induction rows)
  case (Cons r rows)
  show ?case
  proof (cases "ReqID r = i")
    case True
    with Cons.prems have "\<forall>x \<in> set rows. ReqID x \<noteq> i" by (auto simp: image_iff)
    then have "filter (\<lambda>r. ReqID r = i \<and> Version r = v) rows = []"
      by (simp add: filter_empty_conv)
    with True show ?thesis by simp
  next
    case False
    with Cons show ?thesis by simp
  qed
qed simp

lemma find_map_hit:
  assumes "\<And>r. ReqID (g r) = ReqID r"
  shows "find (\<lambda>r. ReqID r = i) (map g rows) = map_option g (find (\<lambda>r. ReqID r = i) rows)"
  using assms by (induction rows) auto

lemma update_request_effect:
  assumes "distinct (map ReqID (tbl_requests d))" and "update_request q v d = (r, d')"
  shows "pg_view d' = pg_view d \<and> (r = Inr 0 \<or> (\<exists>m. r = Inl m)) \<or>
    (\<exists>cur q'. pg_view d (ReqID q) = Some cur \<and> Version cur = v \<and> stored_as q q' \<and>
       pg_view d' = (pg_view d)(ReqID q \<mapsto> q'))"
proof (cases "request_params_ok d q \<and> int4 v")
  case False
  with assms show ?thesis by (auto simp: update_request_def Let_def)
next
  case True
  let ?g = "\<lambda>r. if ReqID r = ReqID q \<and> Version r = v then set_columns (db_ts d) q r else r"
  from True assms(2) have d': "d' = d\<lparr>tbl_requests := map ?g (tbl_requests d)\<rparr>"
    "r = Inr (length (filter (\<lambda>r. ReqID r = ReqID q \<and> Version r = v) (tbl_requests d)))"
    by (auto simp: update_request_def Let_def)
  have view: "pg_view d' i = map_option scanRequest (map_option ?g (find (\<lambda>r. ReqID r = i) (tbl_requests d)))" for i
    unfolding d'(1) pg_view_def by (simp add: find_map_hit del: map_map)
  have other: "pg_view d' i = pg_view d i" if "i \<noteq> ReqID q" for i
  proof (cases "find (\<lambda>r. ReqID r = i) (tbl_requests d)")
    case (Some x)
    then have "ReqID x = i" by (auto simp: find_Some_iff)
    with Some that show ?thesis unfolding view by (simp add: pg_view_def)
  next
    case None
    then show ?thesis unfolding view by (simp add: pg_view_def)
  qed
  show ?thesis
  proof (cases "find (\<lambda>r. ReqID r = ReqID q) (tbl_requests d)")
    case (Some row)
    then have id: "ReqID row = ReqID q" by (auto simp: find_Some_iff)
    show ?thesis
    proof (cases "Version row = v")
      case True
      let ?q' = "scanRequest (set_columns (db_ts d) q row)"
      have "pg_view d' i = ((pg_view d)(ReqID q \<mapsto> ?q')) i" for i
        using Some True id other [of i] by (cases "i = ReqID q") (simp_all add: view)
      moreover have "stored_as q ?q'"
        unfolding set_columns_def by (rule stored_as_row)
      moreover have "pg_view d (ReqID q) = Some (scanRequest row)" "Version (scanRequest row) = v"
        using Some True by (simp_all add: pg_view_def)
      ultimately show ?thesis by blast
    next
      case False
      have "pg_view d' (ReqID q) = pg_view d (ReqID q)"
        using Some False unfolding view by (simp add: pg_view_def)
      then have "pg_view d' i = pg_view d i" for i
        using other [of i] by (cases "i = ReqID q") simp_all
      with Some False d'(2) assms(1) show ?thesis by (auto simp: filter_hit)
    qed
  next
    case None
    have "pg_view d' (ReqID q) = pg_view d (ReqID q)"
      using None unfolding view by (simp add: pg_view_def)
    then have "pg_view d' i = pg_view d i" for i
      using other [of i] by (cases "i = ReqID q") simp_all
    with None d'(2) assms(1) show ?thesis by (auto simp: filter_hit)
  qed
qed


subsection \<open>The contract\<close>

lemma heap_order_set: "pg_inv d \<Longrightarrow> set (heap_order d) = set (tbl_requests d)"
  by (simp add: heap_order_def pg_inv_def permutes_set)

lemma find_row: "distinct (map ReqID rows) \<Longrightarrow> r \<in> set rows \<Longrightarrow> find (\<lambda>x. ReqID x = ReqID r) rows = Some r"
  by (induction rows) (auto simp: image_iff)

lemma pg_view_row: "pg_inv d \<Longrightarrow> r \<in> set (tbl_requests d) \<Longrightarrow> pg_view d (ReqID r) = Some (scanRequest r)"
  by (simp add: pg_view_def pg_inv_def find_row)

lemma selects_scan:
  "pg_matches f r \<Longrightarrow> selects (ListRequests f) (scanRequest r)"
  "pg_needs_reminder t r \<Longrightarrow> selects (ListRequestsNeedingReminder t' n) (scanRequest r)"
  "pg_ready t r \<Longrightarrow> selects (ListRequestsReadyForExecution t' n) (scanRequest r)"
  by (auto simp: pg_matches_def pg_needs_reminder_def pg_ready_def scanRequest_def trim_space_idem
      split: option.splits)

lemma set_take_sort_filter: "r \<in> set (take n (sort_key k (filter P xs))) \<Longrightarrow> r \<in> set xs \<and> P r"
  by (auto dest: in_set_takeD)

lemma pg_list_selects:
  assumes invar: "pg_inv d" and call: "pg_list c d = (Inr qs, d')" and q: "q \<in> set qs"
  shows "pg_view d (ReqID q) = Some q \<and> selects c q"
proof -
  have "\<exists>r. q = scanRequest r \<and> r \<in> set (heap_order (tick d)) \<and> selects c (scanRequest r)"
  proof (cases c)
    case (ListRequests f)
    with call have "qs = map scanRequest (sort_key CreatedAt (filter (pg_matches f) (heap_order (tick d))))"
      by (auto simp: pg_list_defs select_requests_def dest!: statement_value split: if_splits)
    with q obtain r where "q = scanRequest r" "r \<in> set (heap_order (tick d))" "pg_matches f r" by auto
    with ListRequests show ?thesis using selects_scan(1) by blast
  next
    case (ListRequestsNeedingReminder cutoff limit)
    with call q obtain r where "q = scanRequest r" "r \<in> set (heap_order (tick d))"
      "pg_needs_reminder (db_ts d cutoff) r"
      by (auto simp: pg_list_defs select_reminders_def dest!: statement_value set_take_sort_filter)
    with ListRequestsNeedingReminder show ?thesis using selects_scan(2) by blast
  next
    case (ListRequestsReadyForExecution cutoff limit)
    with call q obtain r where "q = scanRequest r" "r \<in> set (heap_order (tick d))"
      "pg_ready (db_ts d cutoff) r"
      by (auto simp: pg_list_defs select_ready_def dest!: statement_value set_take_sort_filter)
    with ListRequestsReadyForExecution show ?thesis using selects_scan(3) by blast
  qed
  then obtain r where r: "q = scanRequest r" "r \<in> set (heap_order (tick d))" "selects c q" by blast
  moreover from r(2) invar have "r \<in> set (tbl_requests d)" by (simp add: heap_order_set)
  ultimately show ?thesis using invar by (simp add: pg_view_row)
qed

text \<open>The invariant mentions the request table and the two orders only.\<close>

lemma insert_request_inv: "pg_inv d \<Longrightarrow> pg_inv (snd (insert_request q d))"
  by (auto simp: insert_request_def pg_inv_def request_exists_def list_ex_iff)

lemma update_request_ids:
  "map ReqID (map (\<lambda>r. if ReqID r = ReqID q \<and> Version r = v then set_columns ts q r else r) rows) = map ReqID rows"
  by (induction rows) auto

lemma update_request_inv: "pg_inv d \<Longrightarrow> pg_inv (snd (update_request q v d))"
  by (auto simp: update_request_def Let_def pg_inv_def update_request_ids simp del: map_map)

lemma pg_effect_inv: "pg_inv d \<Longrightarrow> pg_inv (pg_effect c d)"
proof (cases c)
  case (CreateRequest q)
  then show "pg_inv d \<Longrightarrow> ?thesis" by (simp add: insert_request_inv)
next
  case (UpdateRequest q v)
  then show "pg_inv d \<Longrightarrow> ?thesis" by (simp add: update_request_inv)
qed (auto simp: pg_inserts pg_inv_def)

lemma pg_effect_frame: "\<not> touches_requests c \<Longrightarrow> pg_view (pg_effect c d) = pg_view d"
  by (cases c) (auto simp: pg_inserts pg_view_def fun_eq_iff)

lemma pg_effect_idem: "pg_idem d sc k = Some rec \<Longrightarrow> pg_idem (pg_effect c d) sc k = Some rec"
  by (cases c) (auto simp: pg_inserts update_request_def Let_def pg_idem_def find_append)

lemma pg_effect_audit: "\<exists>es. pg_audit (pg_effect c d) i = pg_audit d i @ es"
  by (cases c) (auto simp: pg_inserts update_request_def Let_def pg_audit_def)

lemma insert_idempotency_new:
  assumes "insert_idempotency r d = (Inr n, d')" and "n \<noteq> 0"
  shows "pg_idem d (idem_Scope r) (idem_Key r) = None \<and>
    (\<exists>r'. pg_idem d' (idem_Scope r) (idem_Key r) = Some r' \<and> idem_Fingerprint r' = idem_Fingerprint r)"
proof -
  from assms have none: "find (is_key (idem_Scope r) (idem_Key r)) (tbl_idempotency d) = None"
    and d': "d' = d\<lparr>tbl_idempotency := tbl_idempotency d @ [r\<lparr>idem_CreatedAt := db_ts d (idem_CreatedAt r)\<rparr>]\<rparr>"
    by (auto simp: insert_idempotency_def find_None_iff list_ex_iff split: if_splits)
  then show ?thesis by (simp add: pg_idem_def find_append is_key_def)
qed

lemma pg_create_effect:
  assumes "pg_CreateRequest q d = (e, d')"
  shows "pg_view d' = pg_view d \<and> e \<noteq> None \<or>
    (\<exists>q'. stored_as q q' \<and> pg_view d' = (pg_view d)(ReqID q \<mapsto> q'))"
proof -
  obtain r d1 where f: "insert_request q (tick d) = (r, d1)" by fastforce
  with assms exec_error_outcome [of "insert_request q" d e d'] insert_request_effect [OF f]
  show ?thesis by (auto simp: pg_CreateRequest_def)
qed

lemma pg_update_effect:
  assumes "pg_inv d" and "pg_UpdateRequest q v d = (e, d')"
  shows "pg_view d' = pg_view d \<and> e \<noteq> None \<or>
    (\<exists>cur q'. pg_view d (ReqID q) = Some cur \<and> Version cur = v \<and> stored_as q q' \<and>
       pg_view d' = (pg_view d)(ReqID q \<mapsto> q'))"
proof -
  obtain r d1 where f: "update_request q v (tick d) = (r, d1)" by fastforce
  moreover from assms(1) have "distinct (map ReqID (tbl_requests (tick d)))" by (simp add: pg_inv_def)
  note update_request_effect [OF this f]
  moreover note exec_affected_outcome [of "update_request q v" d e d']
  ultimately show ?thesis using assms(2) by (auto simp: pg_UpdateRequest_def)
qed

interpretation postgres: workflow_store pg_ops pg_view pg_inv pg_idem pg_audit
proof (unfold_locales, goal_cases)
  case (1 s i q)
  then show ?case by (auto simp: pg_view_def find_Some_iff)
next
  case (2 s i r s')
  then show ?case by (auto dest: pg_read_state)
next
  case (3 s i q s')
  then show ?case
    by (auto simp: pg_GetRequest_def select_request_def pg_view_def dest!: statement_value
        split: option.splits if_splits)
next
  case (4 s c r s')
  then show ?case by (auto dest: pg_read_state)
next
  case (5 s c qs s' q)
  then show ?case by (auto dest: pg_list_selects)
next
  case (6 s i r s')
  then show ?case by (auto dest: pg_read_state)
next
  case (7 s sc i r s')
  then show ?case by (auto dest: pg_read_state)
next
  case (8 s w e s')
  then show ?case using pg_write_outcome [of w s e s'] pg_effect_inv [of "tick s" w] by auto
next
  case (9 s w e s')
  then show ?case using pg_write_outcome [of w s e s'] pg_effect_frame [of w "tick s"] by auto
next
  case (10 s q e s')
  then show ?case using pg_create_effect [of q s e s'] by simp
next
  case (11 s q v e s')
  then show ?case using pg_update_effect [of s q v e s'] by simp
next
  case (16 s sc k rec s')
  then show ?case
    by (auto simp: pg_GetIdempotency_def select_idempotency_def pg_idem_def dest!: statement_value
        split: option.splits if_splits)
next
  case (17 s sc k err s')
  then have "select_idempotency sc k (tick s) = (Inl err, s')"
    by (auto simp: pg_GetIdempotency_def intro: statement_error)
  with 17(3) show ?case
    by (auto simp: select_idempotency_def pg_idem_def split: option.splits if_splits)
next
  case (18 s w e s' sc k rec)
  then show ?case using pg_write_outcome [of w s e s'] pg_effect_idem [of "tick s" sc k rec w] by auto
next
  case (19 s rec s')
  then show ?case
    using exec_affected_outcome [of "insert_idempotency rec" s None s']
      insert_idempotency_new [of rec "tick s" _ s']
    by (auto simp: pg_CreateIdempotency_def)
next
  case (20 s w e s' i)
  then show ?case using pg_write_outcome [of w s e s'] pg_effect_audit [of w "tick s" i] by auto
qed (auto dest: pg_read_state)

end
