(* ===== verification/Progress.thy ===== *)
theory Progress
  imports Runs PostgresStore
begin

text \<open>
  How long a call on the service can take, measured in its own calls on the store, the clock,
  the id generator and the executor: a constant for every call of a client and, for a pass of
  the worker, a constant for each request of its batch. The bound holds whatever these calls
  answer and whatever the other goroutines do in between, so no call waits for another one and
  none retries. It needs a store whose listings respect the limit of a pass; the Postgres store
  does.
\<close>

text \<open>The answers of a listing that respect the limit it was asked with.\<close>

fun within_limit :: "list_call \<Rightarrow> request list \<Rightarrow> bool" where
  "within_limit (ListRequests f) qs \<longleftrightarrow> True"
| "within_limit (ListRequestsNeedingReminder cutoff limit) qs \<longleftrightarrow> length qs \<le> default_limit limit"
| "within_limit (ListRequestsReadyForExecution cutoff limit) qs \<longleftrightarrow> length qs \<le> default_limit limit"

text \<open>The program returns after at most \<open>n\<close> calls, whatever they answer.\<close>

primrec returns_in :: "'a prog \<Rightarrow> nat \<Rightarrow> bool" where
  "returns_in (Return a) = (\<lambda>n. True)"
| "returns_in (Write c k) = (\<lambda>n. case n of 0 \<Rightarrow> False | Suc m \<Rightarrow> \<forall>r. returns_in (k r) m)"
| "returns_in (GetRequest i k) = (\<lambda>n. case n of 0 \<Rightarrow> False | Suc m \<Rightarrow> \<forall>r. returns_in (k r) m)"
| "returns_in (ListOf c k) = (\<lambda>n. case n of 0 \<Rightarrow> False
     | Suc m \<Rightarrow> (\<forall>e. returns_in (k (Inl e)) m) \<and> (\<forall>qs. within_limit c qs \<longrightarrow> returns_in (k (Inr qs)) m))"
| "returns_in (ListAudit i k) = (\<lambda>n. case n of 0 \<Rightarrow> False | Suc m \<Rightarrow> \<forall>r. returns_in (k r) m)"
| "returns_in (GetIdempotency s i k) = (\<lambda>n. case n of 0 \<Rightarrow> False | Suc m \<Rightarrow> \<forall>r. returns_in (k r) m)"
| "returns_in (Now k) = (\<lambda>n. case n of 0 \<Rightarrow> False | Suc m \<Rightarrow> \<forall>t. returns_in (k t) m)"
| "returns_in (NewID p k) = (\<lambda>n. case n of 0 \<Rightarrow> False | Suc m \<Rightarrow> \<forall>i. returns_in (k i) m)"
| "returns_in (Execute q k) = (\<lambda>n. case n of 0 \<Rightarrow> False | Suc m \<Rightarrow> \<forall>r. returns_in (k r) m)"

lemma returns_in_mono: "returns_in p n \<Longrightarrow> n \<le> m \<Longrightarrow> returns_in p m"
proof (induction p arbitrary: n m)
  case (Write c k)
  from Write.prems show ?case by (cases n; cases m; simp; blast intro: Write.IH [OF rangeI])
next
  case (GetRequest i k)
  from GetRequest.prems show ?case by (cases n; cases m; simp; blast intro: GetRequest.IH [OF rangeI])
next
  case (ListOf c k)
  from ListOf.prems show ?case by (cases n; cases m; simp; blast intro: ListOf.IH [OF rangeI])
next
  case (ListAudit i k)
  from ListAudit.prems show ?case by (cases n; cases m; simp; blast intro: ListAudit.IH [OF rangeI])
next
  case (GetIdempotency sc i k)
  from GetIdempotency.prems show ?case by (cases n; cases m; simp; blast intro: GetIdempotency.IH [OF rangeI])
next
  case (Now k)
  from Now.prems show ?case by (cases n; cases m; simp; blast intro: Now.IH [OF rangeI])
next
  case (NewID pre k)
  from NewID.prems show ?case by (cases n; cases m; simp; blast intro: NewID.IH [OF rangeI])
next
  case (Execute q k)
  from Execute.prems show ?case by (cases n; cases m; simp; blast intro: Execute.IH [OF rangeI])
qed simp

lemma returns_in_bind:
  "returns_in p n \<Longrightarrow> (\<And>a. returns_in (f a) m) \<Longrightarrow> returns_in (bind p f) (n + m)"
proof (induction p arbitrary: n)
  case (Return a)
  then show ?case by (simp add: returns_in_mono [of _ m])
qed (auto split: nat.splits)

text \<open>The bound of every call on the service.\<close>

fun max_calls :: "api_call \<Rightarrow> nat" where
  "max_calls (CallCreateDraft a inp) = 6"
| "max_calls (CallGetRequest a i) = 1"
| "max_calls (CallListRequests a f) = 1"
| "max_calls (CallSubmit a i key) = 12"
| "max_calls (CallApprove a i key inp) = 11"
| "max_calls (CallReject a i key inp) = 11"
| "max_calls (CallExecutionResult a i inp) = 6"
| "max_calls (CallListAudit a i) = 2"
| "max_calls (CallReminders limit) = 2 + 6 * default_limit limit"
| "max_calls (CallExecutions limit) = 2 + 8 * default_limit limit"

subsection \<open>The methods of the service\<close>

lemma returns_Suc:
  "returns_in (Return a) n"
  "returns_in (Write c kw) (Suc n) \<longleftrightarrow> (\<forall>r. returns_in (kw r) n)"
  "returns_in (GetRequest i kg) (Suc n) \<longleftrightarrow> (\<forall>r. returns_in (kg r) n)"
  "returns_in (ListAudit i ka) (Suc n) \<longleftrightarrow> (\<forall>r. returns_in (ka r) n)"
  "returns_in (GetIdempotency sc i ki) (Suc n) \<longleftrightarrow> (\<forall>r. returns_in (ki r) n)"
  "returns_in (Now kn) (Suc n) \<longleftrightarrow> (\<forall>t. returns_in (kn t) n)"
  "returns_in (NewID pre kd) (Suc n) \<longleftrightarrow> (\<forall>j. returns_in (kd j) n)"
  "returns_in (Execute q ke) (Suc n) \<longleftrightarrow> (\<forall>r. returns_in (ke r) n)"
  "returns_in (auditFor q a act d kf) (Suc (Suc n)) \<longleftrightarrow>
     (\<forall>j t. returns_in (kf \<lparr>aud_ID = j, aud_RequestID = ReqID q, aud_ActorID = act_ID a, aud_ActorRole = act_Role a,
        aud_Action = act, aud_Description = d, aud_CreatedAt = t\<rparr>) n)"
  by (simp_all add: auditFor_def)

lemma returns_ensure: "returns_in (ensureIdempotency scope key i payload) 3"
  by (auto simp: ensureIdempotency_def eval_nat_numeral split: sum.split)

lemma returns_apply: "returns_in (applyExecutionResult svc q a success msg) 5"
  by (auto simp: applyExecutionResult_def eval_nat_numeral returns_Suc Let_def split: option.split)

lemma returns_CreateDraft: "returns_in (CreateDraft a inp) 6"
  by (auto simp: CreateDraft_def eval_nat_numeral returns_Suc Let_def split: option.split)

lemma returns_reads:
  "returns_in (Service_GetRequest a i) 1" "returns_in (Service_ListRequests a f) 1"
  "returns_in (Service_ListAudit a i) 2" "returns_in (requireOwnedOrAdmin a i) 1"
  by (auto simp: Service_GetRequest_def Service_ListRequests_def Service_ListAudit_def requireOwnedOrAdmin_def
      eval_nat_numeral split: sum.split option.split)

lemma returns_SubmitRequest: "returns_in (SubmitRequest svc a i key) 12"
proof -
  have "returns_in (SubmitRequest svc a i key) (1 + (3 + 8))"
    unfolding SubmitRequest_def Let_def
    by (intro returns_in_bind returns_reads, split sum.split, intro conjI allI impI)
      (simp, intro returns_in_bind returns_ensure,
       auto simp: eval_nat_numeral returns_Suc split: option.split sum.split)
  then show ?thesis by simp
qed

lemma returns_replay: "returns_in (replayDecided q i key decision comment) (3 + 0)"
  unfolding replayDecided_def by (intro returns_in_bind returns_ensure) (simp split: option.split)

lemma returns_intros:
  "returns_in (Return a) n"
  "returns_in p n \<Longrightarrow> returns_in q n \<Longrightarrow> returns_in (if b then p else q) n"
  "(\<And>x. returns_in (f x) n) \<Longrightarrow> (\<And>y. returns_in (g y) n) \<Longrightarrow> returns_in (case r of Inl x \<Rightarrow> f x | Inr y \<Rightarrow> g y) n"
  "returns_in p n \<Longrightarrow> (\<And>y. returns_in (h y) n) \<Longrightarrow> returns_in (case v of None \<Rightarrow> p | Some y \<Rightarrow> h y) n"
  by (simp_all split: sum.split option.split)

lemma returns_reviewRequest: "returns_in (reviewRequest a i key decision comment) 11"
proof -
  have key: "returns_in (bind (ensureIdempotency scope key i payload) f) 10"
    if "\<And>e. returns_in (f e) 7" for scope payload and f :: "_ \<Rightarrow> request res prog"
    using returns_in_bind [OF returns_ensure that] by simp
  have replay: "returns_in (replayDecided q i key decision comment) 10" for q
    using returns_replay by (rule returns_in_mono) simp
  have seven: "7 = Suc (Suc (Suc (Suc (Suc (Suc (Suc 0))))))" by simp
  have "returns_in (reviewRequest a i key decision comment) (Suc 10)"
    unfolding reviewRequest_def returns_Suc Let_def
    by (intro allI returns_intros replay key; unfold seven returns_Suc; intro allI returns_intros;
        unfold returns_Suc; intro allI returns_intros; unfold returns_Suc; intro allI returns_intros;
        unfold returns_Suc; intro allI returns_intros)
  then show ?thesis by simp
qed

lemma returns_RecordExecutionResult: "returns_in (RecordExecutionResult svc a i inp) 6"
proof -
  have "returns_in (RecordExecutionResult svc a i inp) (Suc 5)"
    unfolding RecordExecutionResult_def by (intro returns_intros; unfold returns_Suc; intro allI returns_intros returns_apply)
  then show ?thesis by simp
qed

lemma returns_remindLoop: "returns_in (remindLoop now qs) (6 * length qs)"
proof (induction qs)
  case (Cons q qs)
  then have "returns_in (remindLoop now qs) (5 + 6 * length qs)" by (rule returns_in_mono) simp
  with Cons show ?case
    by (auto simp: eval_nat_numeral returns_Suc Let_def split: option.split)
qed simp

lemma returns_executeLoop: "returns_in (executeLoop svc now qs) (8 * length qs)"
proof (induction qs)
  case (Cons q qs)
  have "returns_in (bind (applyExecutionResult svc q a s m) (\<lambda>_. Write (AppendJobRun j) (\<lambda>_. executeLoop svc now qs)))
      (5 + Suc (8 * length qs))" for a s m j
    by (rule returns_in_bind [OF returns_apply]) (simp add: Cons)
  then show ?case by (simp add: eval_nat_numeral Let_def split: option.split)
qed simp

lemma returns_passes:
  "returns_in (ProcessDueReminders svc limit) (Suc (Suc (6 * default_limit limit)))"
  "returns_in (ProcessDueExecutions svc limit) (Suc (Suc (8 * default_limit limit)))"
proof -
  have "returns_in (remindLoop now qs) (6 * default_limit limit)" if "length qs \<le> default_limit limit" for now qs
    by (rule returns_in_mono [OF returns_remindLoop]) (use that in simp)
  then show "returns_in (ProcessDueReminders svc limit) (Suc (Suc (6 * default_limit limit)))"
    by (simp add: ProcessDueReminders_def)
  have "returns_in (executeLoop svc now qs) (8 * default_limit limit)" if "length qs \<le> default_limit limit" for now qs
    by (rule returns_in_mono [OF returns_executeLoop]) (use that in simp)
  then show "returns_in (ProcessDueExecutions svc limit) (Suc (Suc (8 * default_limit limit)))"
    by (simp add: ProcessDueExecutions_def)
qed

lemma returns_out: "returns_in p n \<Longrightarrow> returns_in (bind p (\<lambda>r. Return (g r))) n"
  using returns_in_bind [of p n "\<lambda>r. Return (g r)" 0] by simp

lemma api_returns: "returns_in (api_prog svc c) (max_calls c)"
  by (cases c) (auto intro!: returns_out returns_CreateDraft returns_reads returns_SubmitRequest returns_reviewRequest
      returns_RecordExecutionResult returns_passes simp: ApproveRequest_def RejectRequest_def simp del: One_nat_def)

subsection \<open>A goroutine among others\<close>

text \<open>
  \<open>own_steps svc ex ops view g k s s'\<close>: the system can go from \<open>s\<close> to \<open>s'\<close>, while goroutine
  \<open>g\<close> makes \<open>k\<close> calls and the others do what they like.
\<close>

inductive own_steps ::
  "service \<Rightarrow> executor \<Rightarrow> 's store_ops \<Rightarrow> ('s \<Rightarrow> string \<Rightarrow> request option) \<Rightarrow> nat \<Rightarrow> nat \<Rightarrow> 's sys \<Rightarrow> 's sys \<Rightarrow> bool"
  for svc ex ops view g where
  start: "own_steps svc ex ops view g 0 s s"
| own: "own_steps svc ex ops view g k s s1 \<Longrightarrow> threads s1 g = Some (c, p) \<Longrightarrow> \<nexists>out. p = Return out \<Longrightarrow>
    step ops ex p (sworld s1) = (p', sworld s2) \<Longrightarrow> sys_step svc ex ops view s1 s2 \<Longrightarrow>
    threads s2 = (threads s1)(g \<mapsto> (c, p')) \<Longrightarrow> own_steps svc ex ops view g (Suc k) s s2"
| other: "own_steps svc ex ops view g k s s1 \<Longrightarrow> sys_step svc ex ops view s1 s2 \<Longrightarrow>
    threads s2 g = threads s1 g \<Longrightarrow> own_steps svc ex ops view g k s s2"

text \<open>A store whose due listings respect their limit.\<close>

locale limited_store =
  fixes ops :: "'s store_ops"
  assumes list_limit: "op_list ops c s = (Inr qs, s') \<Longrightarrow> within_limit c qs"
begin

lemma step_returns:
  assumes "returns_in p m" and "\<nexists>out. p = Return out" and "step ops ex p w = (p', w')"
  shows "\<exists>l. m = Suc l \<and> returns_in p' l"
  using assms by (cases p; cases m) (auto split: prod.splits sum.splits dest: list_limit, metis list_limit sum.exhaust)

text \<open>After \<open>k\<close> calls the rest of the program takes at most the rest of the bound.\<close>

lemma own_steps_left:
  assumes "own_steps svc ex ops view g k s s'" and "threads s g = Some (c, p)" and "returns_in p n"
  shows "\<exists>p' m. threads s' g = Some (c, p') \<and> returns_in p' m \<and> k + m \<le> n"
  using assms
proof (induction rule: own_steps.induct)
  case (own k s s1 c' q q' s2)
  then obtain p' m where "threads s1 g = Some (c, p')" "returns_in p' m" "k + m \<le> n" by blast
  with own.hyps step_returns [of q m ex "sworld s1" q' "sworld s2"] show ?case by fastforce
qed auto

lemma own_steps_bound:
  assumes "own_steps svc ex ops view g k s s'" and "threads s g = Some (c, api_prog svc c)"
  shows "k \<le> max_calls c \<and> (\<exists>p. threads s' g = Some (c, p) \<and> (k = max_calls c \<longrightarrow> (\<exists>out. p = Return out)))"
proof -
  obtain p m where p: "threads s' g = Some (c, p)" "returns_in p m" "k + m \<le> max_calls c"
    using own_steps_left [OF assms api_returns] by blast
  have "\<exists>out. p = Return out" if "m = 0"
    using p(2) that by (cases p) auto
  with p show ?thesis by auto
qed

end

text \<open>A goroutine that has not returned can make its next call, if the id it draws is new.\<close>

lemma own_next:
  assumes "own_steps svc ex ops view g k s s1" and "threads s1 g = Some (c, p)" and "\<nexists>out. p = Return out"
    and "drawn_by p (sworld s1) \<inter> drawn s1 = {}" and "step ops ex p (sworld s1) = (p', w')"
  shows "\<exists>s2. own_steps svc ex ops view g (Suc k) s s2 \<and> threads s2 g = Some (c, p') \<and> sworld s2 = w' \<and>
    drawn s2 = drawn s1 \<union> drawn_by p (sworld s1)"
proof -
  let ?s2 = "s1\<lparr>sworld := w', threads := (threads s1)(g \<mapsto> (c, p')),
         history := history s1 \<union> ran (view (wstore w')),
         events := new_events view c p (sstore s1) (wstore w') @ events s1,
         drawn := drawn s1 \<union> drawn_by p (sworld s1)\<rparr>"
  have "sys_step svc ex ops view s1 ?s2" using assms(2,5,4) by (rule sys_step.call)
  then have "own_steps svc ex ops view g (Suc k) s ?s2"
    using assms by (intro own_steps.own [OF assms(1,2,3)]) auto
  then show ?thesis by (intro exI conjI) auto
qed

context limited_store
begin

lemma own_run:
  assumes "returns_in p m" and "own_steps svc ex ops view g k s s1" and "threads s1 g = Some (c, p)"
    and "fresh_ids (fst (trace ops ex view c p (sworld s1))) (drawn s1)"
  shows "\<exists>k' s2. own_steps svc ex ops view g k' s s2 \<and> threads s2 g = Some (c, Return (fst (run ops ex p (sworld s1))))"
  using assms
proof (induction m arbitrary: p k s1)
  case 0
  then obtain out where "p = Return out" by (cases p) auto
  with 0 show ?case by (intro exI [of _ k] exI [of _ s1]) simp
next
  case (Suc m)
  show ?case
  proof (cases "\<exists>out. p = Return out")
    case True
    then obtain out where "p = Return out" by blast
    with Suc.prems(2,3) show ?thesis by (intro exI [of _ k] exI [of _ s1]) simp
  next
    case False
    obtain p' w' where st: "step ops ex p (sworld s1) = (p', w')" by fastforce
    from step_returns [OF Suc.prems(1) False st] have r: "returns_in p' m" by auto
    from trace_step [OF st False, of view c] obtain ids where
      tr: "set ids = drawn_by p (sworld s1)"
      "fst (trace ops ex view c p (sworld s1)) = ids @ fst (trace ops ex view c p' w')" by auto
    with Suc.prems(4) have "drawn_by p (sworld s1) \<inter> drawn s1 = {}" by (auto simp: fresh_ids_def)
    from own_next [OF Suc.prems(2,3) False this st] obtain s2 where
      s2: "own_steps svc ex ops view g (Suc k) s s2" "threads s2 g = Some (c, p')" "sworld s2 = w'"
        "drawn s2 = drawn s1 \<union> drawn_by p (sworld s1)" by blast
    have "fresh_ids (fst (trace ops ex view c p' (sworld s2))) (drawn s2)"
      using Suc.prems(4) tr s2(3,4) by (auto simp: fresh_ids_def)
    from Suc.IH [OF r s2(1,2) this] show ?thesis
      using s2(3) st by (simp add: run_step [of ops ex p])
  qed
qed

end

interpretation pg_limited: limited_store pg_ops
proof
  fix c d qs d'
  assume "op_list pg_ops c d = (Inr qs, d')"
  then show "within_limit c qs"
    by (cases c) (auto simp: pg_list_defs select_reminders_def select_ready_def dest!: statement_value)
qed

end
