(* ===== verification/MemoryStore.thy ===== *)
theory MemoryStore
  imports StoreContract "HOL-Library.AList"
begin

text \<open>
  The in-memory repository of \<open>internal/repository/memory/store.go\<close>. Each method holds the
  store's mutex for its whole body, so each is one atomic function of the state.

  Go iterates over a map in an unspecified order that may differ from one loop to the next, and
  \<open>sort.Slice\<close> may leave elements that compare equal in any order. Both choices are functions
  in the state, indexed by the number of the loop, that permute their argument: a theorem that
  holds for all of them holds for every order the runtime may pick. The map of requests is an
  association list (it is iterated over); the others are only looked up, a missing key of a map
  of slices being the nil slice.
\<close>

subsection \<open>State\<close>

record mem =
  mem_requests :: "(string \<times> request) list"
  mem_audit :: "string \<Rightarrow> audit_entry list"
  mem_reviews :: "string \<Rightarrow> review_action list"
  mem_idempotency :: "string \<Rightarrow> idempotency_record option"
  mem_jobRuns :: "string \<Rightarrow> job_run list"
  mem_order :: "nat \<Rightarrow> (string \<times> request) list \<Rightarrow> (string \<times> request) list"
  mem_ties :: "nat \<Rightarrow> audit_entry list \<Rightarrow> audit_entry list"
  mem_loops :: nat

definition NewStore ::
  "(nat \<Rightarrow> (string \<times> request) list \<Rightarrow> (string \<times> request) list) \<Rightarrow>
   (nat \<Rightarrow> audit_entry list \<Rightarrow> audit_entry list) \<Rightarrow> mem" where
  "NewStore order ties =
     \<lparr>mem_requests = [], mem_audit = (\<lambda>_. []), mem_reviews = (\<lambda>_. []),
      mem_idempotency = (\<lambda>_. None), mem_jobRuns = (\<lambda>_. []),
      mem_order = order, mem_ties = ties, mem_loops = 0\<rparr>"

text \<open>The values of one \<open>for range\<close> loop over the map of requests, in the loop's order.\<close>

definition range_requests :: "mem \<Rightarrow> request list" where
  "range_requests s = map snd (mem_order s (mem_loops s) (mem_requests s))"

definition after_loop :: "mem \<Rightarrow> mem" where
  "after_loop s = s\<lparr>mem_loops := mem_loops s + 1\<rparr>"

subsection \<open>Methods\<close>

definition mem_CreateRequest :: "request \<Rightarrow> mem \<Rightarrow> go_error option \<times> mem" where
  "mem_CreateRequest q s = (None, s\<lparr>mem_requests := AList.update (ReqID q) q (mem_requests s)\<rparr>)"

definition mem_GetRequest :: "string \<Rightarrow> mem \<Rightarrow> request res \<times> mem" where
  "mem_GetRequest i s =
     (case map_of (mem_requests s) i of
        None \<Rightarrow> (Inl (Sentinel ErrNotFound), s)
      | Some q \<Rightarrow> (Inr q, s))"

definition mem_matches :: "request_filter \<Rightarrow> request \<Rightarrow> bool" where
  "mem_matches f q \<longleftrightarrow>
     \<not> (flt_RequesterID f \<noteq> [] \<and> RequesterID q \<noteq> flt_RequesterID f) \<and>
     \<not> (flt_ReviewerID f \<noteq> [] \<and> AssignedReviewerID q \<noteq> flt_ReviewerID f) \<and>
     \<not> (flt_Status f \<noteq> [] \<and> Status q \<noteq> flt_Status f)"

definition mem_ListRequests :: "request_filter \<Rightarrow> mem \<Rightarrow> request list res \<times> mem" where
  "mem_ListRequests f s =
     (Inr (sort_key CreatedAt (filter (mem_matches f) (range_requests s))), after_loop s)"

definition mem_UpdateRequest :: "request \<Rightarrow> go_int \<Rightarrow> mem \<Rightarrow> go_error option \<times> mem" where
  "mem_UpdateRequest q expectedVersion s =
     (case map_of (mem_requests s) (ReqID q) of
        None \<Rightarrow> (Some (Sentinel ErrNotFound), s)
      | Some current \<Rightarrow>
          if Version current \<noteq> expectedVersion then (Some (Sentinel ErrConflict), s)
          else (None, s\<lparr>mem_requests := AList.update (ReqID q) q (mem_requests s)\<rparr>))"

definition mem_AppendAudit :: "audit_entry \<Rightarrow> mem \<Rightarrow> go_error option \<times> mem" where
  "mem_AppendAudit e s =
     (None, s\<lparr>mem_audit := (mem_audit s)(aud_RequestID e := mem_audit s (aud_RequestID e) @ [e])\<rparr>)"

definition mem_ListAudit :: "string \<Rightarrow> mem \<Rightarrow> audit_entry list res \<times> mem" where
  "mem_ListAudit i s =
     (Inr (sort_key aud_CreatedAt (mem_ties s (mem_loops s) (mem_audit s i))), after_loop s)"

definition mem_CreateReview :: "review_action \<Rightarrow> mem \<Rightarrow> go_error option \<times> mem" where
  "mem_CreateReview r s =
     (None, s\<lparr>mem_reviews := (mem_reviews s)(rev_RequestID r := mem_reviews s (rev_RequestID r) @ [r])\<rparr>)"

definition mem_compound :: "string \<Rightarrow> string \<Rightarrow> string" where
  "mem_compound scope key = scope @ ''|'' @ key"

definition mem_GetIdempotency :: "string \<Rightarrow> string \<Rightarrow> mem \<Rightarrow> idempotency_record res \<times> mem" where
  "mem_GetIdempotency scope key s =
     (case mem_idempotency s (mem_compound scope key) of
        None \<Rightarrow> (Inl (Sentinel ErrNotFound), s)
      | Some r \<Rightarrow> (Inr r, s))"

definition mem_CreateIdempotency :: "idempotency_record \<Rightarrow> mem \<Rightarrow> go_error option \<times> mem" where
  "mem_CreateIdempotency r s =
     (let compound = mem_compound (idem_Scope r) (idem_Key r)
      in if mem_idempotency s compound \<noteq> None then (Some (Sentinel ErrConflict), s)
         else (None, s\<lparr>mem_idempotency := (mem_idempotency s)(compound \<mapsto> r)\<rparr>))"

definition mem_needs_reminder :: "time \<Rightarrow> request \<Rightarrow> bool" where
  "mem_needs_reminder cutoff q \<longleftrightarrow>
     Status q = StatusPendingReview \<and>
     (case SubmittedAt q of None \<Rightarrow> False | Some t \<Rightarrow> \<not> time_after t cutoff) \<and>
     (case LastRemindedAt q of None \<Rightarrow> True | Some t \<Rightarrow> time_before t cutoff)"

definition mem_ListRequestsNeedingReminder ::
  "time \<Rightarrow> go_int \<Rightarrow> mem \<Rightarrow> request list res \<times> mem" where
  "mem_ListRequestsNeedingReminder cutoff limit s =
     (Inr (collect_upto (mem_needs_reminder cutoff) (sint limit) [] (range_requests s)), after_loop s)"

definition mem_ready :: "time \<Rightarrow> request \<Rightarrow> bool" where
  "mem_ready cutoff q \<longleftrightarrow>
     (Status q = StatusApproved \<or> Status q = StatusExecutionFailed) \<and>
     (case NextExecutionAt q of None \<Rightarrow> False | Some t \<Rightarrow> \<not> time_after t cutoff)"

definition mem_ListRequestsReadyForExecution ::
  "time \<Rightarrow> go_int \<Rightarrow> mem \<Rightarrow> request list res \<times> mem" where
  "mem_ListRequestsReadyForExecution cutoff limit s =
     (Inr (collect_upto (mem_ready cutoff) (sint limit) [] (range_requests s)), after_loop s)"

definition mem_AppendJobRun :: "job_run \<Rightarrow> mem \<Rightarrow> go_error option \<times> mem" where
  "mem_AppendJobRun r s =
     (None, s\<lparr>mem_jobRuns := (mem_jobRuns s)(job_RequestID r := mem_jobRuns s (job_RequestID r) @ [r])\<rparr>)"

fun mem_write :: "write_call \<Rightarrow> mem \<Rightarrow> go_error option \<times> mem" where
  "mem_write (CreateRequest q) = mem_CreateRequest q"
| "mem_write (UpdateRequest q v) = mem_UpdateRequest q v"
| "mem_write (AppendAudit e) = mem_AppendAudit e"
| "mem_write (CreateReview r) = mem_CreateReview r"
| "mem_write (CreateIdempotency r) = mem_CreateIdempotency r"
| "mem_write (AppendJobRun r) = mem_AppendJobRun r"

fun mem_list :: "list_call \<Rightarrow> mem \<Rightarrow> request list res \<times> mem" where
  "mem_list (ListRequests f) = mem_ListRequests f"
| "mem_list (ListRequestsNeedingReminder cutoff limit) = mem_ListRequestsNeedingReminder cutoff limit"
| "mem_list (ListRequestsReadyForExecution cutoff limit) = mem_ListRequestsReadyForExecution cutoff limit"

definition mem_ops :: "mem store_ops" where
  "mem_ops = \<lparr>op_write = mem_write, op_GetRequest = mem_GetRequest, op_list = mem_list,
              op_ListAudit = mem_ListAudit, op_GetIdempotency = mem_GetIdempotency\<rparr>"

lemma mem_ops_sel [simp]:
  "op_write mem_ops = mem_write" "op_GetRequest mem_ops = mem_GetRequest" "op_list mem_ops = mem_list"
  "op_ListAudit mem_ops = mem_ListAudit" "op_GetIdempotency mem_ops = mem_GetIdempotency"
  by (simp_all add: mem_ops_def)

lemmas mem_write_defs = mem_CreateRequest_def mem_UpdateRequest_def mem_AppendAudit_def
  mem_CreateReview_def mem_CreateIdempotency_def mem_AppendJobRun_def
lemmas mem_read_defs = mem_GetRequest_def mem_ListAudit_def mem_GetIdempotency_def after_loop_def
lemmas mem_list_defs = mem_ListRequests_def mem_ListRequestsNeedingReminder_def
  mem_ListRequestsReadyForExecution_def after_loop_def

subsection \<open>Abstraction, invariant, contract\<close>

definition mem_view :: "mem \<Rightarrow> string \<Rightarrow> request option" where
  "mem_view s = map_of (mem_requests s)"

definition mem_idem :: "mem \<Rightarrow> string \<Rightarrow> string \<Rightarrow> idempotency_record option" where
  "mem_idem s scope key = mem_idempotency s (mem_compound scope key)"

definition mem_inv :: "mem \<Rightarrow> bool" where
  "mem_inv s \<longleftrightarrow>
     distinct (map fst (mem_requests s)) \<and>
     (\<forall>(i, q) \<in> set (mem_requests s). ReqID q = i) \<and>
     permutes_lists (mem_order s) \<and> permutes_lists (mem_ties s)"

lemma mem_inv_NewStore:
  "permutes_lists order \<Longrightarrow> permutes_lists ties \<Longrightarrow> mem_inv (NewStore order ties)"
  by (simp add: mem_inv_def NewStore_def)

lemma range_requests_view:
  assumes "mem_inv s" and "q \<in> set (range_requests s)"
  shows "mem_view s (ReqID q) = Some q"
proof -
  from assms obtain i where "(i, q) \<in> set (mem_requests s)"
    by (auto simp: range_requests_def mem_inv_def permutes_set)
  moreover from this assms(1) have "ReqID q = i"
    by (auto simp: mem_inv_def)
  ultimately show ?thesis
    using assms(1) by (auto simp: mem_inv_def mem_view_def)
qed

lemma view_range_requests:
  assumes "mem_inv s" and "mem_view s i = Some q"
  shows "q \<in> set (range_requests s)"
proof -
  from assms(2) have "(i, q) \<in> set (mem_requests s)"
    by (auto simp: mem_view_def dest: map_of_SomeD)
  with assms(1) show ?thesis
    by (force simp: range_requests_def mem_inv_def permutes_set)
qed

lemma set_update_sub: "(i, r) \<in> set (AList.update j q xs) \<Longrightarrow> (i = j \<and> r = q) \<or> (i, r) \<in> set xs"
  by (induction xs) (auto split: if_splits)

lemma mem_inv_update:
  "mem_inv s \<Longrightarrow> mem_inv (s\<lparr>mem_requests := AList.update (ReqID q) q (mem_requests s)\<rparr>)"
  by (auto simp: mem_inv_def distinct_update dest!: set_update_sub)

lemma mem_view_update:
  "mem_view (s\<lparr>mem_requests := AList.update i q (mem_requests s)\<rparr>) = (mem_view s)(i \<mapsto> q)"
  by (simp add: mem_view_def update_conv')

lemma mem_inv_frame [simp]:
  "mem_inv (s\<lparr>mem_audit := a\<rparr>) = mem_inv s" "mem_inv (s\<lparr>mem_reviews := r\<rparr>) = mem_inv s"
  "mem_inv (s\<lparr>mem_idempotency := d\<rparr>) = mem_inv s" "mem_inv (s\<lparr>mem_jobRuns := j\<rparr>) = mem_inv s"
  by (simp_all add: mem_inv_def)

lemma mem_write_inv: "mem_inv s \<Longrightarrow> mem_write c s = (e, s') \<Longrightarrow> mem_inv s'"
  by (cases c) (auto simp: mem_write_defs Let_def mem_inv_update mem_inv_frame split: option.splits if_splits)

lemma mem_list_selects:
  assumes inv: "mem_inv s" and call: "mem_list c s = (Inr qs, s')" and q: "q \<in> set qs"
  shows "mem_view s (ReqID q) = Some q \<and> selects c q"
proof (cases c)
  case (ListRequests f)
  with call q have "q \<in> set (range_requests s)" and "mem_matches f q"
    by (auto simp: mem_list_defs)
  with ListRequests inv show ?thesis
    by (auto simp: range_requests_view mem_matches_def)
next
  case (ListRequestsNeedingReminder cutoff limit)
  with call q set_collect_upto have "q \<in> set (range_requests s)" and "mem_needs_reminder cutoff q"
    by (fastforce simp: mem_list_defs)+
  with ListRequestsNeedingReminder inv show ?thesis
    by (auto simp: range_requests_view mem_needs_reminder_def split: option.splits)
next
  case (ListRequestsReadyForExecution cutoff limit)
  with call q set_collect_upto have "q \<in> set (range_requests s)" and "mem_ready cutoff q"
    by (fastforce simp: mem_list_defs)+
  with ListRequestsReadyForExecution inv show ?thesis
    by (auto simp: range_requests_view mem_ready_def split: option.splits)
qed

lemma mem_list_state:
  "mem_list c s = (r, s') \<Longrightarrow> s' = after_loop s"
  by (cases c) (auto simp: mem_list_defs)

lemma mem_after_loop [simp]:
  "mem_inv (after_loop s) = mem_inv s" "mem_view (after_loop s) = mem_view s"
  "mem_idem (after_loop s) = mem_idem s" "mem_audit (after_loop s) = mem_audit s"
  by (auto simp: after_loop_def mem_inv_def mem_view_def mem_idem_def fun_eq_iff)

lemma mem_GetRequest_state: "mem_GetRequest i s = (r, s') \<Longrightarrow> s' = s"
  by (auto simp: mem_GetRequest_def split: option.splits)

lemma mem_GetIdempotency_state: "mem_GetIdempotency sc k s = (r, s') \<Longrightarrow> s' = s"
  by (auto simp: mem_GetIdempotency_def split: option.splits)

lemma mem_ListAudit_state: "mem_ListAudit i s = (r, s') \<Longrightarrow> s' = after_loop s"
  by (auto simp: mem_ListAudit_def)

interpretation memory: workflow_store mem_ops mem_view mem_inv mem_idem mem_audit
proof (unfold_locales, goal_cases)
  case (1 s i q)
  then show ?case by (auto simp: mem_inv_def mem_view_def dest!: map_of_SomeD)
next
  case (2 s i r s')
  then show ?case by (auto dest: mem_GetRequest_state)
next
  case (3 s i q s')
  then show ?case by (auto simp: mem_GetRequest_def mem_view_def split: option.splits)
next
  case (4 s c r s')
  then show ?case by (auto dest: mem_list_state)
next
  case (5 s c qs s' q)
  then show ?case by (auto dest: mem_list_selects)
next
  case (6 s i r s')
  then show ?case by (auto dest: mem_ListAudit_state)
next
  case (7 s sc i r s')
  then show ?case by (auto dest: mem_GetIdempotency_state)
next
  case (8 s w e s')
  then show ?case by (auto dest: mem_write_inv)
next
  case (9 s w e s')
  then show ?case
    by (cases w) (auto simp: mem_write_defs mem_view_def Let_def split: if_splits)
next
  case (10 s q e s')
  then have "mem_view s' = (mem_view s)(ReqID q \<mapsto> q)"
    by (auto simp: mem_CreateRequest_def mem_view_update)
  then show ?case by (metis stored_as_refl)
next
  case (11 s q v e s')
  then show ?case
  proof (cases "mem_view s (ReqID q)")
    case (Some cur)
    with 11 show ?thesis
      by (auto simp: mem_UpdateRequest_def mem_view_update mem_view_def [symmetric]
          intro: stored_as_refl split: if_splits)
  qed (auto simp: mem_UpdateRequest_def mem_view_def)
next
  case (16 s sc k rec s')
  then show ?case by (auto simp: mem_GetIdempotency_def mem_idem_def split: option.splits)
next
  case (17 s sc k err s')
  then show ?case by (auto simp: mem_GetIdempotency_def mem_idem_def split: option.splits)
next
  case (18 s w e s' sc k rec)
  then show ?case
    by (cases w) (auto simp: mem_write_defs mem_idem_def Let_def split: option.splits if_splits)
next
  case (19 s rec s')
  then show ?case
    by (auto simp: mem_CreateIdempotency_def mem_idem_def Let_def split: if_splits)
next
  case (20 s w e s' i)
  then show ?case
    by (cases w) (auto simp: mem_write_defs Let_def split: option.splits if_splits)
qed (auto dest: mem_GetRequest_state mem_list_state mem_ListAudit_state mem_GetIdempotency_state)

end
