(* ===== verification/Sample.thy ===== *)
theory Sample
  imports Runs PostgresStore MemoryStore
begin

text \<open>
  One run of the system over Postgres, used to show that the hypotheses of the system's
  properties can hold together: an employee drafts and submits a request, the default reviewer
  approves it and a pass of the worker executes it. Nothing fails, timestamps are kept exactly
  and rows come back in insertion order. The same run over the in-memory store serves its
  properties.
\<close>

definition sample_db ::
  "request list \<Rightarrow> review_action list \<Rightarrow> audit_entry list \<Rightarrow> idempotency_record list \<Rightarrow> job_run list \<Rightarrow> nat \<Rightarrow> db" where
  "sample_db qs rs es ks js n =
     \<lparr>tbl_requests = qs, tbl_reviews = rs, tbl_audit = es, tbl_idempotency = ks, tbl_jobs = js,
      db_fault = (\<lambda>_. None), db_ts = (\<lambda>t. t), db_text = (\<lambda>_. True), db_order = (\<lambda>n rows. rows),
      db_audit_order = (\<lambda>n rows. rows), db_queries = n\<rparr>"

definition sample_world :: "'s \<Rightarrow> nat \<Rightarrow> nat \<Rightarrow> request list \<Rightarrow> 's world" where
  "sample_world s t n qs =
     \<lparr>wstore = s, clock = int, ticks = t, entropy = (\<lambda>n. Some [word_of_nat n]), draws = n, executed = qs\<rparr>"

definition sample_service :: service where
  "sample_service = NewService ''boss'' 10 10 3"

definition employee :: actor where "employee = \<lparr>act_ID = ''emp'', act_Role = RoleEmployee\<rparr>"
definition reviewer :: actor where "reviewer = \<lparr>act_ID = ''boss'', act_Role = RoleReviewer\<rparr>"

definition sample_draft :: api_call where
  "sample_draft = CallCreateDraft employee \<lparr>in_Type = ''vm'', in_TargetResource = ''prod'', in_Justification = ''need''\<rparr>"
definition sample_submit :: api_call where "sample_submit = CallSubmit employee ''req_00'' ''k1''"
definition sample_approve :: api_call where
  "sample_approve = CallApprove reviewer ''req_00'' ''k2'' \<lparr>in_Comment = []\<rparr>"

definition sample_q1 :: request where
  "sample_q1 = zero_request\<lparr>ReqID := ''req_00'', ReqType := ''vm'', TargetResource := ''prod'', Justification := ''need'',
     RequesterID := ''emp'', Status := StatusDraft, Version := 1, CreatedAt := 0, UpdatedAt := 0\<rparr>"
definition sample_q2 :: request where "sample_q2 = submitted sample_service 3 sample_q1"
definition sample_q3 :: request where "sample_q3 = reviewed ''approved'' 7 sample_q2"
definition sample_q4 :: request where "sample_q4 = executionApplied sample_service True [] 10 sample_q3"

definition audit_of :: "string \<Rightarrow> actor \<Rightarrow> string \<Rightarrow> string \<Rightarrow> time \<Rightarrow> audit_entry" where
  "audit_of i a action description t =
     \<lparr>aud_ID = i, aud_RequestID = ''req_00'', aud_ActorID = act_ID a, aud_ActorRole = act_Role a,
      aud_Action = action, aud_Description = description, aud_CreatedAt = t\<rparr>"

definition sample_lines1 :: "audit_entry list" where
  "sample_lines1 = [audit_of ''audit_01'' employee ''draft_created'' ''draft request created'' 1]"
definition sample_lines2 :: "audit_entry list" where
  "sample_lines2 = sample_lines1 @ [audit_of ''audit_02'' employee ''submitted'' ''request submitted for review'' 4,
     audit_of ''audit_03'' systemActor ''review_assigned'' ''request assigned to reviewer'' 5]"

lemma sample_trims [simp]: "trim_space ''k1'' = ''k1''" "trim_space ''k2'' = ''k2''" "trim_space ''vm'' = ''vm''" "trim_space ''prod'' = ''prod''"
 "trim_space ''need'' = ''need''" "trim_space ''boss'' = ''boss''" "trim_space ''emp'' = ''emp''" by code_simp+

lemmas pg_eval = pg_write_defs statement_def pg_inserts list_ex_iff request_params_ok_def int4_def
  request_exists_def encode_request_def pg_GetRequest_def select_request_def scanRequest_def
  pg_GetIdempotency_def select_idempotency_def is_key_def update_request_def set_columns_def pg_view_def
  pg_list_defs select_ready_def pg_ready_def default_limit_def heap_order_def

lemmas id_eval = draw_id_def after_draw_def NewID_of_def hex_encode_def hex_byte_def hex_digit_def

definition sample_key1 :: idempotency_record where
  "sample_key1 = \<lparr>idem_Key = ''k1'', idem_Scope = ''submit:req_00'', idem_Fingerprint = ''emp'',
     idem_RequestID = ''req_00'', idem_CreatedAt = 2\<rparr>"
definition sample_key2 :: idempotency_record where
  "sample_key2 = \<lparr>idem_Key = ''k2'', idem_Scope = ''approved:req_00'',
     idem_Fingerprint = fingerprint [''approved'', []], idem_RequestID = ''req_00'', idem_CreatedAt = 6\<rparr>"
definition sample_review :: review_action where
  "sample_review = \<lparr>rev_ID = ''rev_04'', rev_RequestID = ''req_00'', rev_Decision = ''approved'',
     rev_Comment = [], rev_ActorID = ''boss'', rev_CreatedAt = 7\<rparr>"
definition sample_job :: job_run where
  "sample_job = \<lparr>job_ID = ''job_06'', job_RequestID = ''req_00'', job_JobType = ''execution'',
     job_Status = ''succeeded'', job_Attempt = 1, job_Message = ''execution completed'', job_ExecutedAt = 9\<rparr>"
definition sample_lines3 :: "audit_entry list" where
  "sample_lines3 = sample_lines2 @ [audit_of ''audit_05'' reviewer ''approved'' ''approved'' 8]"
definition sample_lines4 :: "audit_entry list" where
  "sample_lines4 = sample_lines3 @
     [audit_of ''audit_07'' systemActor ''execution_succeeded'' ''request executed successfully'' 11]"

definition sample_dbs :: "nat \<Rightarrow> db" where
  "sample_dbs n =
     [sample_db [] [] [] [] [] 0,
      sample_db [sample_q1] [] sample_lines1 [] [] 2,
      sample_db [sample_q2] [] sample_lines2 [sample_key1] [] 8,
      sample_db [sample_q3] [sample_review] sample_lines3 [sample_key1, sample_key2] [] 14,
      sample_db [sample_q4] [sample_review] sample_lines4 [sample_key1, sample_key2] [sample_job] 18] ! n"

lemmas sample_rows = sample_q1_def sample_q2_def sample_q3_def sample_q4_def zero_request_def submitted_def
  reviewed_def executionApplied_def sample_lines1_def sample_lines2_def sample_lines3_def sample_lines4_def
  audit_of_def sample_key1_def sample_key2_def sample_review_def sample_job_def systemActor_def
  sample_service_def NewService_def employee_def reviewer_def Let_def

lemmas sample_eval = sample_rows sample_world_def sample_db_def sample_dbs_def pg_eval id_eval auditFor_def

lemma draft_run:
  "run pg_ops ex (api_prog sample_service sample_draft) (sample_world (sample_dbs 0) 0 0 []) =
     (ARequest (Inr sample_q1), sample_world (sample_dbs 1) 2 2 [])"
  by (simp add: sample_draft_def CreateDraft_def ValidateActor_def sample_eval)

lemma draft_trace:
  "trace pg_ops ex pg_view c (api_prog sample_service sample_draft) (sample_world (sample_dbs 0) 0 0 []) =
     ([''req_00'', ''audit_01''], [(c, None, sample_q1)])"
  by (simp add: sample_draft_def CreateDraft_def ValidateActor_def sample_eval)

lemma submit_run:
  "run pg_ops ex (api_prog sample_service sample_submit) (sample_world (sample_dbs 1) 2 2 []) =
     (ARequest (Inr sample_q2), sample_world (sample_dbs 2) 6 4 [])"
  by (simp add: sample_submit_def SubmitRequest_def requireOwnedOrAdmin_def ensureIdempotency_def sample_eval)

lemma submit_trace:
  "trace pg_ops ex pg_view c (api_prog sample_service sample_submit) (sample_world (sample_dbs 1) 2 2 []) =
     ([''audit_02'', ''audit_03''], [(c, Some sample_q1, sample_q2)])"
  by (simp add: sample_submit_def SubmitRequest_def requireOwnedOrAdmin_def ensureIdempotency_def sample_eval)

lemma approve_run:
  "run pg_ops ex (api_prog sample_service sample_approve) (sample_world (sample_dbs 2) 6 4 []) =
     (ARequest (Inr sample_q3), sample_world (sample_dbs 3) 9 6 [])"
  by (simp add: sample_approve_def ApproveRequest_def reviewRequest_def canReview_def ensureIdempotency_def
      decisionDescription_def sample_eval)

lemma approve_trace:
  "trace pg_ops ex pg_view c (api_prog sample_service sample_approve) (sample_world (sample_dbs 2) 6 4 []) =
     ([''rev_04'', ''audit_05''], [(c, Some sample_q2, sample_q3)])"
  by (simp add: sample_approve_def ApproveRequest_def reviewRequest_def canReview_def ensureIdempotency_def
      decisionDescription_def sample_eval)

lemma sample_executor: "TargetResource q = ''prod'' \<Longrightarrow> SimulatedExecutor q = None"
  by (simp add: SimulatedExecutor_def) code_simp

lemma execute_run:
  "run pg_ops SimulatedExecutor (api_prog sample_service (CallExecutions 25)) (sample_world (sample_dbs 3) 9 6 []) =
     (Pass None, sample_world (sample_dbs 4) 12 8 [sample_q3])"
  by (simp add: ProcessDueExecutions_def applyExecutionResult_def sample_executor sample_eval)

lemma execute_trace:
  "trace pg_ops SimulatedExecutor pg_view c (api_prog sample_service (CallExecutions 25)) (sample_world (sample_dbs 3) 9 6 []) =
     ([''job_06'', ''audit_07''], [(c, Some sample_q3, sample_q4)])"
  by (simp add: ProcessDueExecutions_def applyExecutionResult_def sample_executor sample_eval)

definition sample_calls :: "api_call list" where
  "sample_calls = [sample_draft, sample_submit, sample_approve, CallExecutions 25]"

definition sample_events :: "event list" where
  "sample_events =
     [(CallExecutions 25, Some sample_q3, sample_q4), (sample_approve, Some sample_q2, sample_q3),
      (sample_submit, Some sample_q1, sample_q2), (sample_draft, None, sample_q1)]"

lemma sample_run:
  "run_calls sample_service SimulatedExecutor pg_ops pg_view sample_calls (sample_world (sample_dbs 0) 0 0 []) =
     (sample_world (sample_dbs 4) 12 8 [sample_q3],
      [''req_00'', ''audit_01'', ''audit_02'', ''audit_03'', ''rev_04'', ''audit_05'', ''job_06'', ''audit_07''],
      sample_events)"
  by (simp only: sample_calls_def run_calls.simps Let_def draft_run draft_trace submit_run submit_trace approve_run
      approve_trace execute_run execute_trace snd_conv prod.case sample_events_def append.simps)

definition sample_start :: "db world" where
  "sample_start = sample_world (sample_dbs 0) 0 0 []"

lemma sample_reached:
  "\<exists>s. reachable sample_service SimulatedExecutor pg_ops pg_view sample_start s \<and>
     sworld s = sample_world (sample_dbs 4) 12 8 [sample_q3] \<and> events s = sample_events"
  using reach_calls [OF reachable.boot, of sample_start sample_service SimulatedExecutor pg_ops pg_view sample_calls]
    sample_run
  by (fastforce simp: boot_def sample_start_def fresh_ids_def)


subsection \<open>The in-memory store\<close>

definition sample_mem :: mem where
  "sample_mem = NewStore (\<lambda>n xs. xs) (\<lambda>n xs. xs)"

definition sample_mem1 :: mem where
  "sample_mem1 = sample_mem\<lparr>mem_requests := [(''req_00'', sample_q1)],
     mem_audit := (mem_audit sample_mem)(''req_00'' := sample_lines1)\<rparr>"

lemmas sample_mem_eval = sample_rows sample_world_def sample_mem_def sample_mem1_def NewStore_def id_eval
  auditFor_def mem_write_defs mem_view_def

lemma mem_draft_run:
  "run mem_ops ex (api_prog sample_service sample_draft) (sample_world sample_mem 0 0 []) =
     (ARequest (Inr sample_q1), sample_world sample_mem1 2 2 [])"
  by (simp add: sample_draft_def CreateDraft_def ValidateActor_def sample_mem_eval)

lemma mem_draft_trace:
  "trace mem_ops ex mem_view c (api_prog sample_service sample_draft) (sample_world sample_mem 0 0 []) =
     ([''req_00'', ''audit_01''], [(c, None, sample_q1)])"
  by (simp add: sample_draft_def CreateDraft_def ValidateActor_def sample_mem_eval)

lemma mem_sample_reached:
  "\<exists>s. reachable sample_service SimulatedExecutor mem_ops mem_view (sample_world sample_mem 0 0 []) s \<and>
     sstore s = sample_mem1 \<and> events s = [(sample_draft, None, sample_q1)]"
  using reach_calls [OF reachable.boot, of "sample_world sample_mem 0 0 []" sample_service SimulatedExecutor
      mem_ops mem_view "[sample_draft]"]
  by (fastforce simp: boot_def fresh_ids_def mem_draft_run mem_draft_trace sample_world_def [of sample_mem1])

end
