(* ===== verification/SystemProperties.thy ===== *)
theory SystemProperties
  imports Refinement Progress Sample
begin

text \<open>
  What holds of the running server in every reachable state, over the Postgres store (the one
  the program uses) and over the in-memory store. The states are those of theory Concurrency:
  any number of clients and worker passes, interleaved call by call, any of which may be cut off
  at any point, over a database any of whose statements may fail.
\<close>

interpretation postgres_server: server pg_ops pg_view pg_inv
  by unfold_locales

interpretation memory_server: server mem_ops mem_view mem_inv
  by unfold_locales

definition pg_system :: "service \<Rightarrow> executor \<Rightarrow> db world \<Rightarrow> db sys \<Rightarrow> bool" where
  "pg_system svc ex w s \<longleftrightarrow>
     reachable svc ex pg_ops pg_view w s \<and> pg_inv (wstore w) \<and> tbl_requests (wstore w) = [] \<and>
     trim_space (defaultReviewerID svc) = defaultReviewerID svc \<and> int (length (events s)) < 2 ^ 63"

definition mem_system :: "service \<Rightarrow> executor \<Rightarrow> mem world \<Rightarrow> mem sys \<Rightarrow> bool" where
  "mem_system svc ex w s \<longleftrightarrow>
     reachable svc ex mem_ops mem_view w s \<and> mem_inv (wstore w) \<and> mem_requests (wstore w) = [] \<and>
     trim_space (defaultReviewerID svc) = defaultReviewerID svc \<and> int (length (events s)) < 2 ^ 63"

lemma pg_empty_view: "tbl_requests d = [] \<Longrightarrow> pg_view d = Map.empty"
  by (simp add: pg_view_def fun_eq_iff)

lemma mem_empty_view: "mem_requests s = [] \<Longrightarrow> mem_view s = Map.empty"
  by (simp add: mem_view_def)

lemma pg_system_inv: "pg_system svc ex w s \<Longrightarrow> sys_inv svc ex pg_view pg_inv s"
  by (auto simp: pg_system_def intro!: postgres_server.reachable_inv pg_empty_view)

lemma mem_system_inv: "mem_system svc ex w s \<Longrightarrow> sys_inv svc ex mem_view mem_inv s"
  by (auto simp: mem_system_def mem_view_def intro!: memory_server.reachable_inv)

lemma sys_inv_parts:
  assumes "sys_inv svc ex view invar s"
  shows "table_inv svc (view (sstore s)) s" "log_inv svc ex (view (sstore s)) (events s)"
    "\<forall>e \<in> set (events s). allowed svc ex (fst e) (fst (snd e)) (snd (snd e))"
    "chained (events s)" "distinct (map event_key (events s))"
  using assms by (auto simp: sys_inv_def log_inv_def event_ok_def)

lemma sys_stored:
  assumes "sys_inv svc ex view invar s" and "view (sstore s) i = Some q"
  obtains c old q0 where "ReqID q = i" "well_formed svc q"
    "last_event i (events s) = Some (c, old, q0)" "stored_as q0 q"
  using table_inv_Some [OF sys_inv_parts(1) [OF assms(1)] assms(2)] by (auto simp: past_ok_def)

lemma sys_event:
  assumes "sys_inv svc ex view invar s" and "(c, old, q) \<in> set (events s)"
  obtains cur where "view (sstore s) (ReqID q) = Some cur" "sint (Version q) \<le> sint (Version cur)"
  using assms by (fastforce simp: sys_inv_def log_inv_def event_ok_def event_id_def)

lemma sys_approval:
  assumes "sys_inv svc ex view invar s" and "view (sstore s) i = Some q"
    and "Status q \<in> {StatusApproved, StatusExecuted, StatusExecutionFailed}"
  shows "approved_in (events s) i (RequesterID q)"
proof -
  obtain c old q0 where l: "last_event i (events s) = Some (c, old, q0)" "stored_as q0 q"
    using assms(1,2) by (rule sys_stored)
  then show ?thesis
    using log_approval [OF sys_inv_parts(3,4) [OF assms(1)] l(1)] assms(3) by (simp add: stored_as_ids)
qed

lemma chained_split:
  assumes "chained (es1 @ (c, Some old, q) # es2)"
  shows "\<exists>c' old' q'. last_event (ReqID q) es2 = Some (c', old', q') \<and> stored_as q' old"
  using assms by (induction es1) (auto simp: event_id_def)

lemma sample_db_ok: "pg_inv (wstore sample_start)" "tbl_requests (wstore sample_start) = []"
  by (simp_all add: sample_start_def sample_world_def sample_dbs_def sample_db_def pg_inv_def)

lemma sample_trimmed: "trim_space (defaultReviewerID sample_service) = defaultReviewerID sample_service"
  by (simp add: sample_service_def NewService_def)

text \<open>The sample run ends in a state of the system over Postgres.\<close>

lemma sample_system:
  "\<exists>s. pg_system sample_service SimulatedExecutor sample_start s \<and>
     sstore s = sample_dbs 4 \<and> events s = sample_events"
proof -
  obtain s where "reachable sample_service SimulatedExecutor pg_ops pg_view sample_start s"
    "sworld s = sample_world (sample_dbs 4) 12 8 [sample_q3]" "events s = sample_events"
    using sample_reached by blast
  then show ?thesis
    using sample_db_ok sample_trimmed
    by (intro exI [of _ s]) (simp add: pg_system_def sample_events_def sample_world_def)
qed

lemma sample_stored: "pg_view (sample_dbs 4) ''req_00'' = Some sample_q4"
  by (simp add: sample_eval)

lemma sample_status: "Status sample_q4 = StatusExecuted" "ReqID sample_q4 = ''req_00''"
  by (simp_all add: sample_rows)

subsection \<open>Requests\<close>

text \<open>
  C1: In every reachable state of the server over Postgres, whatever the interleaving of
  clients and worker passes and whatever statements fail, each stored request is coherent: its
  timestamps, counters, reviewer and last error fit its status, it is due for execution
  exactly when it is approved or failed with attempts left, and its counters stay below its
  version.
\<close>

theorem pg_stored_well_formed:
  assumes "pg_system svc ex w s" and "pg_view (sstore s) i = Some q"
  shows "ReqID q = i \<and> well_formed svc q"
  using sys_stored [OF pg_system_inv [OF assms(1)] assms(2)] by blast

theorem pg_stored_well_formed_witness:
  "\<exists>s q. pg_system sample_service SimulatedExecutor sample_start s \<and>
     pg_view (sstore s) ''req_00'' = Some q \<and> well_formed sample_service q"
proof -
  obtain s where s: "pg_system sample_service SimulatedExecutor sample_start s" "sstore s = sample_dbs 4"
    using sample_system by blast
  with pg_stored_well_formed [OF s(1), of "''req_00''" sample_q4] sample_stored show ?thesis by auto
qed

text \<open>
  C3: Over Postgres, every change ever made to a request was made by a call whose actor was
  entitled to it by the code, in a status that admits it, and writes exactly what the workflow
  prescribes for that call and the value it replaced: a draft of the call's trimmed type,
  target and justification, a submission by its owner or an administrator, a decision by an
  administrator or the assigned reviewer other than the requester, an execution result by an
  administrator or by any reviewer, assigned or not (the documents restrict reviewers to
  assigned requests; see the findings), or a pass of the worker.
\<close>

theorem pg_changes_authorised:
  assumes "pg_system svc ex w s" and "(c, old, q) \<in> set (events s)"
  shows "allowed svc ex c old q"
  using sys_inv_parts(3) [OF pg_system_inv [OF assms(1)]] assms(2) by fastforce

theorem pg_changes_authorised_witness:
  "\<exists>s. pg_system sample_service SimulatedExecutor sample_start s \<and>
     (sample_approve, Some sample_q2, sample_q3) \<in> set (events s) \<and>
     allowed sample_service SimulatedExecutor sample_approve (Some sample_q2) sample_q3"
proof -
  obtain s where s: "pg_system sample_service SimulatedExecutor sample_start s" "events s = sample_events"
    using sample_system by blast
  with pg_changes_authorised [OF s(1), of sample_approve "Some sample_q2" sample_q3] show ?thesis
    by (auto simp: sample_events_def)
qed

text \<open>
  C4: Every step of the concurrent server over Postgres either leaves the table of requests
  and the log alone, or is one step of the abstract workflow machine: the call of some
  goroutine replaces the current value of one request by what the workflow prescribes for that
  call and that value, and the log records it. So the log of every run, with the value each
  change replaced, is a run of the machine that ends in the stored table; a write computed
  from a stale value is no step of the machine.
\<close>

theorem pg_refines_workflow:
  assumes "pg_system svc ex w s" and "sys_step svc ex pg_ops pg_view s s'"
  shows "workflow_run svc ex (events s) (pg_view (sstore s)) \<and>
    (events s' = events s \<and> pg_view (sstore s') = pg_view (sstore s) \<or>
     (\<exists>n c p old q. threads s n = Some (c, p) \<and> events s' = (c, old, q) # events s \<and>
        workflow_step svc ex (c, old, q) (pg_view (sstore s)) (pg_view (sstore s'))))"
proof -
  have "workflow_run svc ex (events s) (pg_view (sstore s))"
    using assms(1) by (auto simp: pg_system_def intro!: postgres_server.reachable_refines pg_empty_view)
  with postgres_server.step_refines [OF assms(2) pg_system_inv [OF assms(1)]] show ?thesis by blast
qed

theorem pg_refines_workflow_witness:
  "workflow_run sample_service SimulatedExecutor sample_events (pg_view (sample_dbs 4)) \<and>
   pg_view (sample_dbs 4) ''req_00'' = Some sample_q4"
proof -
  obtain s where s: "pg_system sample_service SimulatedExecutor sample_start s" "sstore s = sample_dbs 4"
    "events s = sample_events"
    using sample_system by blast
  have "sys_step sample_service SimulatedExecutor pg_ops pg_view s (s\<lparr>threads := (threads s)(0 := None)\<rparr>)"
    by (rule sys_step.stop)
  from pg_refines_workflow [OF s(1) this] s sample_stored show ?thesis by simp
qed

text \<open>
  C5: No update is lost over Postgres: the version of a stored request is the number of all
  changes ever made to it, its attempts and its reminders are the numbers of execution results
  and reminders ever recorded, and an update that the store acknowledges to a goroutine was
  computed from the value stored at that moment and is stored.
\<close>

theorem pg_no_lost_update:
  assumes "pg_system svc ex w s" and "pg_view (sstore s) i = Some cur"
  shows "sint (Version cur) = int (events_of i (events s)) \<and>
    sint (ExecutionAttempts cur) = int (executions_of i (events s)) \<and>
    sint (ReminderCount cur) = int (reminders_of i (events s)) \<and>
    (\<forall>n c q v k d. threads s n = Some (c, Write (UpdateRequest q v) k) \<and> ReqID q = i \<and>
       pg_UpdateRequest q v (sstore s) = (None, d) \<longrightarrow>
       allowed svc ex c (Some cur) q \<and> (\<exists>q'. stored_as q q' \<and> pg_view d i = Some q'))"
proof -
  note I = pg_system_inv [OF assms(1)]
  obtain c old q0 where l: "last_event i (events s) = Some (c, old, q0)" "stored_as q0 cur"
    using I assms(2) by (rule sys_stored)
  have "int (length (events s)) < 2 ^ 63" using assms(1) by (simp add: pg_system_def)
  from counted_stored [OF log_counts [OF sys_inv_parts(3,4) [OF I] this l(1)] l(2)]
  have "counted i (events s) cur" .
  moreover have "allowed svc ex c (Some cur) q \<and> (\<exists>q'. stored_as q q' \<and> pg_view d i = Some q')"
    if "threads s n = Some (c, Write (UpdateRequest q v) k)" "ReqID q = i"
      "pg_UpdateRequest q v (sstore s) = (None, d)" for n c q v k d
    using postgres_server.acknowledged_update [OF I that(1), of d] that(2,3) assms(2) by auto
  ultimately show ?thesis unfolding counted_def by blast
qed

theorem pg_no_lost_update_witness:
  "sint (Version sample_q4) = int (events_of ''req_00'' sample_events) \<and>
   sint (ExecutionAttempts sample_q4) = int (executions_of ''req_00'' sample_events)"
proof -
  obtain s where s: "pg_system sample_service SimulatedExecutor sample_start s" "sstore s = sample_dbs 4"
    "events s = sample_events"
    using sample_system by blast
  with pg_no_lost_update [OF s(1), of "''req_00''" sample_q4] sample_stored show ?thesis by simp
qed

text \<open>
  C6: Of the calls that race to change a request over Postgres at most one wins: no two
  changes of the log write the same version of the same request.
\<close>

theorem pg_single_winner:
  assumes "pg_system svc ex w s" and "events s = es1 @ e1 # es2 @ e2 # es3" and "event_id e1 = event_id e2"
  shows "Version (snd (snd e1)) \<noteq> Version (snd (snd e2))"
  using sys_inv_parts(5) [OF pg_system_inv [OF assms(1)]] assms(2,3) by (auto simp: event_key_def)

theorem pg_single_winner_witness: "Version sample_q4 \<noteq> Version sample_q2"
proof -
  obtain s where s: "pg_system sample_service SimulatedExecutor sample_start s" "events s = sample_events"
    using sample_system by blast
  then have "events s = [] @ (CallExecutions 25, Some sample_q3, sample_q4) # [(sample_approve, Some sample_q2, sample_q3)] @
      (sample_submit, Some sample_q1, sample_q2) # [(sample_draft, None, sample_q1)]"
    by (simp add: sample_events_def)
  from pg_single_winner [OF s(1) this] show ?thesis by (simp add: event_id_def sample_rows)
qed

text \<open>
  C2: Over Postgres, a request that is stored as approved, executed or failed in execution was
  approved in the past by a call of an administrator or of its assigned reviewer, who was not
  its requester.
\<close>

theorem pg_separation_of_duties:
  assumes "pg_system svc ex w s" and "pg_view (sstore s) i = Some q"
    and "Status q \<in> {StatusApproved, StatusExecuted, StatusExecutionFailed}"
  shows "approved_in (events s) i (RequesterID q)"
  using sys_approval [OF pg_system_inv [OF assms(1)] assms(2,3)] .

theorem pg_separation_of_duties_witness:
  "Status sample_q4 = StatusExecuted \<and> approved_in sample_events ''req_00'' ''emp''"
proof -
  obtain s where s: "pg_system sample_service SimulatedExecutor sample_start s" "sstore s = sample_dbs 4"
    "events s = sample_events"
    using sample_system by blast
  with pg_separation_of_duties [OF s(1), of "''req_00''" sample_q4] sample_stored sample_status show ?thesis
    by (auto simp: sample_rows)
qed

text \<open>
  C8: Over Postgres nothing follows a rejection or a successful execution: such a change is
  the last of its request, and the stored request is still the one it wrote.
\<close>

theorem pg_terminal:
  assumes "pg_system svc ex w s" and "(c, old, q) \<in> set (events s)"
    and "Status q \<in> {StatusRejected, StatusExecuted}"
  shows "last_event (ReqID q) (events s) = Some (c, old, q) \<and>
    (\<exists>cur. pg_view (sstore s) (ReqID q) = Some cur \<and> stored_as q cur)"
proof -
  note I = pg_system_inv [OF assms(1)]
  have l: "last_event (ReqID q) (events s) = Some (c, old, q)"
    by (rule log_terminal [OF sys_inv_parts(3,4) [OF I] assms(2,3)])
  obtain cur where "pg_view (sstore s) (ReqID q) = Some cur" using I assms(2) by (rule sys_event)
  with sys_stored [OF I this] l show ?thesis by auto
qed

theorem pg_terminal_witness:
  "last_event ''req_00'' sample_events = Some (CallExecutions 25, Some sample_q3, sample_q4)"
proof -
  obtain s where s: "pg_system sample_service SimulatedExecutor sample_start s" "events s = sample_events"
    using sample_system by blast
  with pg_terminal [OF s(1), of "CallExecutions 25" "Some sample_q3" sample_q4] sample_status show ?thesis
    by (simp add: sample_events_def)
qed

text \<open>
  C7: Over Postgres the worker records at most as many executions of a request as the
  configured maximum (at least one), however many workers run and however their passes
  interleave.
\<close>

theorem pg_retry_budget:
  assumes "pg_system svc ex w s"
  shows "int (worker_runs i (events s)) \<le> budget svc"
proof (cases "last_event i (events s)")
  case None
  then show ?thesis by (simp add: worker_runs_none budget_def)
next
  case (Some e)
  obtain c old q where e: "e = (c, old, q)" by (cases e)
  note I = pg_system_inv [OF assms]
  from assms have "int (length (events s)) < 2 ^ 63" "trim_space (defaultReviewerID svc) = defaultReviewerID svc"
    by (simp_all add: pg_system_def)
  from log_budget [OF sys_inv_parts(3,4) [OF I] this] Some e show ?thesis by (auto simp: within_budget_def)
qed

theorem pg_retry_budget_witness: "worker_runs ''req_00'' sample_events = 1 \<and> int 1 \<le> budget sample_service"
proof -
  obtain s where s: "pg_system sample_service SimulatedExecutor sample_start s" "events s = sample_events"
    using sample_system by blast
  have "worker_runs ''req_00'' sample_events = 1"
    using sample_status by (simp add: sample_events_def sample_approve_def sample_submit_def sample_draft_def)
  with pg_retry_budget [OF s(1), of "''req_00''"] s(2) show ?thesis by simp
qed

text \<open>
  C9: Over Postgres the requester, type, target and justification of a request are the same in
  all its versions, and no version is newer than the stored one.
\<close>

theorem pg_identity_fixed:
  assumes "pg_system svc ex w s" and "(c, old, q) \<in> set (events s)" and "pg_view (sstore s) (ReqID q) = Some cur"
  shows "same_identity q cur \<and> sint (Version q) \<le> sint (Version cur)"
proof -
  note I = pg_system_inv [OF assms(1)]
  obtain c' old' q0 where l: "last_event (ReqID q) (events s) = Some (c', old', q0)" "stored_as q0 cur"
    using I assms(3) by (rule sys_stored)
  have "same_identity q q0" by (rule log_identity [OF sys_inv_parts(3,4) [OF I] assms(2) l(1)])
  with l(2) have "same_identity q cur" by (blast intro: same_identity_stored same_identity_trans)
  moreover have "sint (Version q) \<le> sint (Version cur)"
    using sys_event [OF I assms(2)] assms(3) by auto
  ultimately show ?thesis by blast
qed

theorem pg_identity_fixed_witness: "same_identity sample_q1 sample_q4"
proof -
  obtain s where s: "pg_system sample_service SimulatedExecutor sample_start s" "sstore s = sample_dbs 4"
    "events s = sample_events"
    using sample_system by blast
  have "ReqID sample_q1 = ''req_00''" by (simp add: sample_rows)
  with s pg_identity_fixed [OF s(1), of sample_draft None sample_q1 sample_q4] sample_stored show ?thesis
    by (simp add: sample_events_def)
qed

subsection \<open>The in-memory store keeps the same promises\<close>

text \<open>
  C12: The same server over the in-memory store keeps every request coherent, approves by a
  second entitled person only, writes every version of a request once, and its log is a run of
  the abstract workflow machine that ends in the stored table.
\<close>

theorem mem_system_safe:
  assumes "mem_system svc ex w s" and "mem_view (sstore s) i = Some q"
  shows "ReqID q = i \<and> well_formed svc q \<and>
    (Status q \<in> {StatusApproved, StatusExecuted, StatusExecutionFailed} \<longrightarrow>
       approved_in (events s) i (RequesterID q)) \<and>
    distinct (map event_key (events s)) \<and> workflow_run svc ex (events s) (mem_view (sstore s))"
proof -
  note I = mem_system_inv [OF assms(1)]
  have "workflow_run svc ex (events s) (mem_view (sstore s))"
    using assms(1) mem_empty_view by (auto simp: mem_system_def intro!: memory_server.reachable_refines)
  moreover have "ReqID q = i \<and> well_formed svc q" using sys_stored [OF I assms(2)] by blast
  ultimately show ?thesis using sys_approval [OF I assms(2)] sys_inv_parts(5) [OF I] by blast
qed

theorem mem_system_safe_witness:
  "\<exists>s. mem_system sample_service SimulatedExecutor (sample_world sample_mem 0 0 []) s \<and>
     mem_view (sstore s) ''req_00'' = Some sample_q1 \<and> well_formed sample_service sample_q1"
proof -
  obtain s where s: "reachable sample_service SimulatedExecutor mem_ops mem_view (sample_world sample_mem 0 0 []) s"
    "sstore s = sample_mem1" "events s = [(sample_draft, None, sample_q1)]"
    using mem_sample_reached by blast
  have "mem_inv sample_mem" unfolding sample_mem_def by (rule mem_inv_NewStore) simp_all
  with s have sys: "mem_system sample_service SimulatedExecutor (sample_world sample_mem 0 0 []) s"
    using sample_trimmed by (simp add: mem_system_def sample_world_def sample_mem_def NewStore_def)
  have v: "mem_view (sstore s) ''req_00'' = Some sample_q1"
    using s(2) by (simp add: mem_view_def sample_mem1_def)
  from mem_system_safe [OF sys v] sys v show ?thesis by blast
qed

subsection \<open>The audit log and the idempotency keys\<close>

text \<open>
  C10: No step of the server over Postgres removes or changes an audit entry or forgets an
  idempotency key: the audit log of a request only grows at its end and a recorded key keeps
  its record.
\<close>

theorem pg_append_only:
  assumes "sys_step svc ex pg_ops pg_view s s'" and "pg_inv (sstore s)"
  shows "(\<exists>es. pg_audit (sstore s') i = pg_audit (sstore s) i @ es) \<and>
    (pg_idem (sstore s) sc k = Some rec \<longrightarrow> pg_idem (sstore s') sc k = Some rec)"
  using assms(1)
proof cases
  case (call n c p p' w')
  with postgres.step_log [OF assms(2) call(3), of i sc k rec] show ?thesis by simp
qed auto

lemma sample_final_inv: "pg_inv (sample_dbs 4)"
  by (simp add: sample_dbs_def sample_db_def pg_inv_def sample_rows)

theorem pg_append_only_witness:
  "\<exists>s'. sys_step sample_service SimulatedExecutor pg_ops pg_view (boot (sample_world (sample_dbs 4) 12 8 [])) s' \<and>
     pg_idem (sample_dbs 4) ''submit:req_00'' ''k1'' = Some sample_key1 \<and>
     pg_idem (sstore s') ''submit:req_00'' ''k1'' = Some sample_key1"
proof -
  let ?s = "boot (sample_world (sample_dbs 4) 12 8 [])"
  have st: "sys_step sample_service SimulatedExecutor pg_ops pg_view ?s
      (?s\<lparr>threads := (threads ?s)(0 \<mapsto> (sample_submit, api_prog sample_service sample_submit))\<rparr>)"
    by (rule sys_step.start) (simp add: boot_def)
  have store: "sstore ?s = sample_dbs 4" by (simp add: boot_def sample_world_def)
  have key: "pg_idem (sample_dbs 4) ''submit:req_00'' ''k1'' = Some sample_key1"
    by (simp add: pg_idem_def sample_eval)
  from pg_append_only [OF st, of "''req_00''" "''submit:req_00''" "''k1''" sample_key1] key store sample_final_inv st
  show ?thesis by auto
qed

subsection \<open>Bounded calls\<close>

text \<open>
  A goroutine waits for no other one and retries nothing: the number of its own calls is bounded
  whatever the others do, and it can always make the next one.
\<close>

text \<open>
  C11: Over Postgres, a goroutine that has started a call on the service makes at most a fixed
  number of calls on the store, the clock, the id generator and the executor before it returns
  (at most 12 for a client; for a pass of the worker 2 and at most 8 for each request of its
  batch, 25 where the limit is not positive), whatever these calls answer and whatever the
  other goroutines do; until it returns it can always make the next one, if the id it draws is
  new.
\<close>

theorem pg_calls_bounded:
  assumes "threads s g = Some (c, api_prog svc c)" and "own_steps svc ex pg_ops pg_view g k s s'"
  shows "k \<le> max_calls c \<and>
    (\<exists>p. threads s' g = Some (c, p) \<and>
       ((\<exists>out. p = Return out) \<or>
        k < max_calls c \<and>
        (drawn_by p (sworld s') \<inter> drawn s' = {} \<longrightarrow> (\<exists>s''. own_steps svc ex pg_ops pg_view g (Suc k) s s''))))"
proof -
  from pg_limited.own_steps_bound [OF assms(2,1)] obtain p where
    p: "k \<le> max_calls c" "threads s' g = Some (c, p)" "k = max_calls c \<longrightarrow> (\<exists>out. p = Return out)" by blast
  obtain p' w' where "step pg_ops ex p (sworld s') = (p', w')" by fastforce
  with own_next [OF assms(2) p(2)] p show ?thesis by (metis le_neq_implies_less)
qed

lemma sample_started:
  "\<exists>k s s'. threads s 0 = Some (sample_draft, api_prog sample_service sample_draft) \<and>
     own_steps sample_service SimulatedExecutor pg_ops pg_view 0 k s s' \<and>
     threads s' 0 = Some (sample_draft, Return (ARequest (Inr sample_q1)))"
proof -
  let ?s = "boot sample_start"
  let ?p = "api_prog sample_service sample_draft"
  let ?s1 = "?s\<lparr>threads := (threads ?s)(0 \<mapsto> (sample_draft, ?p))\<rparr>"
  have w: "sworld ?s1 = sample_world (sample_dbs 0) 0 0 []" by (simp add: boot_def sample_start_def)
  have t: "threads ?s1 0 = Some (sample_draft, ?p)" by simp
  have f: "fresh_ids (fst (trace pg_ops SimulatedExecutor pg_view sample_draft ?p (sworld ?s1))) (drawn ?s1)"
    unfolding w draft_trace by (simp add: fresh_ids_def boot_def)
  from pg_limited.own_run [OF api_returns own_steps.start t f] obtain k s2 where
    "own_steps sample_service SimulatedExecutor pg_ops pg_view 0 k ?s1 s2"
    "threads s2 0 = Some (sample_draft, Return (ARequest (Inr sample_q1)))"
    unfolding w draft_run fst_conv by blast
  with t show ?thesis by blast
qed

theorem pg_calls_bounded_witness:
  "\<exists>k s s'. threads s 0 = Some (sample_draft, api_prog sample_service sample_draft) \<and>
     own_steps sample_service SimulatedExecutor pg_ops pg_view 0 k s s' \<and> k \<le> 6 \<and>
     threads s' 0 = Some (sample_draft, Return (ARequest (Inr sample_q1)))"
proof -
  obtain k s s' where s: "threads s 0 = Some (sample_draft, api_prog sample_service sample_draft)"
    "own_steps sample_service SimulatedExecutor pg_ops pg_view 0 k s s'"
    "threads s' 0 = Some (sample_draft, Return (ARequest (Inr sample_q1)))"
    using sample_started by blast
  from pg_calls_bounded [OF s(1,2)] have "k \<le> 6" by (simp add: sample_draft_def)
  with s show ?thesis by blast
qed

end
