(* ===== verification/Sequential.thy ===== *)
theory Sequential
  imports Workflow MemoryStore
begin

text \<open>
  What one call on the service does when it runs alone on the in-memory store: the setting of
  the repository's own tests in \<open>internal/application/service_test.go\<close>. The first part turns
  the calls on this store into functions on its abstract state (\<open>mem_view\<close>, \<open>mem_idem\<close>,
  \<open>trail\<close>); the second gives the effect of each method on every branch.
\<close>

subsection \<open>The audit trail of a request, without its ids and times\<close>

definition audit_line :: "audit_entry \<Rightarrow> string \<times> role \<times> string \<times> string" where
  "audit_line e = (aud_ActorID e, aud_ActorRole e, aud_Action e, aud_Description e)"

definition trail :: "mem \<Rightarrow> string \<Rightarrow> (string \<times> role \<times> string \<times> string) list" where
  "trail s i = map audit_line (mem_audit s i)"

definition put :: "request \<Rightarrow> mem \<Rightarrow> mem" where
  "put q s = s\<lparr>mem_requests := AList.update (ReqID q) q (mem_requests s)\<rparr>"

definition keep_key :: "idempotency_record \<Rightarrow> mem \<Rightarrow> mem" where
  "keep_key r s =
     s\<lparr>mem_idempotency := (mem_idempotency s)(mem_compound (idem_Scope r) (idem_Key r) \<mapsto> r)\<rparr>"

definition add_audit :: "audit_entry \<Rightarrow> mem \<Rightarrow> mem" where
  "add_audit e s = s\<lparr>mem_audit := (mem_audit s)(aud_RequestID e := mem_audit s (aud_RequestID e) @ [e])\<rparr>"

definition add_review :: "review_action \<Rightarrow> mem \<Rightarrow> mem" where
  "add_review r s =
     s\<lparr>mem_reviews := (mem_reviews s)(rev_RequestID r := mem_reviews s (rev_RequestID r) @ [r])\<rparr>"

definition add_job :: "job_run \<Rightarrow> mem \<Rightarrow> mem" where
  "add_job r s =
     s\<lparr>mem_jobRuns := (mem_jobRuns s)(job_RequestID r := mem_jobRuns s (job_RequestID r) @ [r])\<rparr>"

lemma view_of [simp]:
  "mem_view (put q s) = (mem_view s)(ReqID q \<mapsto> q)" "mem_view (keep_key r s) = mem_view s"
  "mem_view (add_audit e s) = mem_view s" "mem_view (add_review v s) = mem_view s"
  "mem_view (add_job j s) = mem_view s"
  by (simp_all add: put_def mem_view_update) (simp_all add: mem_view_def keep_key_def add_audit_def
      add_review_def add_job_def)

lemma idem_of [simp]:
  "mem_idem (put q s) = mem_idem s" "mem_idem (add_audit e s) = mem_idem s"
  "mem_idem (add_review v s) = mem_idem s" "mem_idem (add_job j s) = mem_idem s"
  "mem_idem (keep_key r s) (idem_Scope r) (idem_Key r) = Some r"
  by (simp_all add: mem_idem_def put_def keep_key_def add_audit_def add_review_def add_job_def fun_eq_iff)

lemma idem_keep_key [simp]:
  "mem_idem (keep_key \<lparr>idem_Key = key, idem_Scope = sc, idem_Fingerprint = p, idem_RequestID = i, idem_CreatedAt = t\<rparr> s) sc key
    = Some \<lparr>idem_Key = key, idem_Scope = sc, idem_Fingerprint = p, idem_RequestID = i, idem_CreatedAt = t\<rparr>"
  by (simp add: mem_idem_def keep_key_def)

lemma trail_of [simp]:
  "trail (put q s) = trail s" "trail (keep_key r s) = trail s"
  "trail (add_review v s) = trail s" "trail (add_job j s) = trail s"
  "trail (add_audit e s) = (trail s)(aud_RequestID e := trail s (aud_RequestID e) @ [audit_line e])"
  by (simp_all add: trail_def put_def keep_key_def add_audit_def add_review_def add_job_def fun_eq_iff)

lemma reviews_of [simp]:
  "mem_reviews (put q s) = mem_reviews s" "mem_reviews (keep_key r s) = mem_reviews s"
  "mem_reviews (add_audit e s) = mem_reviews s" "mem_reviews (add_job j s) = mem_reviews s"
  "mem_reviews (add_review v s) = (mem_reviews s)(rev_RequestID v := mem_reviews s (rev_RequestID v) @ [v])"
  by (simp_all add: put_def keep_key_def add_audit_def add_review_def add_job_def)

lemma jobs_of [simp]:
  "mem_jobRuns (put q s) = mem_jobRuns s" "mem_jobRuns (keep_key r s) = mem_jobRuns s"
  "mem_jobRuns (add_audit e s) = mem_jobRuns s" "mem_jobRuns (add_review v s) = mem_jobRuns s"
  "mem_jobRuns (add_job j s) = (mem_jobRuns s)(job_RequestID j := mem_jobRuns s (job_RequestID j) @ [j])"
  by (simp_all add: put_def keep_key_def add_audit_def add_review_def add_job_def)

lemma inv_of [simp]:
  "mem_inv s \<Longrightarrow> mem_inv (put q s)" "mem_inv (keep_key r s) = mem_inv s"
  "mem_inv (add_audit e s) = mem_inv s" "mem_inv (add_review v s) = mem_inv s"
  "mem_inv (add_job j s) = mem_inv s"
  by (simp add: put_def mem_inv_update) (simp_all add: keep_key_def add_audit_def add_review_def add_job_def)

subsection \<open>Running a call of the store\<close>

lemma run_create [prog_simps]:
  "run mem_ops ex (Write (CreateRequest q) k) w = run mem_ops ex (k None) (w\<lparr>wstore := put q (wstore w)\<rparr>)"
  by (simp add: mem_CreateRequest_def put_def)

lemma run_update [prog_simps]:
  assumes "mem_view (wstore w) (ReqID q) = Some cur" "Version cur = v"
  shows "run mem_ops ex (Write (UpdateRequest q v) k) w = run mem_ops ex (k None) (w\<lparr>wstore := put q (wstore w)\<rparr>)"
  using assms by (simp add: mem_UpdateRequest_def put_def mem_view_def)

lemma run_get [prog_simps]:
  "run mem_ops ex (GetRequest i k) w =
     run mem_ops ex (k (case mem_view (wstore w) i of None \<Rightarrow> Inl (Sentinel ErrNotFound) | Some q \<Rightarrow> Inr q)) w"
  by (simp add: mem_GetRequest_def mem_view_def split: option.splits)

lemma run_audit [prog_simps]:
  "run mem_ops ex (Write (AppendAudit e) k) w = run mem_ops ex (k None) (w\<lparr>wstore := add_audit e (wstore w)\<rparr>)"
  by (simp add: mem_AppendAudit_def add_audit_def)

lemma run_review [prog_simps]:
  "run mem_ops ex (Write (CreateReview r) k) w = run mem_ops ex (k None) (w\<lparr>wstore := add_review r (wstore w)\<rparr>)"
  by (simp add: mem_CreateReview_def add_review_def)

lemma run_job [prog_simps]:
  "run mem_ops ex (Write (AppendJobRun r) k) w = run mem_ops ex (k None) (w\<lparr>wstore := add_job r (wstore w)\<rparr>)"
  by (simp add: mem_AppendJobRun_def add_job_def)

lemma run_getidem [prog_simps]:
  "run mem_ops ex (GetIdempotency sc key k) w =
     run mem_ops ex (k (case mem_idem (wstore w) sc key of None \<Rightarrow> Inl (Sentinel ErrNotFound) | Some r \<Rightarrow> Inr r)) w"
  by (simp add: mem_GetIdempotency_def mem_idem_def split: option.splits)

lemma run_newkey [prog_simps]:
  assumes "mem_idem (wstore w) (idem_Scope r) (idem_Key r) = None"
  shows "run mem_ops ex (Write (CreateIdempotency r) k) w =
     run mem_ops ex (k None) (w\<lparr>wstore := keep_key r (wstore w)\<rparr>)"
  using assms by (simp add: mem_CreateIdempotency_def keep_key_def mem_idem_def)

lemmas run_pure = run.simps(1,7,8,9) run_bind

declare run.simps [simp del]

lemmas mem_run = run_pure run_create run_update run_get run_audit run_review run_job run_getidem run_newkey


lemma after_draw_sel [simp]:
  "wstore (after_draw w) = wstore w" "clock (after_draw w) = clock w" "entropy (after_draw w) = entropy w"
  "executed (after_draw w) = executed w"
  by (simp_all add: after_draw_def split: option.split)

text \<open>The world after an audit entry was made up and appended.\<close>

definition logged :: "request \<Rightarrow> actor \<Rightarrow> string \<Rightarrow> string \<Rightarrow> mem world \<Rightarrow> mem world" where
  "logged q a action description w =
     (let w1 = after_draw w
      in w1\<lparr>ticks := ticks w1 + 1,
            wstore := add_audit
              \<lparr>aud_ID = draw_id ''audit'' w, aud_RequestID = ReqID q, aud_ActorID = act_ID a,
               aud_ActorRole = act_Role a, aud_Action = action, aud_Description = description,
               aud_CreatedAt = clock w (ticks w1)\<rparr> (wstore w)\<rparr>)"

lemma run_logged:
  "run mem_ops ex (auditFor q a action description (\<lambda>e. Write (AppendAudit e) k)) w =
     run mem_ops ex (k None) (logged q a action description w)"
  by (simp add: auditFor_def logged_def run_audit run_pure Let_def)

lemma logged_sel [simp]:
  "mem_view (wstore (logged q a act d w)) = mem_view (wstore w)"
  "mem_idem (wstore (logged q a act d w)) = mem_idem (wstore w)"
  "mem_reviews (wstore (logged q a act d w)) = mem_reviews (wstore w)"
  "mem_jobRuns (wstore (logged q a act d w)) = mem_jobRuns (wstore w)"
  "mem_inv (wstore (logged q a act d w)) = mem_inv (wstore w)"
  "clock (logged q a act d w) = clock w" "executed (logged q a act d w) = executed w"
  "trail (wstore (logged q a act d w)) =
     (trail (wstore w))(ReqID q := trail (wstore w) (ReqID q) @ [(act_ID a, act_Role a, act, d)])"
  by (simp_all add: logged_def Let_def audit_line_def)

lemma store_logged:
  "\<exists>e. wstore (logged q a act d w) = add_audit e (wstore w) \<and> aud_RequestID e = ReqID q \<and>
     audit_line e = (act_ID a, act_Role a, act, d)"
  by (auto simp: logged_def Let_def audit_line_def)

definition new_key :: "string \<Rightarrow> string \<Rightarrow> string \<Rightarrow> string \<Rightarrow> mem world \<Rightarrow> mem world" where
  "new_key sc key i payload w =
     w\<lparr>ticks := ticks w + 1,
       wstore := keep_key
         \<lparr>idem_Key = key, idem_Scope = sc, idem_Fingerprint = payload, idem_RequestID = i,
          idem_CreatedAt = clock w (ticks w)\<rparr> (wstore w)\<rparr>"

lemma new_key_sel [simp]:
  "mem_view (wstore (new_key sc key i p w)) = mem_view (wstore w)"
  "trail (wstore (new_key sc key i p w)) = trail (wstore w)"
  "mem_reviews (wstore (new_key sc key i p w)) = mem_reviews (wstore w)"
  "mem_jobRuns (wstore (new_key sc key i p w)) = mem_jobRuns (wstore w)"
  "mem_inv (wstore (new_key sc key i p w)) = mem_inv (wstore w)"
  "clock (new_key sc key i p w) = clock w" "ticks (new_key sc key i p w) = ticks w + 1"
  "executed (new_key sc key i p w) = executed w"
  by (simp_all add: new_key_def)

text \<open>The fingerprint kept under a key, if the key is known.\<close>

definition key_payload :: "mem \<Rightarrow> string \<Rightarrow> string \<Rightarrow> string option" where
  "key_payload s sc key = map_option idem_Fingerprint (mem_idem s sc key)"

lemma key_payload_sel [simp]:
  "key_payload (wstore (logged q a act d w)) = key_payload (wstore w)"
  "key_payload (put q s) = key_payload s" "key_payload (add_review v s) = key_payload s"
  "key_payload (add_job j s) = key_payload s"
  "key_payload (wstore (new_key sc key i p w)) sc key = Some p"
  by (simp_all add: key_payload_def new_key_def fun_eq_iff)

lemma key_None: "key_payload s sc key = None \<longleftrightarrow> mem_idem s sc key = None"
  by (simp add: key_payload_def)

lemma new_key_other:
  "key_payload (wstore (new_key (''submit:'' @ i) key j p w)) (''approved:'' @ i') k =
     key_payload (wstore w) (''approved:'' @ i') k"
  by (simp add: key_payload_def mem_idem_def new_key_def keep_key_def mem_compound_def)

lemma ticks_logged: "ticks w + 1 \<le> ticks (logged q a act d w)"
  by (auto simp: logged_def Let_def after_draw_def split: option.splits)

lemma ticks_after_draw: "ticks w \<le> ticks (after_draw w)"
  by (auto simp: after_draw_def split: option.splits)

lemma run_ensure:
  "run mem_ops ex (ensureIdempotency sc key i p) w =
     (if trim_space key = []
      then (Some (Wrap ErrInvalidInput (Message ''idempotency key is required'')), w)
      else case key_payload (wstore w) sc key of
        Some p' \<Rightarrow> (Some (Sentinel (if p' = p then ErrNotFound else ErrIdempotencyKeyUsed)), w)
      | None \<Rightarrow> (None, new_key sc key i p w))"
  by (cases "mem_idem (wstore w) sc key")
    (simp_all add: ensureIdempotency_def mem_run key_payload_def new_key_def)

lemmas mem_exec = run_pure run_create run_update run_get run_review run_job run_logged run_ensure


subsection \<open>The selections of the worker's passes\<close>

lemma range_distinct:
  assumes "mem_inv s"
  shows "distinct (map ReqID (range_requests s))"
proof -
  let ?xs = "mem_order s (mem_loops s) (mem_requests s)"
  have m: "mset ?xs = mset (mem_requests s)"
    using assms by (simp add: mem_inv_def permutes_lists_def)
  have "\<forall>x \<in> set (mem_requests s). ReqID (snd x) = fst x"
    using assms by (auto simp: mem_inv_def)
  then have "map ReqID (range_requests s) = map fst ?xs"
    using mset_eq_setD [OF m] by (simp add: range_requests_def)
  moreover have "mset (map fst ?xs) = mset (map fst (mem_requests s))"
    using m by simp
  ultimately show ?thesis
    using assms by (metis mem_inv_def mset_eq_imp_distinct_iff)
qed

lemma range_view_iff: "mem_inv s \<Longrightarrow> q \<in> set (range_requests s) \<longleftrightarrow> mem_view s (ReqID q) = Some q"
  using range_requests_view view_range_requests by blast

definition all_due :: "(request \<Rightarrow> bool) \<Rightarrow> mem \<Rightarrow> request set" where
  "all_due P s = {q. mem_view s (ReqID q) = Some q \<and> P q}"

lemma selection:
  assumes "mem_inv s" and "qs = collect_upto P lim [] (range_requests s)"
  shows "distinct (map ReqID qs)" and "set qs \<subseteq> all_due P s"
    and "length qs = (if 0 < lim then min (nat lim) (card (all_due P s)) else card (all_due P s))"
proof -
  note d = range_distinct [OF assms(1)]
  from d have "distinct (map ReqID (filter P (range_requests s)))"
    by (rule distinct_map_filter)
  then show "distinct (map ReqID qs)"
    using assms(2) by (auto simp: collect_upto_eq distinct_take take_map [symmetric])
  show "set qs \<subseteq> all_due P s"
    using assms set_collect_upto [of P lim "range_requests s"] by (auto simp: all_due_def range_view_iff)
  have "set (filter P (range_requests s)) = all_due P s"
    using assms(1) by (auto simp: all_due_def range_view_iff)
  moreover have "distinct (filter P (range_requests s))"
    using d by (simp add: distinct_map)
  ultimately have "length (filter P (range_requests s)) = card (all_due P s)"
    using distinct_card by metis
  then show "length qs = (if 0 < lim then min (nat lim) (card (all_due P s)) else card (all_due P s))"
    using assms(2) by (simp add: collect_upto_eq min.commute)
qed

text \<open>
  What a pass leaves behind: every selected request was changed once and got one job record,
  and nothing else was touched.
\<close>

definition pass_done ::
  "(request \<Rightarrow> request \<Rightarrow> bool) \<Rightarrow> (request \<Rightarrow> job_run \<Rightarrow> bool) \<Rightarrow> request list \<Rightarrow> mem \<Rightarrow> mem \<Rightarrow> bool" where
  "pass_done change job qs s s' \<longleftrightarrow>
     (\<forall>i. i \<notin> ReqID ` set qs \<longrightarrow> mem_view s' i = mem_view s i \<and> mem_jobRuns s' i = mem_jobRuns s i) \<and>
     (\<forall>q \<in> set qs. (\<exists>q'. mem_view s' (ReqID q) = Some q' \<and> change q q') \<and>
        (\<exists>j. mem_jobRuns s' (ReqID q) = mem_jobRuns s (ReqID q) @ [j] \<and> job q j))"

lemma pass_done_Nil [simp]: "pass_done change job [] s s"
  by (simp add: pass_done_def)

lemma pass_done_mono:
  "pass_done change job qs s s' \<Longrightarrow> (\<And>q q'. change q q' \<Longrightarrow> change' q q') \<Longrightarrow> pass_done change' job qs s s'"
  by (fastforce simp: pass_done_def)

lemma pass_done_Cons:
  assumes rest: "pass_done change job qs s1 s'" and new: "ReqID q \<notin> ReqID ` set qs"
    and "mem_view s1 = (mem_view s)(ReqID q \<mapsto> q')" "change q q'"
    and "mem_jobRuns s1 = (mem_jobRuns s)(ReqID q := mem_jobRuns s (ReqID q) @ [j])" "job q j"
  shows "pass_done change job (q # qs) s s'"
proof -
  have "mem_view s' (ReqID q) = Some q'" "mem_jobRuns s' (ReqID q) = mem_jobRuns s (ReqID q) @ [j]"
    using rest new assms(3,5) by (simp_all add: pass_done_def)
  moreover have "mem_jobRuns s1 (ReqID r) = mem_jobRuns s (ReqID r)" if "r \<in> set qs" for r
    using that new assms(5) by (auto simp: image_iff)
  ultimately show ?thesis
    using rest assms(3-6) unfolding pass_done_def by auto
qed


text \<open>Changing one request leaves the rest of the selection as it was.\<close>

lemma all_due_rest:
  assumes "set (q # qs) \<subseteq> all_due P s" and "ReqID q \<notin> ReqID ` set qs"
    and "mem_view s' = (mem_view s)(ReqID q \<mapsto> q')"
  shows "set qs \<subseteq> all_due P s'"
proof
  fix r assume r: "r \<in> set qs"
  with assms(2) have "ReqID r \<noteq> ReqID q" by (metis image_eqI)
  with r assms(1,3) show "r \<in> all_due P s'" by (auto simp: all_due_def)
qed


text \<open>Time never runs backwards in a run.\<close>

lemma run_time: "run ops ex p w = (r, w') \<Longrightarrow> clock w' = clock w \<and> ticks w \<le> ticks w'"
proof (induction p arbitrary: w)
  case (Write c k)
  then show ?case by (fastforce simp: run.simps split: prod.splits)
next
  case (GetRequest i k)
  then show ?case by (fastforce simp: run.simps split: prod.splits)
next
  case (ListOf c k)
  then show ?case by (fastforce simp: run.simps split: prod.splits)
next
  case (ListAudit i k)
  then show ?case by (fastforce simp: run.simps split: prod.splits)
next
  case (GetIdempotency s i k)
  then show ?case by (fastforce simp: run.simps split: prod.splits)
next
  case (Now k)
  then show ?case by (fastforce simp: run.simps)
next
  case (NewID p k)
  then have "run ops ex (k (draw_id p w)) (after_draw w) = (r, w')" by (simp add: run.simps)
  from NewID.IH [OF rangeI this] show ?case by (auto simp: after_draw_def split: option.splits)
qed (fastforce simp: run.simps)+

end
