(* ===== verification/Passes.thy ===== *)
theory Passes
  imports Sequential
begin

text \<open>
  The passes of the worker on the in-memory store: what applying one execution result does, what
  the loops over the selected requests do, and what a whole pass does.
\<close>

declare run.simps [simp del]

subsection \<open>Applying an execution result\<close>

definition executable :: "request \<Rightarrow> bool" where
  "executable q \<longleftrightarrow> Status q = StatusApproved \<or> Status q = StatusExecutionFailed"

definition result_line :: "actor \<Rightarrow> bool \<Rightarrow> string \<Rightarrow> string \<times> role \<times> string \<times> string" where
  "result_line a success msg =
     (act_ID a, act_Role a, if success then ''execution_succeeded'' else ''execution_failed'',
      if success then ''request executed successfully'' else ''execution failed: '' @ trim_space msg)"

lemma exec_applyExecutionResult:
  assumes "mem_view (wstore w) (ReqID q) = Some q" and "executable q"
    and "q' = executionApplied svc success msg (clock w (ticks w)) q"
  shows "run mem_ops ex (applyExecutionResult svc q a success msg) w =
    (Inr q', logged q' a (if success then ''execution_succeeded'' else ''execution_failed'')
       (if success then ''request executed successfully'' else ''execution failed: '' @ trim_space msg)
       (w\<lparr>ticks := ticks w + 1, wstore := put q' (wstore w)\<rparr>))"
  using assms by (auto simp: applyExecutionResult_def executable_def mem_exec Let_def)

lemma run_applyExecutionResult:
  assumes "mem_view (wstore w) (ReqID q) = Some q" and "executable q"
  shows "\<exists>w'. run mem_ops ex (applyExecutionResult svc q a success msg) w =
      (Inr (executionApplied svc success msg (clock w (ticks w)) q), w') \<and>
    mem_view (wstore w') = (mem_view (wstore w))(ReqID q \<mapsto> executionApplied svc success msg (clock w (ticks w)) q) \<and>
    mem_jobRuns (wstore w') = mem_jobRuns (wstore w) \<and> executed w' = executed w \<and>
    trail (wstore w') = (trail (wstore w))(ReqID q := trail (wstore w) (ReqID q) @ [result_line a success msg])"
  using exec_applyExecutionResult [OF assms refl, of ex svc a success msg] by (simp add: result_line_def)

lemma executionApplied_failure:
  "ExecutionAttempts (executionApplied svc False msg t q) = ExecutionAttempts q + 1"
  "Status (executionApplied svc False msg t q) = StatusExecutionFailed"
  "LastExecutionError (executionApplied svc False msg t q) = trim_space msg"
  "NextExecutionAt (executionApplied svc False msg t q) =
     (if go_le (executionMaxAttempts svc) (ExecutionAttempts q + 1) then None
      else Some (time_add t ((ExecutionAttempts q + 1) * executionRetryBase svc)))"
  by (simp_all add: executionApplied_def Let_def)

subsection \<open>Executions\<close>

text \<open>The clock readings that are still to come.\<close>

definition readings :: "'s world \<Rightarrow> time set" where
  "readings w = {clock w n | n. ticks w \<le> n}"

lemma readings_mono: "clock w' = clock w \<Longrightarrow> ticks w \<le> ticks w' \<Longrightarrow> readings w' \<subseteq> readings w"
  using order_trans by (fastforce simp: readings_def)

lemma readings_wstore [simp]: "readings (w\<lparr>wstore := s\<rparr>) = readings w"
  by (simp add: readings_def)

text \<open>Executed at one of the given instants, with the result of the executor.\<close>

definition executed_as :: "service \<Rightarrow> executor \<Rightarrow> time set \<Rightarrow> request \<Rightarrow> request \<Rightarrow> bool" where
  "executed_as svc ex T q q' \<longleftrightarrow>
     (\<exists>t \<in> T. q' = (case ex q of None \<Rightarrow> executionApplied svc True [] t q
                           | Some msg \<Rightarrow> executionApplied svc False msg t q))"

lemma executed_as_mono: "executed_as svc ex T q q' \<Longrightarrow> T \<subseteq> U \<Longrightarrow> executed_as svc ex U q q'"
  by (auto simp: executed_as_def)

definition execution_job :: "executor \<Rightarrow> request \<Rightarrow> job_run \<Rightarrow> bool" where
  "execution_job ex q j \<longleftrightarrow>
     job_RequestID j = ReqID q \<and> job_JobType j = ''execution'' \<and> job_Attempt j = ExecutionAttempts q + 1 \<and>
     (case ex q of None \<Rightarrow> job_Status j = ''succeeded'' | Some msg \<Rightarrow> job_Status j = ''failed'' \<and> job_Message j = msg)"

lemma run_execute_one:
  assumes "mem_view (wstore w) (ReqID q) = Some q" and "executable q"
  shows "\<exists>w1 q' j. run mem_ops ex (executeLoop svc now (q # qs)) w = run mem_ops ex (executeLoop svc now qs) w1 \<and>
    executed w1 = executed w @ [q] \<and> readings w1 \<subseteq> readings w \<and>
    mem_view (wstore w1) = (mem_view (wstore w))(ReqID q \<mapsto> q') \<and> executed_as svc ex (readings w) q q' \<and>
    mem_jobRuns (wstore w1) = (mem_jobRuns (wstore w))(ReqID q := mem_jobRuns (wstore w) (ReqID q) @ [j]) \<and>
    execution_job ex q j \<and>
    trail (wstore w1) = (trail (wstore w))(ReqID q := trail (wstore w) (ReqID q) @
      [result_line systemActor (ex q = None) (case ex q of None \<Rightarrow> [] | Some msg \<Rightarrow> msg)])"
proof -
  let ?w0 = "after_draw w\<lparr>executed := executed w @ [q]\<rparr>"
  define success where "success \<longleftrightarrow> ex q = None"
  define msg where "msg = (case ex q of None \<Rightarrow> [] | Some m \<Rightarrow> m)"
  define j where "j = \<lparr>job_ID = draw_id ''job'' w, job_RequestID = ReqID q, job_JobType = ''execution'',
    job_Status = if success then ''succeeded'' else ''failed'', job_Attempt = ExecutionAttempts q + 1,
    job_Message = if success then ''execution completed'' else msg, job_ExecutedAt = now\<rparr>"
  have v: "mem_view (wstore ?w0) (ReqID q) = Some q" using assms(1) by simp
  have w0: "clock ?w0 = clock w" "ticks w \<le> ticks ?w0" by (simp_all add: ticks_after_draw)
  have now: "clock ?w0 (ticks ?w0) \<in> readings w"
    using w0 by (auto simp: readings_def)
  obtain w1 where w1: "run mem_ops ex (applyExecutionResult svc q systemActor success msg) ?w0 =
      (Inr (executionApplied svc success msg (clock ?w0 (ticks ?w0)) q), w1)"
    "mem_view (wstore w1) = (mem_view (wstore ?w0))(ReqID q \<mapsto> executionApplied svc success msg (clock ?w0 (ticks ?w0)) q)"
    "mem_jobRuns (wstore w1) = mem_jobRuns (wstore ?w0)" "executed w1 = executed ?w0"
    "trail (wstore w1) = (trail (wstore ?w0))(ReqID q := trail (wstore ?w0) (ReqID q) @ [result_line systemActor success msg])"
    using run_applyExecutionResult [OF v assms(2), of ex svc systemActor success msg] by blast
  have "run mem_ops ex (executeLoop svc now (q # qs)) w =
      run mem_ops ex (executeLoop svc now qs) (w1\<lparr>wstore := add_job j (wstore w1)\<rparr>)"
    using w1(1) by (cases "ex q") (simp_all add: mem_exec Let_def success_def msg_def j_def)
  moreover have "executed_as svc ex (readings w) q (executionApplied svc success msg (clock ?w0 (ticks ?w0)) q)"
    using now by (auto simp: executed_as_def success_def msg_def split: option.split)
  moreover have "readings w1 \<subseteq> readings w"
    using run_time [OF w1(1)] w0 by (intro readings_mono) auto
  moreover have "execution_job ex q j"
    by (simp add: execution_job_def j_def success_def msg_def split: option.split)
  moreover have "job_RequestID j = ReqID q" by (simp add: j_def)
  ultimately show ?thesis
    using w1(2-5) by (intro exI [of _ "w1\<lparr>wstore := add_job j (wstore w1)\<rparr>"] exI [of _ "executionApplied svc success msg (clock ?w0 (ticks ?w0)) q"] exI [of _ j]) (simp add: success_def msg_def)
qed

lemma run_executeLoop:
  assumes "distinct (map ReqID qs)" and "set qs \<subseteq> all_due executable (wstore w)"
  shows "\<exists>w'. run mem_ops ex (executeLoop svc now qs) w = (None, w') \<and> executed w' = executed w @ qs \<and>
    pass_done (executed_as svc ex (readings w)) (execution_job ex) qs (wstore w) (wstore w')"
  using assms
proof (induction qs arbitrary: w)
  case Nil
  then show ?case by (simp add: mem_exec)
next
  case (Cons q qs)
  then have q: "mem_view (wstore w) (ReqID q) = Some q" "executable q" by (auto simp: all_due_def)
  from run_execute_one [OF q, of ex svc now qs] obtain w1 q' j where
    w1: "run mem_ops ex (executeLoop svc now (q # qs)) w = run mem_ops ex (executeLoop svc now qs) w1"
      "executed w1 = executed w @ [q]" "readings w1 \<subseteq> readings w"
      "mem_view (wstore w1) = (mem_view (wstore w))(ReqID q \<mapsto> q')" "executed_as svc ex (readings w) q q'"
      "mem_jobRuns (wstore w1) = (mem_jobRuns (wstore w))(ReqID q := mem_jobRuns (wstore w) (ReqID q) @ [j])"
      "execution_job ex q j" by blast
  have new: "ReqID q \<notin> ReqID ` set qs" using Cons.prems(1) by simp
  have "set qs \<subseteq> all_due executable (wstore w1)"
    using Cons.prems(2) new w1(4) by (rule all_due_rest)
  with Cons.IH [of w1] Cons.prems(1) obtain w' where
    w': "run mem_ops ex (executeLoop svc now qs) w1 = (None, w')" "executed w' = executed w1 @ qs"
      "pass_done (executed_as svc ex (readings w1)) (execution_job ex) qs (wstore w1) (wstore w')" by auto
  have "pass_done (executed_as svc ex (readings w)) (execution_job ex) qs (wstore w1) (wstore w')"
    using w'(3) executed_as_mono [OF _ w1(3)] by (rule pass_done_mono)
  from pass_done_Cons [OF this new w1(4,5,6,7)]
  have "pass_done (executed_as svc ex (readings w)) (execution_job ex) (q # qs) (wstore w) (wstore w')" .
  with w1(1,2) w'(1,2) show ?case by simp
qed

lemma run_ProcessDueExecutions:
  "run mem_ops ex (ProcessDueExecutions svc limit) w =
     run mem_ops ex (executeLoop svc (clock w (ticks w))
         (collect_upto (mem_ready (clock w (ticks w))) (sint limit) [] (range_requests (wstore w))))
       (w\<lparr>ticks := ticks w + 1, wstore := after_loop (wstore w)\<rparr>)"
  by (simp add: ProcessDueExecutions_def run.simps mem_ListRequestsReadyForExecution_def)

lemma run_execution_pass:
  assumes "mem_inv (wstore w)" and "0 < sint limit"
  shows "\<exists>qs w'. run mem_ops ex (ProcessDueExecutions svc limit) w = (None, w') \<and>
    distinct (map ReqID qs) \<and> set qs \<subseteq> all_due (mem_ready (clock w (ticks w))) (wstore w) \<and>
    length qs = min (nat (sint limit)) (card (all_due (mem_ready (clock w (ticks w))) (wstore w))) \<and>
    executed w' = executed w @ qs \<and>
    pass_done (executed_as svc ex (readings w)) (execution_job ex) qs (wstore w) (wstore w')"
proof -
  let ?now = "clock w (ticks w)"
  let ?qs = "collect_upto (mem_ready ?now) (sint limit) [] (range_requests (wstore w))"
  let ?w1 = "w\<lparr>ticks := ticks w + 1, wstore := after_loop (wstore w)\<rparr>"
  note sel = selection [OF assms(1) refl, of "mem_ready ?now" "sint limit"]
  have "all_due (mem_ready ?now) (wstore w) \<subseteq> all_due executable (wstore ?w1)"
    by (auto simp: all_due_def mem_ready_def executable_def)
  with run_executeLoop [OF sel(1), of ?w1 ex svc ?now] sel(2) obtain w' where
    *: "run mem_ops ex (executeLoop svc ?now ?qs) ?w1 = (None, w')" "executed w' = executed ?w1 @ ?qs"
    and p: "pass_done (executed_as svc ex (readings ?w1)) (execution_job ex) ?qs (wstore ?w1) (wstore w')" by blast
  have "readings ?w1 \<subseteq> readings w" by (rule readings_mono) simp_all
  from pass_done_mono [OF p executed_as_mono [OF _ this]]
  have "pass_done (executed_as svc ex (readings w)) (execution_job ex) ?qs (wstore ?w1) (wstore w')" .
  moreover note *
  moreover have "run mem_ops ex (ProcessDueExecutions svc limit) w = run mem_ops ex (executeLoop svc ?now ?qs) ?w1"
    by (rule run_ProcessDueExecutions)
  moreover have "mem_jobRuns (wstore ?w1) = mem_jobRuns (wstore w)" by (simp add: after_loop_def)
  ultimately show ?thesis
    using sel assms(2) by (intro exI [of _ ?qs] exI [of _ w']) (simp add: pass_done_def)
qed

subsection \<open>Reminders\<close>

definition reminded_as :: "time \<Rightarrow> request \<Rightarrow> request \<Rightarrow> bool" where
  "reminded_as now q q' \<longleftrightarrow> q' = reminded now q"

definition reminder_job :: "request \<Rightarrow> job_run \<Rightarrow> bool" where
  "reminder_job q j \<longleftrightarrow>
     job_RequestID j = ReqID q \<and> job_JobType j = ''reminder'' \<and> job_Status j = ''succeeded'' \<and>
     job_Attempt j = ReminderCount q + 1"

lemma run_remind_one:
  assumes "mem_view (wstore w) (ReqID q) = Some q"
  shows "\<exists>w1 j. run mem_ops ex (remindLoop now (q # qs)) w = run mem_ops ex (remindLoop now qs) w1 \<and>
    mem_view (wstore w1) = (mem_view (wstore w))(ReqID q \<mapsto> reminded now q) \<and>
    mem_jobRuns (wstore w1) = (mem_jobRuns (wstore w))(ReqID q := mem_jobRuns (wstore w) (ReqID q) @ [j]) \<and>
    reminder_job q j"
proof -
  let ?q' = "reminded now q"
  let ?w1 = "logged ?q' systemActor ''reminder_sent'' ''review reminder generated'' (w\<lparr>wstore := put ?q' (wstore w)\<rparr>)"
  define j where "j = \<lparr>job_ID = draw_id ''job'' ?w1, job_RequestID = ReqID q, job_JobType = ''reminder'',
    job_Status = ''succeeded'', job_Attempt = ReminderCount q + 1, job_Message = ''reminder recorded'',
    job_ExecutedAt = now\<rparr>"
  let ?w2 = "after_draw ?w1\<lparr>wstore := add_job j (wstore ?w1)\<rparr>"
  have count: "ReminderCount ?q' = ReminderCount q + 1" by (simp add: reminded_def)
  have "run mem_ops ex (remindLoop now (q # qs)) w = run mem_ops ex (remindLoop now qs) ?w2"
    using assms by (simp add: mem_exec Let_def j_def count)
  moreover have "reminder_job q j" "job_RequestID j = ReqID q" by (simp_all add: reminder_job_def j_def)
  ultimately show ?thesis by (intro exI [of _ ?w2] exI [of _ j]) simp
qed

lemma run_remindLoop:
  assumes "distinct (map ReqID qs)" and "set qs \<subseteq> all_due P (wstore w)"
  shows "\<exists>w'. run mem_ops ex (remindLoop now qs) w = (None, w') \<and>
    pass_done (reminded_as now) reminder_job qs (wstore w) (wstore w')"
  using assms
proof (induction qs arbitrary: w)
  case Nil
  then show ?case by (simp add: mem_exec)
next
  case (Cons q qs)
  then have "mem_view (wstore w) (ReqID q) = Some q" by (auto simp: all_due_def)
  from run_remind_one [OF this, of ex now qs] obtain w1 j where
    w1: "run mem_ops ex (remindLoop now (q # qs)) w = run mem_ops ex (remindLoop now qs) w1"
      "mem_view (wstore w1) = (mem_view (wstore w))(ReqID q \<mapsto> reminded now q)"
      "mem_jobRuns (wstore w1) = (mem_jobRuns (wstore w))(ReqID q := mem_jobRuns (wstore w) (ReqID q) @ [j])"
      "reminder_job q j" by blast
  have new: "ReqID q \<notin> ReqID ` set qs" using Cons.prems(1) by simp
  have "set qs \<subseteq> all_due P (wstore w1)"
    using Cons.prems(2) new w1(2) by (rule all_due_rest)
  with Cons.IH [of w1] Cons.prems(1) obtain w' where
    w': "run mem_ops ex (remindLoop now qs) w1 = (None, w')"
      "pass_done (reminded_as now) reminder_job qs (wstore w1) (wstore w')" by auto
  have "pass_done (reminded_as now) reminder_job (q # qs) (wstore w) (wstore w')"
    by (rule pass_done_Cons [OF w'(2) new w1(2) _ w1(3,4)]) (simp add: reminded_as_def)
  with w1(1) w'(1) show ?case by simp
qed

text \<open>When a request is due for a reminder, in terms of the configured delay.\<close>

definition overdue :: "service \<Rightarrow> time \<Rightarrow> request \<Rightarrow> bool" where
  "overdue svc now q \<longleftrightarrow> mem_needs_reminder (time_add now (- reminderAfter svc)) q"

lemma run_reminder_pass:
  assumes "mem_inv (wstore w)" and "0 < sint limit"
  shows "\<exists>qs w'. run mem_ops ex (ProcessDueReminders svc limit) w = (None, w') \<and>
    distinct (map ReqID qs) \<and> set qs \<subseteq> all_due (overdue svc (clock w (ticks w))) (wstore w) \<and>
    length qs = min (nat (sint limit)) (card (all_due (overdue svc (clock w (ticks w))) (wstore w))) \<and>
    pass_done (reminded_as (clock w (ticks w))) reminder_job qs (wstore w) (wstore w')"
proof -
  let ?now = "clock w (ticks w)"
  let ?qs = "collect_upto (overdue svc ?now) (sint limit) [] (range_requests (wstore w))"
  let ?w1 = "w\<lparr>ticks := ticks w + 1, wstore := after_loop (wstore w)\<rparr>"
  note sel = selection [OF assms(1) refl, of "overdue svc ?now" "sint limit"]
  have "all_due (overdue svc ?now) (wstore w) = all_due (overdue svc ?now) (wstore ?w1)"
    by (simp add: all_due_def)
  with run_remindLoop [OF sel(1), of "overdue svc ?now" ?w1 ex ?now] sel(2) obtain w' where
    "run mem_ops ex (remindLoop ?now ?qs) ?w1 = (None, w')"
    "pass_done (reminded_as ?now) reminder_job ?qs (wstore ?w1) (wstore w')" by auto
  moreover have "run mem_ops ex (ProcessDueReminders svc limit) w = run mem_ops ex (remindLoop ?now ?qs) ?w1"
    by (simp add: ProcessDueReminders_def run.simps mem_ListRequestsNeedingReminder_def overdue_def [abs_def])
  moreover have "mem_jobRuns (wstore ?w1) = mem_jobRuns (wstore w)" by (simp add: after_loop_def)
  ultimately show ?thesis
    using sel assms(2) by (intro exI [of _ ?qs] exI [of _ w']) (simp add: pass_done_def)
qed

end
