(* ===== verification/ServiceProperties.thy ===== *)
theory ServiceProperties
  imports Passes Sample
begin

text \<open>
  The effect of the service's methods, run alone on the in-memory store, on every branch.
\<close>

declare run.simps [simp del]

text \<open>Concrete worlds for the witnesses: one request in the table, no keys used yet.\<close>

definition holding :: "request \<Rightarrow> mem world" where
  "holding q = sample_world (sample_mem\<lparr>mem_requests := [(''req_00'', q)]\<rparr>) 20 0 []"

lemma sample_mem_sel [simp]:
  "mem_inv sample_mem" "mem_view sample_mem = Map.empty" "mem_idem sample_mem = (\<lambda>_ _. None)"
  "trail sample_mem = (\<lambda>_. [])" "key_payload sample_mem = (\<lambda>_ _. None)"
  by (simp_all add: sample_mem_def NewStore_def mem_inv_def mem_view_def mem_idem_def trail_def
      key_payload_def fun_eq_iff)

lemma holding_sel [simp]:
  "mem_view (wstore (holding q)) = [''req_00'' \<mapsto> q]" "mem_idem (wstore (holding q)) = (\<lambda>_ _. None)"
  "key_payload (wstore (holding q)) sc k = None" "clock (holding q) = int" "ticks (holding q) = 20"
  "mem_inv (wstore (holding q)) \<longleftrightarrow> ReqID q = ''req_00''"
  by (auto simp: holding_def sample_world_def mem_view_def key_payload_def mem_idem_def mem_inv_def
      sample_mem_def NewStore_def fun_eq_iff)

lemma sample_fields [simp]:
  "ReqID sample_q1 = ''req_00''" "ReqID sample_q2 = ''req_00''" "ReqID sample_q3 = ''req_00''"
  "Status sample_q1 = StatusDraft" "Status sample_q2 = StatusPendingReview" "Status sample_q3 = StatusApproved"
  "RequesterID sample_q1 = ''emp''" "RequesterID sample_q2 = ''emp''" "RequesterID sample_q3 = ''emp''"
  "AssignedReviewerID sample_q2 = ''boss''" "AssignedReviewerID sample_q3 = ''boss''"
  by (simp_all add: sample_rows)

lemma sample_actors [simp]:
  "act_ID employee = ''emp''" "act_Role employee = RoleEmployee"
  "act_ID reviewer = ''boss''" "act_Role reviewer = RoleReviewer"
  "ValidateActor employee = None" "ValidateActor reviewer = None"
  by (simp_all add: employee_def reviewer_def ValidateActor_def)

subsection \<open>Drafts\<close>

lemma exec_CreateDraft:
  assumes "ValidateActor a = None" and "trim_space (in_Type inp) \<noteq> []"
    and "trim_space (in_TargetResource inp) \<noteq> []" and "trim_space (in_Justification inp) \<noteq> []"
    and "q = zero_request\<lparr>ReqID := NewID_of ''req'' (entropy w (draws w)) (clock w (ticks w + 1)),
      ReqType := trim_space (in_Type inp), TargetResource := trim_space (in_TargetResource inp),
      Justification := trim_space (in_Justification inp), RequesterID := act_ID a, Status := StatusDraft,
      Version := 1, CreatedAt := clock w (ticks w), UpdatedAt := clock w (ticks w)\<rparr>"
  shows "run mem_ops ex (CreateDraft a inp) w =
      (Inr q, logged q a ''draft_created'' ''draft request created''
        (after_draw (w\<lparr>ticks := ticks w + 1\<rparr>)\<lparr>wstore := put q (wstore w)\<rparr>))"
    and "is_draft_of a inp q"
  using assms by (simp_all add: CreateDraft_def mem_exec is_draft_of_def zero_request_def draw_id_def Let_def)

lemma run_CreateDraft:
  assumes "ValidateActor a = None" and "trim_space (in_Type inp) \<noteq> []"
    and "trim_space (in_TargetResource inp) \<noteq> []" and "trim_space (in_Justification inp) \<noteq> []"
  shows "\<exists>q w'. run mem_ops ex (CreateDraft a inp) w = (Inr q, w') \<and> is_draft_of a inp q \<and> executed w' = executed w \<and>
    mem_view (wstore w') = (mem_view (wstore w))(ReqID q \<mapsto> q) \<and>
    mem_idem (wstore w') = mem_idem (wstore w) \<and>
    trail (wstore w') = (trail (wstore w))(ReqID q := trail (wstore w) (ReqID q) @
      [(act_ID a, act_Role a, ''draft_created'', ''draft request created'')])"
  using exec_CreateDraft(1) [OF assms refl, of ex w] exec_CreateDraft(2) [OF assms refl, of w] by simp

text \<open>
  C25: Over the in-memory store, creating a draft with a valid actor and non-blank fields
  stores a coherent draft of the trimmed fields under the id it draws, appends one audit entry
  and changes nothing else. Nothing checks that the id is new: a request stored under it
  before would be replaced.
\<close>

theorem create_draft_effect:
  assumes "ValidateActor a = None" and "trim_space (in_Type inp) \<noteq> []"
    and "trim_space (in_TargetResource inp) \<noteq> []" and "trim_space (in_Justification inp) \<noteq> []"
  shows "\<exists>q w' e. run mem_ops ex (CreateDraft a inp) w = (Inr q, w') \<and> is_draft_of a inp q \<and>
    ReqID q = NewID_of ''req'' (entropy w (draws w)) (clock w (ticks w + 1)) \<and>
    ReqType q = trim_space (in_Type inp) \<and> TargetResource q = trim_space (in_TargetResource inp) \<and>
    Justification q = trim_space (in_Justification inp) \<and> CreatedAt q = clock w (ticks w) \<and>
    wstore w' = (wstore w)
      \<lparr>mem_requests := AList.update (ReqID q) q (mem_requests (wstore w)),
       mem_audit := (mem_audit (wstore w))(ReqID q := mem_audit (wstore w) (ReqID q) @ [e])\<rparr> \<and>
    audit_line e = (act_ID a, act_Role a, ''draft_created'', ''draft request created'') \<and>
    mem_view (wstore w') = (mem_view (wstore w))(ReqID q \<mapsto> q) \<and> executed w' = executed w"
proof -
  define q where "q = zero_request\<lparr>ReqID := NewID_of ''req'' (entropy w (draws w)) (clock w (ticks w + 1)),
      ReqType := trim_space (in_Type inp), TargetResource := trim_space (in_TargetResource inp),
      Justification := trim_space (in_Justification inp), RequesterID := act_ID a, Status := StatusDraft,
      Version := 1, CreatedAt := clock w (ticks w), UpdatedAt := clock w (ticks w)\<rparr>"
  define w1 where "w1 = after_draw (w\<lparr>ticks := ticks w + 1\<rparr>)\<lparr>wstore := put q (wstore w)\<rparr>"
  define w' where "w' = logged q a ''draft_created'' ''draft request created'' w1"
  note run = exec_CreateDraft(1) [OF assms q_def, of ex, folded w1_def, folded w'_def]
    exec_CreateDraft(2) [OF assms q_def]
  have q: "ReqID q = NewID_of ''req'' (entropy w (draws w)) (clock w (ticks w + 1))"
    "ReqType q = trim_space (in_Type inp)" "TargetResource q = trim_space (in_TargetResource inp)"
    "Justification q = trim_space (in_Justification inp)" "CreatedAt q = clock w (ticks w)"
    by (simp_all add: q_def)
  obtain e where e: "wstore w' = add_audit e (wstore w1)" "aud_RequestID e = ReqID q"
    "audit_line e = (act_ID a, act_Role a, ''draft_created'', ''draft request created'')"
    using store_logged [of q a _ _ w1] unfolding w'_def by blast
  have "wstore w' = (wstore w)
      \<lparr>mem_requests := AList.update (ReqID q) q (mem_requests (wstore w)),
       mem_audit := (mem_audit (wstore w))(ReqID q := mem_audit (wstore w) (ReqID q) @ [e])\<rparr>"
    using e(1,2) by (simp add: w1_def add_audit_def put_def)
  moreover have "mem_view (wstore w') = (mem_view (wstore w))(ReqID q \<mapsto> q)" "executed w' = executed w"
    by (simp_all add: w'_def w1_def)
  ultimately show ?thesis using run q e(3) by blast
qed

theorem create_draft_effect_witness:
  "\<exists>q w'. run mem_ops SimulatedExecutor (CreateDraft employee
       \<lparr>in_Type = ''vm'', in_TargetResource = ''prod'', in_Justification = ''need''\<rparr>) (sample_world sample_mem 0 0 []) =
     (Inr q, w') \<and> ReqType q = ''vm'' \<and> mem_view (wstore w') = [ReqID q \<mapsto> q]"
  using create_draft_effect [of employee "\<lparr>in_Type = ''vm'', in_TargetResource = ''prod'', in_Justification = ''need''\<rparr>"
      SimulatedExecutor "sample_world sample_mem 0 0 []"]
  by (auto simp: sample_world_def)

text \<open>
  C26: Creating a draft with an invalid actor or a blank field is refused as invalid input
  before any call on the store, whatever the store.
\<close>

theorem create_draft_refused:
  assumes "ValidateActor a \<noteq> None \<or> trim_space (in_Type inp) = [] \<or>
    trim_space (in_TargetResource inp) = [] \<or> trim_space (in_Justification inp) = []"
  shows "\<exists>d. run ops ex (CreateDraft a inp) w = (Inl (Wrap ErrInvalidInput d), w)"
  using assms by (auto simp: CreateDraft_def run_pure split: option.splits)

theorem create_draft_refused_witness:
  "\<exists>d. run pg_ops SimulatedExecutor (CreateDraft employee
       \<lparr>in_Type = ''vm'', in_TargetResource = [], in_Justification = ''need''\<rparr>) sample_start =
     (Inl (Wrap ErrInvalidInput d), sample_start)"
  by (rule create_draft_refused) simp

subsection \<open>Submission\<close>

lemma run_SubmitRequest:
  assumes "mem_view (wstore w) i = Some q" and "ReqID q = i" and "Status q = StatusDraft"
    and "act_Role a = RoleAdmin \<or> RequesterID q = act_ID a"
    and "trim_space key \<noteq> []" and "key_payload (wstore w) (''submit:'' @ i) key = None"
  shows "\<exists>w'. run mem_ops ex (SubmitRequest svc a i key) w = (Inr (submitted svc (clock w (ticks w + 1)) q), w') \<and> executed w' = executed w \<and>
    mem_view (wstore w') = (mem_view (wstore w))(i \<mapsto> submitted svc (clock w (ticks w + 1)) q) \<and>
    key_payload (wstore w') (''submit:'' @ i) key = Some (act_ID a) \<and>
    (\<forall>j k. key_payload (wstore w') (''approved:'' @ j) k = key_payload (wstore w) (''approved:'' @ j) k) \<and>
    trail (wstore w') = (trail (wstore w))(i := trail (wstore w) i @
      [(act_ID a, act_Role a, ''submitted'', ''request submitted for review''),
       (''system'', RoleAdmin, ''review_assigned'', ''request assigned to reviewer'')])"
proof -
  let ?q' = "submitted svc (clock w (ticks w + 1)) q"
  let ?w1 = "new_key (''submit:'' @ i) key i (act_ID a) w"
  have "run mem_ops ex (SubmitRequest svc a i key) w =
    (Inr ?q', logged ?q' systemActor ''review_assigned'' ''request assigned to reviewer''
       (logged ?q' a ''submitted'' ''request submitted for review''
         (?w1\<lparr>ticks := ticks w + 2, wstore := put ?q' (wstore ?w1)\<rparr>)))"
    using assms by (simp add: SubmitRequest_def requireOwnedOrAdmin_def mem_exec Let_def)
  then show ?thesis
    using assms(2) by (simp add: systemActor_def new_key_other [simplified])
qed

text \<open>
  C16: Submitting a draft with a new key by its owner or an administrator stores it as pending
  review of the default reviewer, records the key under the submitter, and appends the
  submission and the assignment to the audit log.
\<close>

theorem submit_effect:
  assumes "mem_view (wstore w) i = Some q" and "ReqID q = i" and "Status q = StatusDraft"
    and "act_Role a = RoleAdmin \<or> RequesterID q = act_ID a"
    and "trim_space key \<noteq> []" and "key_payload (wstore w) (''submit:'' @ i) key = None"
  shows "\<exists>w'. let t = clock w (ticks w + 1);
      q' = q\<lparr>Status := StatusPendingReview, AssignedReviewerID := defaultReviewerID svc,
              SubmittedAt := Some t, UpdatedAt := t, Version := Version q + 1\<rparr> in
    run mem_ops ex (SubmitRequest svc a i key) w = (Inr q', w') \<and>
    mem_view (wstore w') = (mem_view (wstore w))(i \<mapsto> q') \<and>
    key_payload (wstore w') (''submit:'' @ i) key = Some (act_ID a) \<and>
    trail (wstore w') = (trail (wstore w))(i := trail (wstore w) i @
      [(act_ID a, act_Role a, ''submitted'', ''request submitted for review''),
       (''system'', RoleAdmin, ''review_assigned'', ''request assigned to reviewer'')])"
  using run_SubmitRequest [OF assms, of ex svc] unfolding submitted_def Let_def by blast

theorem submit_effect_witness:
  "\<exists>w'. run mem_ops SimulatedExecutor (SubmitRequest sample_service employee ''req_00'' ''k1'') (holding sample_q1) =
     (Inr (submitted sample_service 21 sample_q1), w') \<and>
     key_payload (wstore w') ''submit:req_00'' ''k1'' = Some ''emp''"
  using submit_effect [of "holding sample_q1" "''req_00''" sample_q1 employee "''k1''" sample_service SimulatedExecutor]
  by (auto simp: submitted_def Let_def)

lemma mem_inv_id: "mem_inv s \<Longrightarrow> mem_view s i = Some q \<Longrightarrow> ReqID q = i"
  by (rule memory.view_id)

lemma submit_answers:
  assumes "mem_inv (wstore w)" and "run mem_ops ex (SubmitRequest svc a i key) w = (Inr q1, w1)"
  shows "mem_view (wstore w1) i = Some q1 \<and> (act_Role a = RoleAdmin \<or> RequesterID q1 = act_ID a) \<and>
    trim_space key \<noteq> [] \<and> key_payload (wstore w1) (''submit:'' @ i) key = Some (act_ID a)"
proof (cases "mem_view (wstore w) i")
  case None
  with assms(2) show ?thesis by (simp add: SubmitRequest_def requireOwnedOrAdmin_def mem_exec)
next
  case (Some q)
  note id = mem_inv_id [OF assms(1) Some]
  show ?thesis
  proof (cases "key_payload (wstore w) (''submit:'' @ i) key")
    case None
    show ?thesis
    proof (cases "(act_Role a = RoleAdmin \<or> RequesterID q = act_ID a) \<and> trim_space key \<noteq> [] \<and> Status q = StatusDraft")
      case True
      with run_SubmitRequest [OF Some id, of a key ex svc] None assms(2) show ?thesis
        by (auto simp: submitted_def)
    next
      case False
      with Some None assms(2) show ?thesis
        by (auto simp: SubmitRequest_def requireOwnedOrAdmin_def mem_exec Let_def split: if_splits)
    qed
  next
    case key: (Some rec)
    with Some assms(2) show ?thesis
      by (auto simp: SubmitRequest_def requireOwnedOrAdmin_def mem_exec Let_def split: if_splits)
  qed
qed

text \<open>
  C17: A submission that succeeded can be repeated with the same key: the repetition returns
  the same request and changes nothing at all.
\<close>

theorem submit_idempotent:
  assumes "mem_inv (wstore w)" and "run mem_ops ex (SubmitRequest svc a i key) w = (Inr q1, w1)"
  shows "run mem_ops ex (SubmitRequest svc a i key) w1 = (Inr q1, w1)"
  using submit_answers [OF assms]
  by (auto simp: SubmitRequest_def requireOwnedOrAdmin_def mem_exec Let_def)

theorem submit_idempotent_witness:
  "\<exists>q1 w1. run mem_ops SimulatedExecutor (SubmitRequest sample_service employee ''req_00'' ''k1'') (holding sample_q1) =
     (Inr q1, w1) \<and>
     run mem_ops SimulatedExecutor (SubmitRequest sample_service employee ''req_00'' ''k1'') w1 = (Inr q1, w1)"
proof -
  obtain w1 where "run mem_ops SimulatedExecutor (SubmitRequest sample_service employee ''req_00'' ''k1'') (holding sample_q1) =
      (Inr (submitted sample_service 21 sample_q1), w1)"
    using run_SubmitRequest [of "holding sample_q1" "''req_00''" sample_q1 employee "''k1''" SimulatedExecutor sample_service]
    by auto
  moreover from submit_idempotent [OF _ this] have
    "run mem_ops SimulatedExecutor (SubmitRequest sample_service employee ''req_00'' ''k1'') w1 =
      (Inr (submitted sample_service 21 sample_q1), w1)" by simp
  ultimately show ?thesis by blast
qed

theorem submit_foreign_key:
  assumes "mem_view (wstore w) i = Some q" and "act_Role a = RoleAdmin \<or> RequesterID q = act_ID a"
    and "trim_space key \<noteq> []" and "key_payload (wstore w) (''submit:'' @ i) key = Some p" and "p \<noteq> act_ID a"
  shows "run mem_ops ex (SubmitRequest svc a i key) w = (Inl (Sentinel ErrIdempotencyKeyUsed), w)"
  using assms by (auto simp: SubmitRequest_def requireOwnedOrAdmin_def mem_exec Let_def)

theorem submit_foreign_key_witness:
  "\<exists>w. mem_view (wstore w) ''req_00'' = Some sample_q1 \<and>
     run mem_ops SimulatedExecutor (SubmitRequest sample_service employee ''req_00'' ''k1'') w =
       (Inl (Sentinel ErrIdempotencyKeyUsed), w)"
proof -
  let ?w = "new_key (''submit:'' @ ''req_00'') ''k1'' ''req_00'' ''root'' (holding sample_q1)"
  have v: "mem_view (wstore ?w) ''req_00'' = Some sample_q1" by simp
  have k: "key_payload (wstore ?w) (''submit:'' @ ''req_00'') ''k1'' = Some ''root''" by (rule key_payload_sel(5))
  from v submit_foreign_key [OF v, of employee "''k1''" "''root''" SimulatedExecutor sample_service] k
  show ?thesis by (intro exI [of _ ?w]) simp
qed

text \<open>
  C18: A submission that fails because the request is no draft has already recorded its key,
  so the very same call repeated reports success with the unchanged request.
\<close>

theorem submit_burns_key:
  assumes "mem_view (wstore w) i = Some q" and "act_Role a = RoleAdmin \<or> RequesterID q = act_ID a"
    and "trim_space key \<noteq> []" and "key_payload (wstore w) (''submit:'' @ i) key = None" and "Status q \<noteq> StatusDraft"
  shows "\<exists>d w1. run mem_ops ex (SubmitRequest svc a i key) w = (Inl (Wrap ErrConflict d), w1) \<and>
    run mem_ops ex (SubmitRequest svc a i key) w1 = (Inr q, w1)"
  using assms by (simp add: SubmitRequest_def requireOwnedOrAdmin_def mem_exec Let_def)

theorem submit_burns_key_witness:
  "\<exists>d w1. run mem_ops SimulatedExecutor (SubmitRequest sample_service employee ''req_00'' ''k1'') (holding sample_q2) =
     (Inl (Wrap ErrConflict d), w1) \<and>
     run mem_ops SimulatedExecutor (SubmitRequest sample_service employee ''req_00'' ''k1'') w1 = (Inr sample_q2, w1)"
  by (rule submit_burns_key) simp_all

subsection \<open>Review\<close>

definition decided :: "string \<Rightarrow> status" where
  "decided decision = (if decision = ''approved'' then StatusApproved else StatusRejected)"

text \<open>The world after a review with a new key.\<close>

definition after_review ::
  "request \<Rightarrow> actor \<Rightarrow> string \<Rightarrow> string \<Rightarrow> string \<Rightarrow> mem world \<Rightarrow> mem world" where
  "after_review q a key decision comment w =
     (let i = ReqID q; t = clock w (ticks w + 1); q' = reviewed decision t q;
          w1 = new_key (decision @ '':'' @ i) key i (fingerprint [decision, comment]) w;
          w2 = w1\<lparr>ticks := ticks w + 2, wstore := put q' (wstore w1)\<rparr>;
          v = \<lparr>rev_ID = draw_id ''rev'' w2, rev_RequestID = i, rev_Decision = decision,
               rev_Comment = trim_space comment, rev_ActorID = act_ID a, rev_CreatedAt = t\<rparr>
      in logged q' a decision (decisionDescription decision comment)
           (after_draw w2\<lparr>wstore := add_review v (wstore w2)\<rparr>))"

lemma exec_reviewRequest:
  assumes "mem_view (wstore w) i = Some q" and "ReqID q = i" and "Status q = StatusPendingReview"
    and "canReview a q" and "act_ID a \<noteq> RequesterID q" and "trim_space key \<noteq> []"
    and "key_payload (wstore w) (decision @ '':'' @ i) key = None"
  shows "run mem_ops ex (reviewRequest a i key decision comment) w =
    (Inr (reviewed decision (clock w (ticks w + 1)) q), after_review q a key decision comment w)"
  using assms by (simp add: reviewRequest_def mem_exec Let_def after_review_def)

lemma after_review_sel:
  "clock (after_review q a key decision comment w) = clock w"
  "executed (after_review q a key decision comment w) = executed w"
  "mem_view (wstore (after_review q a key decision comment w)) =
     (mem_view (wstore w))(ReqID q \<mapsto> reviewed decision (clock w (ticks w + 1)) q)"
  "key_payload (wstore (after_review q a key decision comment w)) (decision @ '':'' @ ReqID q) key =
     Some (fingerprint [decision, comment])"
  "trail (wstore (after_review q a key decision comment w)) = (trail (wstore w))(ReqID q := trail (wstore w) (ReqID q) @
      [(act_ID a, act_Role a, decision, decisionDescription decision comment)])"
  by (simp_all add: after_review_def Let_def)

lemma after_review_ticks: "ticks w + 2 \<le> ticks (after_review q a key decision comment w)"
proof -
  have "ticks w + 2 \<le> ticks (logged q' a act d (after_draw w2\<lparr>wstore := s\<rparr>))" if "ticks w2 = ticks w + 2"
    for q' act d w2 s
    using ticks_logged [of "after_draw w2\<lparr>wstore := s\<rparr>" q' a act d] ticks_after_draw [of w2] that
    by (simp del: One_nat_def)
  then show ?thesis by (simp add: after_review_def Let_def)
qed

text \<open>The whole store after it.\<close>

lemma after_review_store:
  "\<exists>v e. rev_RequestID v = ReqID q \<and> rev_Decision v = decision \<and> rev_Comment v = trim_space comment \<and>
     rev_ActorID v = act_ID a \<and> rev_CreatedAt v = clock w (ticks w + 1) \<and>
     aud_RequestID e = ReqID q \<and> audit_line e = (act_ID a, act_Role a, decision, decisionDescription decision comment) \<and>
     wstore (after_review q a key decision comment w) =
       add_audit e (add_review v (put (reviewed decision (clock w (ticks w + 1)) q) (keep_key
         \<lparr>idem_Key = key, idem_Scope = decision @ '':'' @ ReqID q, idem_Fingerprint = fingerprint [decision, comment],
          idem_RequestID = ReqID q, idem_CreatedAt = clock w (ticks w)\<rparr> (wstore w))))"
proof -
  let ?q' = "reviewed decision (clock w (ticks w + 1)) q"
  let ?w1 = "new_key (decision @ '':'' @ ReqID q) key (ReqID q) (fingerprint [decision, comment]) w"
  let ?w2 = "?w1\<lparr>ticks := ticks w + 2, wstore := put ?q' (wstore ?w1)\<rparr>"
  let ?v = "\<lparr>rev_ID = draw_id ''rev'' ?w2, rev_RequestID = ReqID q, rev_Decision = decision,
    rev_Comment = trim_space comment, rev_ActorID = act_ID a, rev_CreatedAt = clock w (ticks w + 1)\<rparr>"
  let ?w3 = "after_draw ?w2\<lparr>wstore := add_review ?v (wstore ?w2)\<rparr>"
  obtain e where e: "wstore (logged ?q' a decision (decisionDescription decision comment) ?w3) = add_audit e (wstore ?w3)"
    "aud_RequestID e = ReqID ?q'" "audit_line e = (act_ID a, act_Role a, decision, decisionDescription decision comment)"
    using store_logged by blast
  have "wstore (after_review q a key decision comment w) = add_audit e (wstore ?w3)"
    using e(1) by (simp add: after_review_def Let_def)
  with e(2,3) show ?thesis
    by (intro exI [of _ ?v] exI [of _ e]) (simp add: new_key_def)
qed

lemma run_reviewRequest:
  assumes "mem_view (wstore w) i = Some q" and "ReqID q = i" and "Status q = StatusPendingReview"
    and "canReview a q" and "act_ID a \<noteq> RequesterID q" and "trim_space key \<noteq> []"
    and "key_payload (wstore w) (decision @ '':'' @ i) key = None"
  shows "\<exists>w'. let q' = reviewed decision (clock w (ticks w + 1)) q in
    run mem_ops ex (reviewRequest a i key decision comment) w = (Inr q', w') \<and>
    clock w' = clock w \<and> ticks w + 2 \<le> ticks w' \<and> executed w' = executed w \<and>
    mem_view (wstore w') = (mem_view (wstore w))(i \<mapsto> q') \<and>
    trail (wstore w') = (trail (wstore w))(i := trail (wstore w) i @
      [(act_ID a, act_Role a, decision, decisionDescription decision comment)])"
  using exec_reviewRequest [OF assms, of ex comment] assms(2)
    after_review_sel [of q a key decision comment w] after_review_ticks [of w q a key decision comment]
  by (simp add: Let_def)

text \<open>
  C14: Over the in-memory store, a review with a new key by an entitled reviewer of a pending
  request stores the decided request, records the key with the fingerprint of decision and
  comment, appends one review and one audit entry with the trimmed comment, and changes
  nothing else: no other request, key, audit entry or review, no job record, and the executor
  is not called.
\<close>

theorem review_effect:
  assumes "mem_view (wstore w) i = Some q" and "ReqID q = i" and "Status q = StatusPendingReview"
    and "act_Role a = RoleAdmin \<or> act_Role a = RoleReviewer \<and> AssignedReviewerID q = act_ID a"
    and "act_ID a \<noteq> RequesterID q" and "trim_space key \<noteq> []"
    and "key_payload (wstore w) (decision @ '':'' @ i) key = None"
  shows "\<exists>w' v e. let q' = reviewed decision (clock w (ticks w + 1)) q in
    run mem_ops ex (reviewRequest a i key decision comment) w = (Inr q', w') \<and>
    Status q' = (if decision = ''approved'' then StatusApproved else StatusRejected) \<and> Version q' = Version q + 1 \<and>
    wstore w' = (wstore w)
      \<lparr>mem_requests := AList.update i q' (mem_requests (wstore w)),
       mem_audit := (mem_audit (wstore w))(i := mem_audit (wstore w) i @ [e]),
       mem_reviews := (mem_reviews (wstore w))(i := mem_reviews (wstore w) i @ [v]),
       mem_idempotency := (mem_idempotency (wstore w))(mem_compound (decision @ '':'' @ i) key \<mapsto>
         \<lparr>idem_Key = key, idem_Scope = decision @ '':'' @ i, idem_Fingerprint = fingerprint [decision, comment],
          idem_RequestID = i, idem_CreatedAt = clock w (ticks w)\<rparr>)\<rparr> \<and>
    rev_RequestID v = i \<and> rev_Decision v = decision \<and> rev_Comment v = trim_space comment \<and>
    rev_ActorID v = act_ID a \<and> rev_CreatedAt v = clock w (ticks w + 1) \<and>
    audit_line e = (act_ID a, act_Role a, decision,
      if trim_space comment = [] then decision else decision @ '': '' @ trim_space comment) \<and>
    mem_view (wstore w') = (mem_view (wstore w))(i \<mapsto> q') \<and>
    key_payload (wstore w') (decision @ '':'' @ i) key = Some (fingerprint [decision, comment]) \<and>
    executed w' = executed w"
proof -
  have "canReview a q" using assms(4) by (auto simp: canReview_def)
  note run = exec_reviewRequest [OF assms(1-3) this assms(5-7), of ex comment]
  obtain v e where ve: "rev_RequestID v = i" "rev_Decision v = decision" "rev_Comment v = trim_space comment"
    "rev_ActorID v = act_ID a" "rev_CreatedAt v = clock w (ticks w + 1)" "aud_RequestID e = i"
    "audit_line e = (act_ID a, act_Role a, decision, decisionDescription decision comment)"
    "wstore (after_review q a key decision comment w) =
       add_audit e (add_review v (put (reviewed decision (clock w (ticks w + 1)) q) (keep_key
         \<lparr>idem_Key = key, idem_Scope = decision @ '':'' @ i, idem_Fingerprint = fingerprint [decision, comment],
          idem_RequestID = i, idem_CreatedAt = clock w (ticks w)\<rparr> (wstore w))))"
    using after_review_store [of q decision comment a w key] unfolding assms(2) by blast
  have "ReqID (reviewed decision (clock w (ticks w + 1)) q) = i" using assms(2) by simp
  with run ve after_review_sel [of q a key decision comment w] assms(2) show ?thesis
    by (intro exI [of _ "after_review q a key decision comment w"] exI [of _ v] exI [of _ e])
      (simp add: Let_def decisionDescription_def add_audit_def add_review_def put_def keep_key_def,
       simp add: reviewed_def Let_def)
qed

theorem review_effect_witness:
  "\<exists>w'. run mem_ops SimulatedExecutor (reviewRequest reviewer ''req_00'' ''k2'' ''approved'' []) (holding sample_q2) =
     (Inr (reviewed ''approved'' 21 sample_q2), w') \<and> mem_view (wstore w') = [''req_00'' \<mapsto> reviewed ''approved'' 21 sample_q2]"
  using review_effect [of "holding sample_q2" "''req_00''" sample_q2 reviewer "''k2''" "''approved''" SimulatedExecutor "[]"]
  by (auto simp: canReview_def Let_def)

text \<open>
  C15: Approving or rejecting a pending request is forbidden, and changes nothing, for anybody
  who may not review it and for its own requester, an administrator included.
\<close>

theorem review_refused:
  assumes "mem_view (wstore w) i = Some q" and "Status q = StatusPendingReview"
    and "act_Role a \<noteq> RoleAdmin \<and> (act_Role a \<noteq> RoleReviewer \<or> AssignedReviewerID q \<noteq> act_ID a) \<or>
      act_ID a = RequesterID q"
  shows "run mem_ops ex (ApproveRequest a i key inp) w = (Inl (Sentinel ErrForbidden), w) \<and>
    run mem_ops ex (RejectRequest a i key inp) w = (Inl (Sentinel ErrForbidden), w)"
  using assms by (auto simp: ApproveRequest_def RejectRequest_def reviewRequest_def canReview_def mem_exec)

theorem review_refused_witness:
  "run mem_ops SimulatedExecutor (ApproveRequest employee ''req_00'' ''k2'' \<lparr>in_Comment = []\<rparr>) (holding sample_q2) =
     (Inl (Sentinel ErrForbidden), holding sample_q2)"
  using review_refused [of "holding sample_q2" "''req_00''" sample_q2 employee SimulatedExecutor "''k2''" "\<lparr>in_Comment = []\<rparr>"]
  by simp

text \<open>
  C19: Approving an already approved request with a blank key, or with a key recorded for
  another comment, returns the zero request without an error instead of the error of the key
  check.
\<close>

theorem approve_mismatch_is_success:
  assumes "mem_view (wstore w) i = Some q" and "Status q = StatusApproved"
    and "trim_space key = [] \<or>
      (\<exists>p. key_payload (wstore w) (''approved:'' @ i) key = Some p \<and> p \<noteq> fingerprint [''approved'', in_Comment inp])"
  shows "run mem_ops ex (ApproveRequest a i key inp) w = (Inr zero_request, w)"
  using assms by (auto simp: ApproveRequest_def reviewRequest_def replayDecided_def mem_exec)

theorem approve_mismatch_is_success_witness:
  "run mem_ops SimulatedExecutor (ApproveRequest reviewer ''req_00'' [] \<lparr>in_Comment = []\<rparr>) (holding sample_q3) =
     (Inr zero_request, holding sample_q3)"
  by (rule approve_mismatch_is_success [where q = sample_q3]) simp_all

text \<open>
  C20: An actor to whom reading an approved request is forbidden gets its full contents by
  approving it with a new key: the replay branch makes no authorisation check.
\<close>

theorem approve_discloses:
  assumes "mem_view (wstore w) i = Some q" and "Status q = StatusApproved" and "\<not> canView a q"
    and "trim_space key \<noteq> []" and "key_payload (wstore w) (''approved:'' @ i) key = None"
  shows "run mem_ops ex (Service_GetRequest a i) w = (Inl (Sentinel ErrForbidden), w) \<and>
    fst (run mem_ops ex (ApproveRequest a i key inp) w) = Inr q"
  using assms by (simp add: Service_GetRequest_def ApproveRequest_def reviewRequest_def replayDecided_def mem_exec)

theorem approve_discloses_witness:
  "run mem_ops SimulatedExecutor (Service_GetRequest \<lparr>act_ID = ''eve'', act_Role = RoleEmployee\<rparr> ''req_00'') (holding sample_q3) =
     (Inl (Sentinel ErrForbidden), holding sample_q3) \<and>
   fst (run mem_ops SimulatedExecutor (ApproveRequest \<lparr>act_ID = ''eve'', act_Role = RoleEmployee\<rparr> ''req_00'' ''k2''
     \<lparr>in_Comment = []\<rparr>) (holding sample_q3)) = Inr sample_q3"
  by (rule approve_discloses) (simp_all add: canView_def)

subsection \<open>Execution results\<close>

text \<open>
  C24: Over the in-memory store, an execution result for an executable request is accepted
  from every administrator and from every reviewer, assigned to the request or not, even one
  to whom reading it is forbidden (the documents restrict reviewers to assigned requests): it
  is applied to the stored request and audited, and nothing else changes. From any other role
  it is refused and changes nothing.
\<close>

theorem execution_result_effect:
  assumes "mem_view (wstore w) i = Some q" and "ReqID q = i" and "executable q"
  shows "if act_Role a = RoleAdmin \<or> act_Role a = RoleReviewer
    then \<exists>w' e. let q' = executionApplied svc (in_Success inp) (in_Error inp) (clock w (ticks w)) q in
      run mem_ops ex (RecordExecutionResult svc a i inp) w = (Inr q', w') \<and>
      wstore w' = (wstore w)
        \<lparr>mem_requests := AList.update i q' (mem_requests (wstore w)),
         mem_audit := (mem_audit (wstore w))(i := mem_audit (wstore w) i @ [e])\<rparr> \<and>
      audit_line e = result_line a (in_Success inp) (in_Error inp) \<and>
      mem_view (wstore w') = (mem_view (wstore w))(i \<mapsto> q') \<and> executed w' = executed w \<and>
      (\<not> canView a q \<longrightarrow> run mem_ops ex (Service_GetRequest a i) w = (Inl (Sentinel ErrForbidden), w))
    else run mem_ops ex (RecordExecutionResult svc a i inp) w = (Inl (Sentinel ErrForbidden), w)"
proof (cases "act_Role a = RoleAdmin \<or> act_Role a = RoleReviewer")
  case False
  then show ?thesis by (simp add: RecordExecutionResult_def mem_exec)
next
  case True
  let ?q' = "executionApplied svc (in_Success inp) (in_Error inp) (clock w (ticks w)) q"
  let ?act = "if in_Success inp then ''execution_succeeded'' else ''execution_failed''"
  let ?text = "if in_Success inp then ''request executed successfully'' else ''execution failed: '' @ trim_space (in_Error inp)"
  let ?w1 = "w\<lparr>ticks := ticks w + 1, wstore := put ?q' (wstore w)\<rparr>"
  let ?w' = "logged ?q' a ?act ?text ?w1"
  have "mem_view (wstore w) (ReqID q) = Some q" using assms(1,2) by simp
  from exec_applyExecutionResult [OF this assms(3) refl, of ex svc a "in_Success inp" "in_Error inp"]
  have run: "run mem_ops ex (RecordExecutionResult svc a i inp) w = (Inr ?q', ?w')"
    using True assms(1) by (auto simp: RecordExecutionResult_def mem_exec)
  obtain e where e: "wstore ?w' = add_audit e (wstore ?w1)" "aud_RequestID e = ReqID ?q'"
    "audit_line e = (act_ID a, act_Role a, ?act, ?text)"
    using store_logged [of ?q' a ?act ?text ?w1] by blast
  have line: "audit_line e = result_line a (in_Success inp) (in_Error inp)"
    using e(3) by (simp add: result_line_def)
  have id: "ReqID ?q' = i" using assms(2) by simp
  have read: "run mem_ops ex (Service_GetRequest a i) w = (Inl (Sentinel ErrForbidden), w)" if "\<not> canView a q"
    using that assms(1) by (simp add: Service_GetRequest_def mem_exec)
  have frame: "wstore ?w' = (wstore w)\<lparr>mem_requests := AList.update i ?q' (mem_requests (wstore w)),
         mem_audit := (mem_audit (wstore w))(i := mem_audit (wstore w) i @ [e])\<rparr>"
    using e(1,2) id by (simp add: add_audit_def put_def)
  have "mem_view (wstore ?w') = (mem_view (wstore w))(i \<mapsto> ?q')" "executed ?w' = executed w"
    using id by simp_all
  then show ?thesis
    unfolding if_P [OF True] Let_def
    by (intro exI [of _ ?w'] exI [of _ e] conjI impI run frame line read)
qed

theorem execution_result_effect_witness:
  "\<exists>q' w'. run mem_ops SimulatedExecutor (RecordExecutionResult sample_service \<lparr>act_ID = ''eve'', act_Role = RoleReviewer\<rparr>
       ''req_00'' \<lparr>in_Success = True, in_Error = [], in_ExternalReference = []\<rparr>) (holding sample_q3) = (Inr q', w') \<and>
     run mem_ops SimulatedExecutor (Service_GetRequest \<lparr>act_ID = ''eve'', act_Role = RoleReviewer\<rparr> ''req_00'') (holding sample_q3) =
       (Inl (Sentinel ErrForbidden), holding sample_q3)"
  using execution_result_effect [of "holding sample_q3" "''req_00''" sample_q3 "\<lparr>act_ID = ''eve'', act_Role = RoleReviewer\<rparr>"
      sample_service "\<lparr>in_Success = True, in_Error = [], in_ExternalReference = []\<rparr>" SimulatedExecutor]
  by (auto simp: executable_def Let_def canView_def)

subsection \<open>The passes of the worker\<close>

text \<open>
  C21: A pass of the worker selects due requests without repetition, as many as the limit
  allows, hands each to the executor exactly once, stores each with the result and its job
  record, and touches no other request.
\<close>

theorem execution_pass:
  assumes "mem_inv (wstore w)" and "0 < sint limit"
  shows "\<exists>qs w'. run mem_ops ex (ProcessDueExecutions svc limit) w = (None, w') \<and>
    distinct (map ReqID qs) \<and> set qs \<subseteq> all_due (mem_ready (clock w (ticks w))) (wstore w) \<and>
    length qs = min (nat (sint limit)) (card (all_due (mem_ready (clock w (ticks w))) (wstore w))) \<and>
    executed w' = executed w @ qs \<and>
    pass_done (executed_as svc ex (readings w)) (execution_job ex) qs (wstore w) (wstore w')"
  by (rule run_execution_pass [OF assms])

theorem execution_pass_witness:
  "\<exists>w'. run mem_ops SimulatedExecutor (ProcessDueExecutions sample_service 25) (holding sample_q3) = (None, w') \<and>
     executed w' = [sample_q3] \<and>
     pass_done (executed_as sample_service SimulatedExecutor (readings (holding sample_q3))) (execution_job SimulatedExecutor) [sample_q3]
       (wstore (holding sample_q3)) (wstore w')"
proof -
  have due: "all_due (mem_ready 20) (wstore (holding sample_q3)) = {sample_q3}"
    by (auto simp: all_due_def mem_ready_def time_after_def sample_rows split: if_splits)
  obtain qs w' where qs: "run mem_ops SimulatedExecutor (ProcessDueExecutions sample_service 25) (holding sample_q3) = (None, w')"
    "set qs \<subseteq> {sample_q3}" "length qs = 1" "executed w' = executed (holding sample_q3) @ qs"
    "pass_done (executed_as sample_service SimulatedExecutor (readings (holding sample_q3))) (execution_job SimulatedExecutor) qs
       (wstore (holding sample_q3)) (wstore w')"
    using execution_pass [of "holding sample_q3" 25 SimulatedExecutor sample_service] due by auto
  moreover from qs(2,3) have "qs = [sample_q3]" by (auto simp: length_Suc_conv)
  moreover have "executed (holding sample_q3) = []" by (simp add: holding_def sample_world_def)
  ultimately show ?thesis by auto
qed

text \<open>
  C22: A reminder pass selects overdue requests without repetition, as many as the limit
  allows, counts one reminder on each, stores its job record, and touches no other request.
\<close>

theorem reminder_pass:
  assumes "mem_inv (wstore w)" and "0 < sint limit"
  shows "\<exists>qs w'. run mem_ops ex (ProcessDueReminders svc limit) w = (None, w') \<and>
    distinct (map ReqID qs) \<and> set qs \<subseteq> all_due (overdue svc (clock w (ticks w))) (wstore w) \<and>
    length qs = min (nat (sint limit)) (card (all_due (overdue svc (clock w (ticks w))) (wstore w))) \<and>
    pass_done (reminded_as (clock w (ticks w))) reminder_job qs (wstore w) (wstore w')"
  by (rule run_reminder_pass [OF assms])

theorem reminder_pass_witness:
  "\<exists>w'. run mem_ops SimulatedExecutor (ProcessDueReminders sample_service 25) (holding sample_q2) = (None, w') \<and>
     pass_done (reminded_as 20) reminder_job [sample_q2] (wstore (holding sample_q2)) (wstore w')"
proof -
  have due: "all_due (overdue sample_service 20) (wstore (holding sample_q2)) = {sample_q2}"
    by (auto simp: all_due_def overdue_def mem_needs_reminder_def time_after_def time_add_def sample_rows split: if_splits)
  obtain qs w' where qs: "run mem_ops SimulatedExecutor (ProcessDueReminders sample_service 25) (holding sample_q2) = (None, w')"
    "set qs \<subseteq> {sample_q2}" "length qs = 1"
    "pass_done (reminded_as 20) reminder_job qs (wstore (holding sample_q2)) (wstore w')"
    using reminder_pass [of "holding sample_q2" 25 SimulatedExecutor sample_service] due by auto
  moreover from qs(2,3) have "qs = [sample_q2]" by (auto simp: length_Suc_conv)
  ultimately show ?thesis by blast
qed

subsection \<open>Retries\<close>

text \<open>
  C23: After a failed attempt the next one is due the number of attempts times the base delay
  later as long as attempts are left, computed without wrap-around in the stated range, and
  never when they are used up.
\<close>

theorem retry_schedule:
  assumes "0 \<le> sint (ExecutionAttempts q)" and "sint (ExecutionAttempts q) < 2 ^ 63 - 1"
    and "- (2 ^ 63) \<le> (sint (ExecutionAttempts q) + 1) * sint (executionRetryBase svc)"
    and "(sint (ExecutionAttempts q) + 1) * sint (executionRetryBase svc) < 2 ^ 63"
  shows "NextExecutionAt (executionApplied svc False msg t q) =
    (if sint (ExecutionAttempts q) + 1 < sint (executionMaxAttempts svc)
     then Some (t + (sint (ExecutionAttempts q) + 1) * sint (executionRetryBase svc)) else None)"
proof -
  have inc: "sint (ExecutionAttempts q + 1) = sint (ExecutionAttempts q) + 1"
    using assms(2) by (rule sint_inc)
  have "sint ((ExecutionAttempts q + 1) * executionRetryBase svc) =
      (sint (ExecutionAttempts q) + 1) * sint (executionRetryBase svc)"
    using assms(3,4) unfolding inc [symmetric]
    by (simp add: sint_word_ariths signed_take_bit_int_eq_self_iff)
  then show ?thesis
    by (simp add: executionApplied_failure go_le_def time_add_def inc)
qed

theorem retry_schedule_witness:
  "NextExecutionAt (executionApplied (NewService ''boss'' 10 10 3) False [] 100 sample_q3) = Some (100 + 1 * 10)"
  using retry_schedule [of sample_q3 "NewService ''boss'' 10 10 3" "[]" 100]
  by (simp add: NewService_def sample_rows)

subsection \<open>Reading\<close>

lemma run_list:
  assumes "ValidateActor a = None" and "effectiveFilter a f = Some f'" and "mem_inv (wstore w)"
  shows "\<exists>qs. run mem_ops ex (Service_ListRequests a f) w = (Inr qs, w\<lparr>wstore := after_loop (wstore w)\<rparr>) \<and>
    sorted (map CreatedAt qs) \<and> distinct (map ReqID qs) \<and> set qs = all_due (mem_matches f') (wstore w)"
proof -
  let ?qs = "sort_key CreatedAt (filter (mem_matches f') (range_requests (wstore w)))"
  have "distinct (map ReqID (filter (mem_matches f') (range_requests (wstore w))))"
    by (rule distinct_map_filter [OF range_distinct [OF assms(3)]])
  then have "distinct (map ReqID ?qs)"
    by (simp add: distinct_map)
  moreover have "set ?qs = all_due (mem_matches f') (wstore w)"
    using assms(3) by (auto simp: all_due_def range_view_iff)
  moreover have "run mem_ops ex (Service_ListRequests a f) w = (Inr ?qs, w\<lparr>wstore := after_loop (wstore w)\<rparr>)"
    using assms(1,2) by (simp add: Service_ListRequests_def run.simps mem_ListRequests_def)
  ultimately show ?thesis by (intro exI [of _ ?qs]) simp
qed

definition has_status :: "status \<Rightarrow> request \<Rightarrow> bool" where
  "has_status st q \<longleftrightarrow> st = [] \<or> Status q = st"

lemma valid_id: "ValidateActor a = None \<Longrightarrow> act_ID a \<noteq> []"
  by (auto simp: ValidateActor_None)

text \<open>
  C26: An employee's listing is exactly the employee's own requests with the asked status,
  sorted by creation time and without repetition, whatever filters the client sends.
\<close>

theorem list_employee:
  assumes "ValidateActor a = None" and "act_Role a = RoleEmployee" and "mem_inv (wstore w)"
  shows "\<exists>qs. run mem_ops ex (Service_ListRequests a f) w = (Inr qs, w\<lparr>wstore := after_loop (wstore w)\<rparr>) \<and>
    sorted (map CreatedAt qs) \<and> distinct (map ReqID qs) \<and>
    set qs = all_due (\<lambda>q. RequesterID q = act_ID a \<and> has_status (flt_Status f) q) (wstore w)"
proof -
  have "effectiveFilter a f = Some (f\<lparr>flt_RequesterID := act_ID a, flt_ReviewerID := []\<rparr>)"
    using assms(2) by (simp add: effectiveFilter_def)
  from run_list [OF assms(1) this assms(3)] show ?thesis
    using valid_id [OF assms(1)] by (auto simp: all_due_def mem_matches_def has_status_def)
qed

theorem list_employee_witness:
  "\<exists>qs. fst (run mem_ops SimulatedExecutor (Service_ListRequests employee
       \<lparr>flt_RequesterID = ''other'', flt_ReviewerID = [], flt_Status = []\<rparr>) (holding sample_q2)) = Inr qs \<and> set qs = {sample_q2}"
proof -
  have "all_due (\<lambda>q. RequesterID q = act_ID employee \<and> has_status [] q) (wstore (holding sample_q2)) = {sample_q2}"
    by (auto simp: all_due_def has_status_def split: if_splits)
  with list_employee [of employee "holding sample_q2" SimulatedExecutor
      "\<lparr>flt_RequesterID = ''other'', flt_ReviewerID = [], flt_Status = []\<rparr>"]
  show ?thesis by auto
qed

theorem list_reviewer:
  assumes "ValidateActor a = None" and "act_Role a = RoleReviewer" and "mem_inv (wstore w)"
    and "flt_RequesterID f = []"
  shows "\<exists>qs. run mem_ops ex (Service_ListRequests a f) w = (Inr qs, w\<lparr>wstore := after_loop (wstore w)\<rparr>) \<and>
    sorted (map CreatedAt qs) \<and> distinct (map ReqID qs) \<and>
    set qs = all_due (\<lambda>q. AssignedReviewerID q = act_ID a \<and> has_status (flt_Status f) q) (wstore w)"
proof -
  have "effectiveFilter a f = Some (f\<lparr>flt_ReviewerID := act_ID a\<rparr>)"
    using assms(2,4) by (simp add: effectiveFilter_def)
  from run_list [OF assms(1) this assms(3)] show ?thesis
    using valid_id [OF assms(1)] assms(4) by (auto simp: all_due_def mem_matches_def has_status_def)
qed

theorem list_reviewer_witness:
  "\<exists>qs. fst (run mem_ops SimulatedExecutor (Service_ListRequests reviewer
       \<lparr>flt_RequesterID = [], flt_ReviewerID = ''other'', flt_Status = []\<rparr>) (holding sample_q2)) = Inr qs \<and> set qs = {sample_q2}"
proof -
  have "all_due (\<lambda>q. AssignedReviewerID q = act_ID reviewer \<and> has_status [] q) (wstore (holding sample_q2)) = {sample_q2}"
    by (auto simp: all_due_def has_status_def split: if_splits)
  with list_reviewer [of reviewer "holding sample_q2"
      "\<lparr>flt_RequesterID = [], flt_ReviewerID = ''other'', flt_Status = []\<rparr>" SimulatedExecutor]
  show ?thesis by auto
qed

text \<open>
  C27: A reviewer who filters by requester is listed requests that the same reviewer may not
  read one by one.
\<close>

theorem list_discloses:
  assumes "ValidateActor a = None" and "act_Role a = RoleReviewer" and "mem_inv (wstore w)"
    and "mem_view (wstore w) i = Some q" and "RequesterID q \<noteq> []" and "\<not> canView a q"
    and "f = \<lparr>flt_RequesterID = RequesterID q, flt_ReviewerID = [], flt_Status = []\<rparr>"
  shows "run mem_ops ex (Service_GetRequest a i) w = (Inl (Sentinel ErrForbidden), w) \<and>
    (\<exists>qs. fst (run mem_ops ex (Service_ListRequests a f) w) = Inr qs \<and> q \<in> set qs)"
proof -
  have "effectiveFilter a f = Some f"
    using assms(2,5,7) by (simp add: effectiveFilter_def)
  from run_list [OF assms(1) this assms(3), of ex]
  obtain qs where qs: "run mem_ops ex (Service_ListRequests a f) w = (Inr qs, w\<lparr>wstore := after_loop (wstore w)\<rparr>)"
    "set qs = all_due (mem_matches f) (wstore w)" by blast
  have "ReqID q = i" using assms(3,4) by (rule mem_inv_id)
  then have "q \<in> set qs" using qs(2) assms(4,7) by (simp add: all_due_def mem_matches_def)
  then show ?thesis using qs(1) assms(4,6) by (simp add: Service_GetRequest_def mem_exec)
qed

theorem list_discloses_witness:
  "run mem_ops SimulatedExecutor (Service_GetRequest reviewer ''req_00'') (holding sample_q1) =
     (Inl (Sentinel ErrForbidden), holding sample_q1) \<and>
   (\<exists>qs. fst (run mem_ops SimulatedExecutor (Service_ListRequests reviewer
       \<lparr>flt_RequesterID = ''emp'', flt_ReviewerID = [], flt_Status = []\<rparr>) (holding sample_q1)) = Inr qs \<and> sample_q1 \<in> set qs)"
  by (rule list_discloses) (simp_all add: canView_def, simp add: sample_rows)

subsection \<open>A request's life\<close>

lemma due_one:
  assumes "mem_inv s" and "mem_view s = [i \<mapsto> q]" and "P q" and "ReqID q = i" and "0 < lim"
  shows "collect_upto P lim [] (range_requests s) = [q]"
proof -
  let ?qs = "collect_upto P lim [] (range_requests s)"
  have due: "all_due P s = {q}"
    using assms(2-4) by (auto simp: all_due_def split: if_splits)
  note sel = selection [OF assms(1) refl, of P lim]
  from sel(3) assms(5) due have "length ?qs = 1" by simp
  then obtain x where "?qs = [x]" by (auto simp: length_Suc_conv)
  with sel(2) due show ?thesis by auto
qed

text \<open>The world of a fresh store.\<close>

definition fresh_start :: "mem world \<Rightarrow> bool" where
  "fresh_start w \<longleftrightarrow> mem_inv (wstore w) \<and> mem_view (wstore w) = Map.empty \<and>
     trail (wstore w) = (\<lambda>_. []) \<and> key_payload (wstore w) = (\<lambda>_ _. None) \<and> mono (clock w)"

lemma key_payload_idem: "mem_idem s = mem_idem s' \<Longrightarrow> key_payload s = key_payload s'"
  by (simp add: key_payload_def fun_eq_iff)

definition actions :: "mem \<Rightarrow> string \<Rightarrow> string list" where
  "actions s i = map (\<lambda>(who, role, what, descr). what) (trail s i)"

text \<open>Draft, submission and approval, one after the other.\<close>

lemma run_to_approval:
  assumes w: "fresh_start w" and e: "ValidateActor e = None"
    and inp: "trim_space (in_Type inp) \<noteq> []" "trim_space (in_TargetResource inp) \<noteq> []"
      "trim_space (in_Justification inp) \<noteq> []"
    and r: "act_Role r = RoleReviewer" "act_ID r = defaultReviewerID svc" "act_ID r \<noteq> act_ID e"
    and keys: "trim_space k1 \<noteq> []" "trim_space k2 \<noteq> []"
  shows "\<exists>q1 w1 t2 w2 t3 w3. let q2 = submitted svc t2 q1; q3 = reviewed ''approved'' t3 q2 in
    run mem_ops ex (CreateDraft e inp) w = (Inr q1, w1) \<and> is_draft_of e inp q1 \<and>
    run mem_ops ex (SubmitRequest svc e (ReqID q1) k1) w1 = (Inr q2, w2) \<and>
    run mem_ops ex (ApproveRequest r (ReqID q1) k2 c) w2 = (Inr q3, w3) \<and>
    t3 \<le> clock w3 (ticks w3) \<and> mem_inv (wstore w3) \<and> executed w3 = executed w \<and>
    mem_view (wstore w3) = [ReqID q1 \<mapsto> q3] \<and>
    actions (wstore w3) (ReqID q1) =
      [''draft_created'', ''submitted'', ''review_assigned'', ''approved'']"
proof -
  from run_CreateDraft [OF e inp, of ex w] obtain q1 w1 where
    1: "run mem_ops ex (CreateDraft e inp) w = (Inr q1, w1)" "is_draft_of e inp q1" "executed w1 = executed w"
    "mem_view (wstore w1) = (mem_view (wstore w))(ReqID q1 \<mapsto> q1)" "mem_idem (wstore w1) = mem_idem (wstore w)"
    "trail (wstore w1) = (trail (wstore w))(ReqID q1 := trail (wstore w) (ReqID q1) @
      [(act_ID e, act_Role e, ''draft_created'', ''draft request created'')])" by blast
  note q1 = 1(2) [unfolded is_draft_of_def]
  have keys1: "key_payload (wstore w1) sc k = None" for sc k
    using key_payload_idem [OF 1(5)] w by (simp add: fresh_start_def)
  have v1: "mem_view (wstore w1) (ReqID q1) = Some q1" using 1(4) by simp
  define t2 where "t2 = clock w1 (ticks w1 + 1)"
  define q2 where "q2 = submitted svc t2 q1"
  obtain w2 where 2: "run mem_ops ex (SubmitRequest svc e (ReqID q1) k1) w1 = (Inr q2, w2)" "executed w2 = executed w1"
    "mem_view (wstore w2) = (mem_view (wstore w1))(ReqID q1 \<mapsto> q2)"
    "\<And>k. key_payload (wstore w2) (''approved:'' @ ReqID q1) k = None"
    "trail (wstore w2) = (trail (wstore w1))(ReqID q1 := trail (wstore w1) (ReqID q1) @
      [(act_ID e, act_Role e, ''submitted'', ''request submitted for review''),
       (''system'', RoleAdmin, ''review_assigned'', ''request assigned to reviewer'')])"
    using run_SubmitRequest [OF v1 refl, of e k1 ex svc] q1 keys(1) keys1 unfolding q2_def t2_def by force
  have v2: "mem_view (wstore w2) (ReqID q1) = Some q2" using 2(3) by simp
  have q2: "ReqID q2 = ReqID q1" "Status q2 = StatusPendingReview" "canReview r q2" "act_ID r \<noteq> RequesterID q2"
    using r q1 by (simp_all add: q2_def submitted_def canReview_def)
  define t3 where "t3 = clock w2 (ticks w2 + 1)"
  define q3 where "q3 = reviewed ''approved'' t3 q2"
  obtain w3 where 3: "run mem_ops ex (ApproveRequest r (ReqID q1) k2 c) w2 = (Inr q3, w3)"
    "clock w3 = clock w2" "ticks w2 + 2 \<le> ticks w3" "executed w3 = executed w2"
    "mem_view (wstore w3) = (mem_view (wstore w2))(ReqID q1 \<mapsto> q3)"
    "trail (wstore w3) = (trail (wstore w2))(ReqID q1 := trail (wstore w2) (ReqID q1) @
      [(act_ID r, act_Role r, ''approved'', decisionDescription ''approved'' (in_Comment c))])"
    using run_reviewRequest [OF v2 q2 keys(2), of "''approved''" ex "in_Comment c"] 2(4) [of k2]
    unfolding q3_def t3_def ApproveRequest_def Let_def by fastforce
  have "mem_inv (wstore w3)"
    using memory.run_inv 1(1) 2(1) 3(1) w unfolding fresh_start_def by metis
  moreover have "clock w2 = clock w" using run_time [OF 1(1)] run_time [OF 2(1)] by simp
  then have "t3 \<le> clock w3 (ticks w3)"
    using w 3(2,3) monoD [of "clock w" "ticks w2 + 1" "ticks w3"] by (simp add: t3_def fresh_start_def)
  moreover have "executed w3 = executed w" using 1(3) 2(2) 3(4) by simp
  moreover have "mem_view (wstore w3) = [ReqID q1 \<mapsto> q3]"
    using 1(4) 2(3) 3(5) w by (simp add: fresh_start_def)
  moreover have "actions (wstore w3) (ReqID q1) =
      [''draft_created'', ''submitted'', ''review_assigned'', ''approved'']"
    using 1(6) 2(5) 3(6) w by (simp add: fresh_start_def actions_def)
  ultimately show ?thesis
    using 1(1,2) 2(1) 3(1) unfolding Let_def q3_def q2_def by metis
qed

text \<open>The pass of the worker that finds the approved request.\<close>

lemma run_pass_one:
  assumes "mem_inv (wstore w)" and "mem_view (wstore w) = [i \<mapsto> q]" and "ReqID q = i"
    and "Status q = StatusApproved" and "NextExecutionAt q = Some t" and "t \<le> clock w (ticks w)"
  shows "\<exists>w' q'. run mem_ops ex (ProcessDueExecutions svc 25) w = (None, w') \<and>
    executed w' = executed w @ [q] \<and> mem_view (wstore w') = [i \<mapsto> q'] \<and> executed_as svc ex (readings w) q q' \<and>
    actions (wstore w') i = actions (wstore w) i @
      [if ex q = None then ''execution_succeeded'' else ''execution_failed'']"
proof -
  let ?now = "clock w (ticks w)"
  let ?w1 = "w\<lparr>ticks := ticks w + 1, wstore := after_loop (wstore w)\<rparr>"
  have "mem_ready ?now q" using assms(4-6) by (simp add: mem_ready_def time_after_def)
  then have sel: "collect_upto (mem_ready ?now) (sint (25 :: go_int)) [] (range_requests (wstore w)) = [q]"
    using assms(1-3) by (intro due_one) simp_all
  have v: "mem_view (wstore ?w1) (ReqID q) = Some q" "executable q"
    using assms(2-4) by (simp_all add: executable_def)
  from run_execute_one [OF v, of ex svc ?now "[]"] obtain w' q' where
    "run mem_ops ex (executeLoop svc ?now [q]) ?w1 = (None, w')" "executed w' = executed w @ [q]"
    "mem_view (wstore w') = (mem_view (wstore w))(ReqID q \<mapsto> q')" and q': "executed_as svc ex (readings ?w1) q q'" and
    "trail (wstore w') = (trail (wstore ?w1))(ReqID q := trail (wstore ?w1) (ReqID q) @
      [result_line systemActor (ex q = None) (case ex q of None \<Rightarrow> [] | Some msg \<Rightarrow> msg)])"
    by (auto simp: mem_exec)
  moreover from q' have "executed_as svc ex (readings w) q q'"
    by (rule executed_as_mono) (simp add: readings_mono)
  moreover have "trail (wstore ?w1) = trail (wstore w)" by (simp add: trail_def after_loop_def fun_eq_iff)
  ultimately show ?thesis
    using assms(2,3) sel by (auto simp: run_ProcessDueExecutions actions_def result_line_def)
qed

text \<open>
  C13: From an empty in-memory store, drafting, submitting, approving by the default reviewer
  and one pass of the worker lead to a single stored request of version 4, executed or failed
  as the executor says, executed once, with exactly the five expected audit actions in order.
\<close>

theorem lifecycle:
  assumes "fresh_start w" and "ValidateActor e = None"
    and "trim_space (in_Type inp) \<noteq> []" and "trim_space (in_TargetResource inp) \<noteq> []"
    and "trim_space (in_Justification inp) \<noteq> []"
    and "act_Role r = RoleReviewer" and "act_ID r = defaultReviewerID svc" and "act_ID r \<noteq> act_ID e"
    and "trim_space k1 \<noteq> []" and "trim_space k2 \<noteq> []"
  shows "\<exists>q1 w1 q2 w2 q3 w3 q4 w4.
    run mem_ops ex (CreateDraft e inp) w = (Inr q1, w1) \<and>
    run mem_ops ex (SubmitRequest svc e (ReqID q1) k1) w1 = (Inr q2, w2) \<and>
    run mem_ops ex (ApproveRequest r (ReqID q1) k2 c) w2 = (Inr q3, w3) \<and>
    run mem_ops ex (ProcessDueExecutions svc 25) w3 = (None, w4) \<and>
    executed w4 = executed w @ [q3] \<and> mem_view (wstore w4) = [ReqID q1 \<mapsto> q4] \<and> Version q4 = 4 \<and>
    Status q4 = (if ex q3 = None then StatusExecuted else StatusExecutionFailed) \<and>
    actions (wstore w4) (ReqID q1) = [''draft_created'', ''submitted'', ''review_assigned'', ''approved'',
      if ex q3 = None then ''execution_succeeded'' else ''execution_failed'']"
proof -
  from run_to_approval [OF assms, of ex c] obtain q1 w1 t2 w2 t3 w3 where
    1: "is_draft_of e inp q1" "run mem_ops ex (CreateDraft e inp) w = (Inr q1, w1)"
      "run mem_ops ex (SubmitRequest svc e (ReqID q1) k1) w1 = (Inr (submitted svc t2 q1), w2)"
      "run mem_ops ex (ApproveRequest r (ReqID q1) k2 c) w2 = (Inr (reviewed ''approved'' t3 (submitted svc t2 q1)), w3)"
      "t3 \<le> clock w3 (ticks w3)" "mem_inv (wstore w3)" "executed w3 = executed w"
      "mem_view (wstore w3) = [ReqID q1 \<mapsto> reviewed ''approved'' t3 (submitted svc t2 q1)]"
      "actions (wstore w3) (ReqID q1) = [''draft_created'', ''submitted'', ''review_assigned'', ''approved'']"
    unfolding Let_def by (elim exE conjE) (rule that; assumption)
  let ?q3 = "reviewed ''approved'' t3 (submitted svc t2 q1)"
  have q3: "ReqID ?q3 = ReqID q1" "Status ?q3 = StatusApproved" "NextExecutionAt ?q3 = Some t3" "Version ?q3 = 3"
    using 1(1) by (simp_all add: reviewed_def submitted_def is_draft_of_def Let_def)
  from run_pass_one [OF 1(6,8) q3(1-3) 1(5), of ex svc] obtain w4 q4 where
    4: "run mem_ops ex (ProcessDueExecutions svc 25) w3 = (None, w4)" "executed w4 = executed w3 @ [?q3]"
      "mem_view (wstore w4) = [ReqID q1 \<mapsto> q4]" "executed_as svc ex (readings w3) ?q3 q4"
      "actions (wstore w4) (ReqID q1) = actions (wstore w3) (ReqID q1) @
        [if ex ?q3 = None then ''execution_succeeded'' else ''execution_failed'']" by blast
  from 4(4) q3(4) have "Version q4 = 4"
    "Status q4 = (if ex ?q3 = None then StatusExecuted else StatusExecutionFailed)"
    by (auto simp: executed_as_def executionApplied_def Let_def split: option.splits)
  with 1(2-4,7,9) 4(1,2,3,5) show ?thesis by fastforce
qed

theorem lifecycle_witness:
  "\<exists>q1 w1 q4 (w4 :: mem world). run mem_ops SimulatedExecutor (CreateDraft employee
       \<lparr>in_Type = ''vm'', in_TargetResource = ''prod'', in_Justification = ''need''\<rparr>) (sample_world sample_mem 0 0 []) = (Inr q1, w1) \<and>
     mem_view (wstore w4) = [ReqID q1 \<mapsto> q4] \<and> Version q4 = 4"
proof -
  let ?inp = "\<lparr>in_Type = ''vm'', in_TargetResource = ''prod'', in_Justification = ''need''\<rparr>"
  have fresh: "fresh_start (sample_world sample_mem 0 0 [])"
    by (simp add: fresh_start_def sample_world_def mono_def)
  have "defaultReviewerID sample_service = ''boss''"
    by (simp add: sample_service_def NewService_def)
  with lifecycle [OF fresh, of employee ?inp reviewer sample_service "''k1''" "''k2''" SimulatedExecutor "\<lparr>in_Comment = []\<rparr>"]
  obtain q1 w1 q4 and w4 :: "mem world" where
    "run mem_ops SimulatedExecutor (CreateDraft employee ?inp) (sample_world sample_mem 0 0 []) = (Inr q1, w1)"
    "mem_view (wstore w4) = [ReqID q1 \<mapsto> q4]" "Version q4 = 4"
    by auto
  then show ?thesis by (intro exI conjI)
qed

end
