(* ===== verification/Http.thy ===== *)
theory Http
  imports Workflow
begin

text \<open>
  The HTTP transport of \<open>internal/transport/http/server.go\<close> and \<open>ui.go\<close>. A handler is a
  program over the store that ends in a response. What the handlers get from gin and
  \<open>net/http\<close> is a record: the headers, the query, the path parameter and, per input type, the
  result of decoding the JSON body (the decoder's message or the value). How gin decodes bodies
  and writes JSON is not modelled; the body of an error response keeps the error value, whose
  text is \<open>error_text\<close>.
\<close>

subsection \<open>Requests and responses\<close>

record http_request =
  req_header :: "string \<Rightarrow> string"
  req_query :: "string \<Rightarrow> string"
  req_id :: string
  req_draft :: "string + create_draft_input"
  req_review :: "string + review_input"
  req_result :: "string + execution_result_input"

datatype body =
    BodyRequest request
  | BodyRequests "request list"
  | BodyAudit "audit_entry list"
  | BodyStatus string
  | BodyPage string
  | BodyError go_error

record response =
  resp_code :: nat
  resp_body :: body

text \<open>
  The server: the readiness check it was given, if any, and its name. The check is a callback
  (the program passes the connection pool's \<open>Ping\<close>); its answer may differ from call to call,
  so it takes the number of the call.
\<close>

record server_config =
  srv_ready :: "(nat \<Rightarrow> go_error option) option"
  srv_name :: string

definition NewServer :: "(nat \<Rightarrow> go_error option) option \<Rightarrow> string \<Rightarrow> server_config" where
  "NewServer ready name =
     \<lparr>srv_ready = ready, srv_name = (if trim_space name = [] then ''review-workflow'' else name)\<rparr>"

subsection \<open>Errors\<close>

fun sentinel_text :: "sentinel \<Rightarrow> string" where
  "sentinel_text ErrInvalidInput = ''invalid input''"
| "sentinel_text ErrUnauthorized = ''unauthorized''"
| "sentinel_text ErrForbidden = ''forbidden''"
| "sentinel_text ErrNotFound = ''not found''"
| "sentinel_text ErrConflict = ''conflict''"
| "sentinel_text ErrIdempotencyKeyUsed = ''idempotency key already used with different payload''"

text \<open>The text of an error, given how \<open>fmt\<close> quotes a role (its \<open>%q\<close> verb).\<close>

fun detail_text :: "(string \<Rightarrow> string) \<Rightarrow> detail \<Rightarrow> string" where
  "detail_text quote (Message m) = m"
| "detail_text quote ActorIDRequired = ''actor id is required''"
| "detail_text quote (InvalidActorRole r) = ''invalid actor role '' @ quote r"
| "detail_text quote (BindFailure m) = m"

fun error_text :: "(string \<Rightarrow> string) \<Rightarrow> go_error \<Rightarrow> string" where
  "error_text quote (Sentinel s) = sentinel_text s"
| "error_text quote (Wrap s d) = sentinel_text s @ '': '' @ detail_text quote d"
| "error_text quote (OtherError m) = m"

definition error_status :: "go_error \<Rightarrow> nat" where
  "error_status err =
     (if errors_is err ErrInvalidInput then 400
      else if errors_is err ErrUnauthorized then 401
      else if errors_is err ErrForbidden then 403
      else if errors_is err ErrNotFound then 404
      else if errors_is err ErrConflict \<or> errors_is err ErrIdempotencyKeyUsed then 409
      else 500)"

definition writeError :: "go_error \<Rightarrow> response" where
  "writeError err = \<lparr>resp_code = error_status err, resp_body = BodyError err\<rparr>"

definition bindError :: "string \<Rightarrow> response" where
  "bindError m = writeError (Wrap ErrInvalidInput (BindFailure m))"

subsection \<open>The actor of a request\<close>

definition actorFromRequest :: "http_request \<Rightarrow> actor res" where
  "actorFromRequest r =
     (let a = \<lparr>act_ID = trim_space (req_header r ''X-Actor-Id''),
               act_Role = trim_space (req_header r ''X-Actor-Role'')\<rparr>
      in case ValidateActor a of
           Some d \<Rightarrow> Inl (Wrap ErrUnauthorized d)
         | None \<Rightarrow> Inr a)"

definition idempotency_key :: "http_request \<Rightarrow> string" where
  "idempotency_key r = trim_space (req_header r ''Idempotency-Key'')"

subsection \<open>Handlers\<close>

definition reply :: "nat \<Rightarrow> ('a \<Rightarrow> body) \<Rightarrow> 'a res \<Rightarrow> response prog" where
  "reply code wrap res =
     (case res of Inl err \<Rightarrow> Return (writeError err)
                | Inr x \<Rightarrow> Return \<lparr>resp_code = code, resp_body = wrap x\<rparr>)"

definition handleHealth :: "response prog" where
  "handleHealth = Return \<lparr>resp_code = 200, resp_body = BodyStatus ''ok''\<rparr>"

definition handleReady :: "server_config \<Rightarrow> nat \<Rightarrow> response prog" where
  "handleReady srv n =
     (case srv_ready srv of
        None \<Rightarrow> Return \<lparr>resp_code = 200, resp_body = BodyStatus ''ready''\<rparr>
      | Some ready \<Rightarrow>
         (case ready n of
            Some err \<Rightarrow> Return (writeError err)
          | None \<Rightarrow> Return \<lparr>resp_code = 200, resp_body = BodyStatus ''ready''\<rparr>))"

definition handleCreateRequest :: "http_request \<Rightarrow> response prog" where
  "handleCreateRequest r =
     (case actorFromRequest r of
        Inl err \<Rightarrow> Return (writeError err)
      | Inr a \<Rightarrow>
         (case req_draft r of
            Inl m \<Rightarrow> Return (bindError m)
          | Inr inp \<Rightarrow> bind (CreateDraft a inp) (reply 201 BodyRequest)))"

definition handleListRequests :: "http_request \<Rightarrow> response prog" where
  "handleListRequests r =
     (case actorFromRequest r of
        Inl err \<Rightarrow> Return (writeError err)
      | Inr a \<Rightarrow>
          bind (Service_ListRequests a
            \<lparr>flt_RequesterID = trim_space (req_query r ''requester_id''),
             flt_ReviewerID = trim_space (req_query r ''reviewer_id''),
             flt_Status = trim_space (req_query r ''status'')\<rparr>) (reply 200 BodyRequests))"

definition handleGetRequest :: "http_request \<Rightarrow> response prog" where
  "handleGetRequest r =
     (case actorFromRequest r of
        Inl err \<Rightarrow> Return (writeError err)
      | Inr a \<Rightarrow> bind (Service_GetRequest a (req_id r)) (reply 200 BodyRequest))"

definition handleSubmitRequest :: "service \<Rightarrow> http_request \<Rightarrow> response prog" where
  "handleSubmitRequest svc r =
     (case actorFromRequest r of
        Inl err \<Rightarrow> Return (writeError err)
      | Inr a \<Rightarrow> bind (SubmitRequest svc a (req_id r) (idempotency_key r)) (reply 200 BodyRequest))"

definition handleApproveRequest :: "http_request \<Rightarrow> response prog" where
  "handleApproveRequest r =
     (case actorFromRequest r of
        Inl err \<Rightarrow> Return (writeError err)
      | Inr a \<Rightarrow>
         (case req_review r of
            Inl m \<Rightarrow> Return (bindError m)
          | Inr inp \<Rightarrow> bind (ApproveRequest a (req_id r) (idempotency_key r) inp) (reply 200 BodyRequest)))"

definition handleRejectRequest :: "http_request \<Rightarrow> response prog" where
  "handleRejectRequest r =
     (case actorFromRequest r of
        Inl err \<Rightarrow> Return (writeError err)
      | Inr a \<Rightarrow>
         (case req_review r of
            Inl m \<Rightarrow> Return (bindError m)
          | Inr inp \<Rightarrow> bind (RejectRequest a (req_id r) (idempotency_key r) inp) (reply 200 BodyRequest)))"

definition handleExecutionResult :: "service \<Rightarrow> http_request \<Rightarrow> response prog" where
  "handleExecutionResult svc r =
     (case actorFromRequest r of
        Inl err \<Rightarrow> Return (writeError err)
      | Inr a \<Rightarrow>
         (case req_result r of
            Inl m \<Rightarrow> Return (bindError m)
          | Inr inp \<Rightarrow> bind (RecordExecutionResult svc a (req_id r) inp) (reply 200 BodyRequest)))"

definition handleAudit :: "http_request \<Rightarrow> response prog" where
  "handleAudit r =
     (case actorFromRequest r of
        Inl err \<Rightarrow> Return (writeError err)
      | Inr a \<Rightarrow> bind (Service_ListAudit a (req_id r)) (reply 200 BodyAudit))"

subsection \<open>Routes\<close>

datatype endpoint =
    EpIndex string | EpAsset | EpHealth | EpReady
  | EpCreate | EpList | EpGet | EpSubmit | EpApprove | EpReject | EpResult | EpAudit

text \<open>
  The routes in the order in which they are registered: method, pattern and handler. Matching a
  request against the patterns is gin's business; \<open>StaticFS\<close> registers its file server for
  \<open>GET\<close> and \<open>HEAD\<close>. \<open>registerUI\<close> panics where the embedded files cannot be opened (\<open>None\<close>).
\<close>

type_synonym route = "string \<times> string \<times> endpoint"

definition registerUI :: "bool \<Rightarrow> string option \<Rightarrow> route list option" where
  "registerUI assets index =
     (if \<not> assets then None
      else case index of
        None \<Rightarrow> None
      | Some html \<Rightarrow>
          Some [(''GET'', ''/'', EpIndex html), (''GET'', ''/assets/*filepath'', EpAsset),
                (''HEAD'', ''/assets/*filepath'', EpAsset)])"

definition v1_group :: "(string \<times> string \<times> endpoint) list" where
  "v1_group =
     [(''POST'', ''/requests'', EpCreate),
      (''GET'', ''/requests'', EpList),
      (''GET'', ''/requests/:id'', EpGet),
      (''POST'', ''/requests/:id/submit'', EpSubmit),
      (''POST'', ''/requests/:id/approve'', EpApprove),
      (''POST'', ''/requests/:id/reject'', EpReject),
      (''POST'', ''/requests/:id/execution-result'', EpResult),
      (''GET'', ''/requests/:id/audit'', EpAudit)]"

definition Routes :: "bool \<Rightarrow> string option \<Rightarrow> route list option" where
  "Routes assets index =
     (case registerUI assets index of
        None \<Rightarrow> None
      | Some ui \<Rightarrow>
          Some (ui @ [(''GET'', ''/healthz'', EpHealth), (''GET'', ''/readyz'', EpReady)] @
                map (\<lambda>(meth, pat, ep). (meth, ''/v1'' @ pat, ep)) v1_group))"

text \<open>
  The handler of a route. The file server of \<open>net/http\<close> answers for the assets; what it answers
  (\<open>assets\<close>) is a parameter.
\<close>

definition handle ::
  "service \<Rightarrow> server_config \<Rightarrow> (http_request \<Rightarrow> response) \<Rightarrow> nat \<Rightarrow> endpoint \<Rightarrow> http_request \<Rightarrow>
   response prog" where
  "handle svc srv assets n ep r =
     (case ep of
        EpIndex html \<Rightarrow> Return \<lparr>resp_code = 200, resp_body = BodyPage html\<rparr>
      | EpAsset \<Rightarrow> Return (assets r)
      | EpHealth \<Rightarrow> handleHealth
      | EpReady \<Rightarrow> handleReady srv n
      | EpCreate \<Rightarrow> handleCreateRequest r
      | EpList \<Rightarrow> handleListRequests r
      | EpGet \<Rightarrow> handleGetRequest r
      | EpSubmit \<Rightarrow> handleSubmitRequest svc r
      | EpApprove \<Rightarrow> handleApproveRequest r
      | EpReject \<Rightarrow> handleRejectRequest r
      | EpResult \<Rightarrow> handleExecutionResult svc r
      | EpAudit \<Rightarrow> handleAudit r)"

lemmas handler_defs = handleHealth_def handleReady_def handleCreateRequest_def handleListRequests_def
  handleGetRequest_def handleSubmitRequest_def handleApproveRequest_def handleRejectRequest_def
  handleExecutionResult_def handleAudit_def

subsection \<open>A handler is one call on the service, made as the actor of the headers\<close>

definition api_endpoint :: "endpoint \<Rightarrow> bool" where
  "api_endpoint ep \<longleftrightarrow> ep \<in> {EpCreate, EpList, EpGet, EpSubmit, EpApprove, EpReject, EpResult, EpAudit}"

fun call_actor :: "api_call \<Rightarrow> actor option" where
  "call_actor (CallCreateDraft a inp) = Some a"
| "call_actor (CallGetRequest a i) = Some a"
| "call_actor (CallListRequests a f) = Some a"
| "call_actor (CallSubmit a i key) = Some a"
| "call_actor (CallApprove a i key inp) = Some a"
| "call_actor (CallReject a i key inp) = Some a"
| "call_actor (CallExecutionResult a i inp) = Some a"
| "call_actor (CallListAudit a i) = Some a"
| "call_actor _ = None"

definition answer :: "nat \<Rightarrow> ('a \<Rightarrow> body) \<Rightarrow> 'a res \<Rightarrow> response" where
  "answer code wrap res =
     (case res of Inl err \<Rightarrow> writeError err | Inr x \<Rightarrow> \<lparr>resp_code = code, resp_body = wrap x\<rparr>)"

fun respond :: "endpoint \<Rightarrow> outcome \<Rightarrow> response" where
  "respond ep (ARequest res) = answer (if ep = EpCreate then 201 else 200) BodyRequest res"
| "respond ep (Requests res) = answer 200 BodyRequests res"
| "respond ep (Audit res) = answer 200 BodyAudit res"
| "respond ep (Pass err) = writeError (OtherError [])"

text \<open>
  The API by method and path: the call a request of an actor makes, or the message of the
  decoder that could not read its body.
\<close>

definition documented_call :: "string \<Rightarrow> string \<Rightarrow> http_request \<Rightarrow> actor \<Rightarrow> (string + api_call) option" where
  "documented_call meth pat r a =
     (let key = trim_space (req_header r ''Idempotency-Key'') in
      if (meth, pat) = (''POST'', ''/v1/requests'')
      then Some (map_sum id (CallCreateDraft a) (req_draft r))
      else if (meth, pat) = (''GET'', ''/v1/requests'')
      then Some (Inr (CallListRequests a
             \<lparr>flt_RequesterID = trim_space (req_query r ''requester_id''),
              flt_ReviewerID = trim_space (req_query r ''reviewer_id''),
              flt_Status = trim_space (req_query r ''status'')\<rparr>))
      else if (meth, pat) = (''GET'', ''/v1/requests/:id'') then Some (Inr (CallGetRequest a (req_id r)))
      else if (meth, pat) = (''POST'', ''/v1/requests/:id/submit'') then Some (Inr (CallSubmit a (req_id r) key))
      else if (meth, pat) = (''POST'', ''/v1/requests/:id/approve'')
      then Some (map_sum id (CallApprove a (req_id r) key) (req_review r))
      else if (meth, pat) = (''POST'', ''/v1/requests/:id/reject'')
      then Some (map_sum id (CallReject a (req_id r) key) (req_review r))
      else if (meth, pat) = (''POST'', ''/v1/requests/:id/execution-result'')
      then Some (map_sum id (CallExecutionResult a (req_id r)) (req_result r))
      else if (meth, pat) = (''GET'', ''/v1/requests/:id/audit'') then Some (Inr (CallListAudit a (req_id r)))
      else None)"

lemma reply_answer: "reply code wrap = (\<lambda>res. Return (answer code wrap res))"
  by (auto simp: reply_def answer_def fun_eq_iff split: sum.split)

lemma bindError_eq: "bindError m = \<lparr>resp_code = 400, resp_body = BodyError (Wrap ErrInvalidInput (BindFailure m))\<rparr>"
  by (simp add: bindError_def writeError_def error_status_def)

text \<open>What a route answers to a request of a valid actor.\<close>

definition answers_call ::
  "service \<Rightarrow> actor \<Rightarrow> (outcome \<Rightarrow> response) \<Rightarrow> string + api_call \<Rightarrow> response prog \<Rightarrow> bool" where
  "answers_call svc a respond_with spec p \<longleftrightarrow>
     (case spec of
        Inl m \<Rightarrow> p = Return \<lparr>resp_code = 400, resp_body = BodyError (Wrap ErrInvalidInput (BindFailure m))\<rparr>
      | Inr c \<Rightarrow> call_actor c = Some a \<and> p = bind (api_prog svc c) (\<lambda>out. Return (respond_with out)))"

lemma handlers_answer:
  assumes "actorFromRequest r = Inr a"
  shows
  "answers_call svc a (respond EpCreate) (map_sum id (CallCreateDraft a) (req_draft r)) (handleCreateRequest r)"
  "answers_call svc a (respond EpList) (Inr (CallListRequests a
      \<lparr>flt_RequesterID = trim_space (req_query r ''requester_id''),
       flt_ReviewerID = trim_space (req_query r ''reviewer_id''),
       flt_Status = trim_space (req_query r ''status'')\<rparr>)) (handleListRequests r)"
  "answers_call svc a (respond EpGet) (Inr (CallGetRequest a (req_id r))) (handleGetRequest r)"
  "answers_call svc a (respond EpSubmit) (Inr (CallSubmit a (req_id r) (idempotency_key r))) (handleSubmitRequest svc r)"
  "answers_call svc a (respond EpApprove) (map_sum id (CallApprove a (req_id r) (idempotency_key r)) (req_review r))
     (handleApproveRequest r)"
  "answers_call svc a (respond EpReject) (map_sum id (CallReject a (req_id r) (idempotency_key r)) (req_review r))
     (handleRejectRequest r)"
  "answers_call svc a (respond EpResult) (map_sum id (CallExecutionResult a (req_id r)) (req_result r))
     (handleExecutionResult svc r)"
  "answers_call svc a (respond EpAudit) (Inr (CallListAudit a (req_id r))) (handleAudit r)"
  using assms
  by (auto simp: answers_call_def handler_defs reply_answer bind_assoc bindError_eq split: sum.split)

lemma actor_error: "actorFromRequest r = Inl err \<Longrightarrow> \<exists>d. err = Wrap ErrUnauthorized d"
  by (auto simp: actorFromRequest_def Let_def split: option.splits)

lemma actor_headers:
  "actorFromRequest r = Inr a \<Longrightarrow>
     a = \<lparr>act_ID = trim_space (req_header r ''X-Actor-Id''), act_Role = trim_space (req_header r ''X-Actor-Role'')\<rparr>"
  by (auto simp: actorFromRequest_def Let_def split: option.splits)

lemma actor_valid: "actorFromRequest r = Inr a \<Longrightarrow> ValidateActor a = None"
  by (auto simp: actorFromRequest_def Let_def split: option.splits)

lemma answer_code:
  "resp_code (answer code wrap res) =
     (case res of Inl err \<Rightarrow> error_status err | Inr x \<Rightarrow> code)"
  by (simp add: answer_def writeError_def split: sum.split)

subsection \<open>Handlers that only read\<close>

lemma reads_reply: "reads (reply code wrap res)"
  by (simp add: reply_def split: sum.split)

lemma reads_service:
  "reads (Service_GetRequest a i)" "reads (Service_ListRequests a f)" "reads (Service_ListAudit a i)"
  by (auto simp: Service_GetRequest_def Service_ListRequests_def Service_ListAudit_def
      split: sum.split option.split)

lemma Routes_methods:
  assumes "Routes ui index = Some rs" and "(meth, pat, ep) \<in> set rs"
  shows "meth = ''POST'' \<longleftrightarrow> ep \<in> {EpCreate, EpSubmit, EpApprove, EpReject, EpResult}"
  using assms by (auto simp: Routes_def registerUI_def v1_group_def split: option.splits if_splits)

lemma reads_handle:
  "ep \<notin> {EpCreate, EpSubmit, EpApprove, EpReject, EpResult} \<Longrightarrow> reads (handle svc srv assets n ep r)"
  by (cases ep)
    (auto simp: handle_def handler_defs intro!: reads_bind reads_service reads_reply split: sum.split option.split)

end
