(* ===== verification/HttpProperties.thy ===== *)
theory HttpProperties
  imports Http Sample
begin

text \<open>
  The properties of the HTTP transport: which requests are refused before the service is called,
  that every other request is the documented call on the service by the actor of its headers, and
  that the routes for \<open>GET\<close> and \<open>HEAD\<close> change nothing in either store.
\<close>

declare run.simps [simp del]

text \<open>A request as an employee's client sends it.\<close>

definition sample_http :: "string \<Rightarrow> http_request" where
  "sample_http actor =
     \<lparr>req_header = (\<lambda>h. if h = ''X-Actor-Id'' then actor else if h = ''X-Actor-Role'' then ''employee''
                        else if h = ''Idempotency-Key'' then ''k1'' else []),
      req_query = (\<lambda>_. []), req_id = ''req_00'', req_draft = Inl ''EOF'', req_review = Inl ''EOF'',
      req_result = Inl ''EOF''\<rparr>"

definition sample_server :: server_config where
  "sample_server = NewServer None []"

definition no_assets :: "http_request \<Rightarrow> response" where
  "no_assets r = \<lparr>resp_code = 404, resp_body = BodyPage []\<rparr>"

lemma sample_http_actor:
  "actorFromRequest (sample_http ''emp'') = Inr employee"
  "actorFromRequest (sample_http []) = Inl (Wrap ErrUnauthorized ActorIDRequired)"
  "idempotency_key (sample_http ''emp'') = ''k1''" "req_id (sample_http ''emp'') = ''req_00''"
  by code_simp+

text \<open>
  C28: An API request whose headers name no valid actor is answered with status 401 and
  reaches neither the service nor the store.
\<close>

theorem http_unauthorized:
  assumes "api_endpoint ep" and "actorFromRequest r = Inl err"
  shows "handle svc srv assets n ep r = Return \<lparr>resp_code = 401, resp_body = BodyError err\<rparr> \<and>
    run ops ex (handle svc srv assets n ep r) w = (\<lparr>resp_code = 401, resp_body = BodyError err\<rparr>, w)"
proof -
  from assms have "handle svc srv assets n ep r = Return (writeError err)"
    by (cases ep) (auto simp: api_endpoint_def handle_def handler_defs)
  moreover obtain d where "err = Wrap ErrUnauthorized d" using actor_error [OF assms(2)] by blast
  ultimately show ?thesis by (simp add: writeError_def error_status_def run.simps)
qed

theorem http_unauthorized_witness:
  "run mem_ops SimulatedExecutor (handle sample_service sample_server no_assets 0 EpGet (sample_http []))
      (sample_world sample_mem 0 0 []) =
     (\<lparr>resp_code = 401, resp_body = BodyError (Wrap ErrUnauthorized ActorIDRequired)\<rparr>,
      sample_world sample_mem 0 0 [])"
  using http_unauthorized [of EpGet "sample_http []" "Wrap ErrUnauthorized ActorIDRequired"
    sample_service sample_server no_assets 0 mem_ops SimulatedExecutor "sample_world sample_mem 0 0 []"]
  by (auto simp: api_endpoint_def sample_http_actor)

text \<open>The routes of the API group.\<close>

lemma api_routes:
  assumes "Routes ui index = Some rs" and "(meth, pat, ep) \<in> set rs" and "api_endpoint ep"
  shows
    "meth = ''POST'' \<and> pat = ''/v1/requests'' \<and> ep = EpCreate \<or>
     meth = ''GET'' \<and> pat = ''/v1/requests'' \<and> ep = EpList \<or>
     meth = ''GET'' \<and> pat = ''/v1/requests/:id'' \<and> ep = EpGet \<or>
     meth = ''POST'' \<and> pat = ''/v1/requests/:id/submit'' \<and> ep = EpSubmit \<or>
     meth = ''POST'' \<and> pat = ''/v1/requests/:id/approve'' \<and> ep = EpApprove \<or>
     meth = ''POST'' \<and> pat = ''/v1/requests/:id/reject'' \<and> ep = EpReject \<or>
     meth = ''POST'' \<and> pat = ''/v1/requests/:id/execution-result'' \<and> ep = EpResult \<or>
     meth = ''GET'' \<and> pat = ''/v1/requests/:id/audit'' \<and> ep = EpAudit"
proof -
  obtain ui' where "rs = ui' @ [(''GET'', ''/healthz'', EpHealth), (''GET'', ''/readyz'', EpReady)] @
      map (\<lambda>(meth, pat, ep). (meth, ''/v1'' @ pat, ep)) v1_group" and u: "registerUI ui index = Some ui'"
    using assms(1) by (auto simp: Routes_def split: option.splits)
  moreover have "(meth, pat, ep) \<notin> set ui'"
    using u assms(3) by (auto simp: registerUI_def api_endpoint_def split: if_splits option.splits)
  ultimately have "(meth, pat, ep) \<in> set (map (\<lambda>(meth, pat, ep). (meth, ''/v1'' @ pat, ep)) v1_group)"
    using assms(2,3) by (auto simp: api_endpoint_def)
  then show ?thesis by (simp add: v1_group_def)
qed

text \<open>
  C29: A request of a valid actor to a route of the API is, for each of the eight routes,
  exactly the one call on the service that the README lists under its method and path, with
  the actor of the headers, the id of the path, the trimmed key and query and the decoded
  body, and its outcome is the response; only where the body cannot be decoded is it answered
  with 400 instead.
\<close>

theorem http_one_call_as_actor:
  assumes "Routes ui index = Some rs" and "(meth, pat, ep) \<in> set rs" and "api_endpoint ep"
    and "actorFromRequest r = Inr a"
  shows "ValidateActor a = None \<and>
    a = \<lparr>act_ID = trim_space (req_header r ''X-Actor-Id''), act_Role = trim_space (req_header r ''X-Actor-Role'')\<rparr> \<and>
    (case documented_call meth pat r a of
       None \<Rightarrow> False
     | Some (Inl m) \<Rightarrow>
         handle svc srv assets n ep r =
           Return \<lparr>resp_code = 400, resp_body = BodyError (Wrap ErrInvalidInput (BindFailure m))\<rparr>
     | Some (Inr c) \<Rightarrow>
         call_actor c = Some a \<and>
         handle svc srv assets n ep r = bind (api_prog svc c) (\<lambda>out. Return (respond ep out)))"
proof -
  obtain spec where spec: "documented_call meth pat r a = Some spec"
    "answers_call svc a (respond ep) spec (handle svc srv assets n ep r)"
    using api_routes [OF assms(1-3)] handlers_answer [OF assms(4), of svc]
    by (elim disjE) (simp_all add: documented_call_def handle_def idempotency_key_def)
  then show ?thesis
    using actor_valid [OF assms(4)] actor_headers [OF assms(4)]
    by (cases spec) (simp_all add: answers_call_def)
qed

theorem http_one_call_as_actor_witness:
  "handle sample_service sample_server no_assets 0 EpSubmit (sample_http ''emp'') =
     bind (api_prog sample_service (CallSubmit employee ''req_00'' ''k1'')) (\<lambda>out. Return (respond EpSubmit out)) \<and>
   handle sample_service sample_server no_assets 0 EpApprove (sample_http ''emp'') =
     Return \<lparr>resp_code = 400, resp_body = BodyError (Wrap ErrInvalidInput (BindFailure ''EOF''))\<rparr>"
proof -
  obtain rs where rs: "Routes True (Some []) = Some rs" "(''POST'', ''/v1/requests/:id/submit'', EpSubmit) \<in> set rs"
    "(''POST'', ''/v1/requests/:id/approve'', EpApprove) \<in> set rs"
    by (simp add: Routes_def registerUI_def v1_group_def)
  have key: "trim_space (req_header (sample_http ''emp'') ''Idempotency-Key'') = ''k1''" by code_simp
  have "req_review (sample_http ''emp'') = Inl ''EOF''" by (simp add: sample_http_def)
  then show ?thesis
    using http_one_call_as_actor [OF rs(1,2), of "sample_http ''emp''" employee sample_service sample_server no_assets 0]
      http_one_call_as_actor [OF rs(1,3), of "sample_http ''emp''" employee sample_service sample_server no_assets 0]
    by (simp add: api_endpoint_def sample_http_actor documented_call_def key)
qed

text \<open>
  C30: A route that is not registered for POST changes no request, no idempotency key and no
  audit entry, executes nothing, and does so in either store.
\<close>

theorem http_get_read_only:
  assumes "Routes ui index = Some rs" and "(meth, pat, ep) \<in> set rs" and "meth \<noteq> ''POST''"
    and "mem_inv (wstore w)" and "run mem_ops ex (handle svc srv assets n ep r) w = (out, w')"
    and "pg_inv (wstore v)" and "run pg_ops ex (handle svc srv assets n ep r) v = (out', v')"
  shows "mem_view (wstore w') = mem_view (wstore w) \<and> mem_idem (wstore w') = mem_idem (wstore w) \<and>
    mem_audit (wstore w') = mem_audit (wstore w) \<and> executed w' = executed w \<and>
    pg_view (wstore v') = pg_view (wstore v) \<and> pg_idem (wstore v') = pg_idem (wstore v) \<and>
    pg_audit (wstore v') = pg_audit (wstore v) \<and> executed v' = executed v"
proof -
  have "reads (handle svc srv assets n ep r)"
    using Routes_methods [OF assms(1,2)] assms(3) by (intro reads_handle) simp
  then show ?thesis
    using memory.run_reads [OF assms(4) _ assms(5)] postgres.run_reads [OF assms(6) _ assms(7)] by blast
qed

theorem http_get_read_only_witness:
  "\<exists>w' out. run mem_ops SimulatedExecutor
       (handle sample_service sample_server no_assets 0 EpGet (sample_http ''emp''))
       (sample_world (sample_mem\<lparr>mem_requests := [(''req_00'', sample_q1)]\<rparr>) 0 0 []) = (out, w') \<and>
     out = \<lparr>resp_code = 200, resp_body = BodyRequest sample_q1\<rparr> \<and>
     mem_view (wstore w') = [''req_00'' \<mapsto> sample_q1]"
proof -
  let ?h = "handle sample_service sample_server no_assets 0 EpGet (sample_http ''emp'')"
  let ?w = "sample_world (sample_mem\<lparr>mem_requests := [(''req_00'', sample_q1)]\<rparr>) 0 0 [] :: mem world"
  let ?v = "sample_world (sample_db [] [] [] [] [] 0) 0 0 [] :: db world"
  obtain out w' where mem: "run mem_ops SimulatedExecutor ?h ?w = (out, w')" by fastforce
  obtain out' v' where pg: "run pg_ops SimulatedExecutor ?h ?v = (out', v')" by fastforce
  have view: "mem_view (wstore ?w) = [''req_00'' \<mapsto> sample_q1]"
    by (simp add: sample_world_def mem_view_def)
  have "mem_view (wstore w') = mem_view (wstore ?w)"
    by (rule http_get_read_only [of True "Some []" "the (Routes True (Some []))" "''GET''" "''/v1/requests/:id''" EpGet, OF _ _ _ _ mem _ pg, THEN conjunct1])
      (simp_all add: Routes_def registerUI_def v1_group_def sample_world_def sample_mem_def NewStore_def mem_inv_def
        sample_rows sample_db_def pg_inv_def)
  moreover have "out = \<lparr>resp_code = 200, resp_body = BodyRequest sample_q1\<rparr>"
    using mem view by (auto simp: handle_def handleGetRequest_def sample_http_actor Service_GetRequest_def run.simps
      mem_GetRequest_def sample_world_def sample_rows canView_def employee_def reply_def)
  ultimately show ?thesis using mem view by auto
qed

end
