(* ===== verification/GoNumbers.thy ===== *)
theory GoNumbers
  imports GoStrings "HOL-Library.Log_Nat"
begin

text \<open>
  The parsers of Go's standard library that the configuration uses: \<open>strconv.Atoi\<close>,
  \<open>strconv.ParseBool\<close> and \<open>time.ParseDuration\<close>. Each returns \<open>None\<close> where Go returns an error.
  A parser of a number hands on the rest of its input, as Go's helpers do.
\<close>

subsection \<open>Decimal digits\<close>

definition is_digit :: "char \<Rightarrow> bool" where
  "is_digit c \<longleftrightarrow> (48 :: nat) \<le> of_char c \<and> of_char c \<le> (57 :: nat)"

definition digit :: "char \<Rightarrow> nat" where
  "digit c = of_char c - 48"

definition digits_value :: "nat \<Rightarrow> string \<Rightarrow> nat" where
  "digits_value = foldl (\<lambda>x c. x * 10 + digit c)"

definition split_sign :: "string \<Rightarrow> bool \<times> string" where
  "split_sign s =
     (case s of
        [] \<Rightarrow> (False, [])
      | c # cs \<Rightarrow> if c = CHR ''-'' \<or> c = CHR ''+'' then (c = CHR ''-'', cs) else (False, s))"

lemma digit_hex_digit: "n < 10 \<Longrightarrow> is_digit (hex_digit n) \<and> digit (hex_digit n) = n"
proof -
  have "\<forall>n < 10. is_digit (hex_digit n) \<and> digit (hex_digit n) = n" by code_simp
  then show "n < 10 \<Longrightarrow> is_digit (hex_digit n) \<and> digit (hex_digit n) = n" by blast
qed

lemma show_nat_digits: "show_nat n \<noteq> [] \<and> list_all is_digit (show_nat n)"
proof (induction n rule: show_nat.induct)
  case (1 n)
  then show ?case by (subst (1 2) show_nat.simps) (simp add: digit_hex_digit)
qed

lemma digits_value_show_nat: "digits_value 0 (show_nat n) = n"
proof (induction n rule: show_nat.induct)
  case (1 n)
  then show ?case by (subst show_nat.simps) (simp add: digit_hex_digit digits_value_def)
qed

lemma digits_value_ge: "x \<le> digits_value x ds"
proof (induction ds arbitrary: x)
  case (Cons d ds)
  from Cons.IH [of "x * 10 + digit d"] show ?case by (simp add: digits_value_def)
qed (simp add: digits_value_def)

subsection \<open>\<open>strconv.Atoi\<close> and \<open>strconv.ParseBool\<close>\<close>

definition Atoi :: "string \<Rightarrow> go_int option" where
  "Atoi s =
     (let (neg, ds) = split_sign s; n = digits_value 0 ds
      in if ds = [] \<or> \<not> list_all is_digit ds then None
         else if neg then (if n > 2 ^ 63 then None else Some (- of_nat n))
         else if n \<ge> 2 ^ 63 then None
         else Some (of_nat n))"

definition ParseBool :: "string \<Rightarrow> bool option" where
  "ParseBool s =
     (if s \<in> set [''1'', ''t'', ''T'', ''true'', ''TRUE'', ''True''] then Some True
      else if s \<in> set [''0'', ''f'', ''F'', ''false'', ''FALSE'', ''False''] then Some False
      else None)"

lemma split_sign_digits: "list_all is_digit s \<Longrightarrow> split_sign s = (False, s)"
  by (cases s) (auto simp: split_sign_def is_digit_def)

lemma split_sign_minus: "split_sign (CHR ''-'' # s) = (True, s)"
  by (simp add: split_sign_def)

lemma Atoi_show_int: "Atoi (show_int (sint w)) = Some w"
proof (cases "sint w < 0")
  case True
  have "nat (- sint w) \<le> 2 ^ 63" using sint_ge [of w] by simp
  moreover have "- (of_nat (nat (- sint w)) :: go_int) = w" using True by simp
  ultimately show ?thesis
    using True show_nat_digits
    by (simp add: Atoi_def show_int_def split_sign_minus digits_value_show_nat not_less)
next
  case False
  have "nat (sint w) < 2 ^ 63" using sint_lt [of w] by simp
  moreover have "(of_nat (nat (sint w)) :: go_int) = w" using False by simp
  ultimately show ?thesis
    using False show_nat_digits
    by (simp add: Atoi_def show_int_def split_sign_digits digits_value_show_nat not_le)
qed

subsection \<open>Floating-point rounding\<close>

text \<open>
  A non-negative float is a pair of a numerator and a denominator. \<open>fl\<close> rounds a quotient to 53
  significant bits, ties to even, as every operation on \<open>float64\<close> does between the largest and
  the smallest normal numbers. Outside of that range \<open>ParseDuration\<close> only divides by a
  huge scale, and what it adds is zero with and without the range of the exponent.
\<close>

type_synonym flt = "nat \<times> nat"

definition round_half_even :: "nat \<Rightarrow> nat \<Rightarrow> nat" where
  "round_half_even n d =
     (let q = n div d; r = n mod d
      in if d < 2 * r \<or> (d = 2 * r \<and> odd q) then q + 1 else q)"

definition fl :: "flt \<Rightarrow> flt" where
  "fl x =
     (let (n, d) = x
      in if n = 0 then (0, 1)
         else let a = int (floorlog 2 n) - int (floorlog 2 d);
                  ge = (if 0 \<le> a then d * 2 ^ nat a \<le> n else d \<le> n * 2 ^ nat (- a));
                  e = (if ge then a else a - 1);
                  s = 52 - e
              in if 0 \<le> s then (round_half_even (n * 2 ^ nat s) d, 2 ^ nat s)
                 else (round_half_even n (d * 2 ^ nat (- s)) * 2 ^ nat (- s), 1))"

definition fl_mult :: "flt \<Rightarrow> flt \<Rightarrow> flt" where
  "fl_mult x y = fl (fst x * fst y, snd x * snd y)"

definition fl_div :: "flt \<Rightarrow> flt \<Rightarrow> flt" where
  "fl_div x y = fl (fst x * snd y, snd x * fst y)"

definition fl_of_nat :: "nat \<Rightarrow> flt" where
  "fl_of_nat n = fl (n, 1)"

definition fl_trunc :: "flt \<Rightarrow> nat" where
  "fl_trunc x = fst x div snd x"

subsection \<open>\<open>time.ParseDuration\<close>\<close>

text \<open>The digits before the decimal point, with the two checks for overflow.\<close>

fun leadingInt :: "nat \<Rightarrow> string \<Rightarrow> (nat \<times> string) option" where
  "leadingInt x [] = Some (x, [])"
| "leadingInt x (c # cs) =
     (if \<not> is_digit c then Some (x, c # cs)
      else if 2 ^ 63 div 10 < x then None
      else if 2 ^ 63 < x * 10 + digit c then None
      else leadingInt (x * 10 + digit c) cs)"

text \<open>The digits after it; digits beyond what 63 bits hold are skipped.\<close>

fun leadingFraction :: "bool \<Rightarrow> nat \<Rightarrow> flt \<Rightarrow> string \<Rightarrow> nat \<times> flt \<times> string" where
  "leadingFraction ovf x scale [] = (x, scale, [])"
| "leadingFraction ovf x scale (c # cs) =
     (if \<not> is_digit c then (x, scale, c # cs)
      else if ovf then leadingFraction ovf x scale cs
      else if (2 ^ 63 - 1) div 10 < x then leadingFraction True x scale cs
      else if 2 ^ 63 < x * 10 + digit c then leadingFraction True x scale cs
      else leadingFraction ovf (x * 10 + digit c) (fl_mult scale (10, 1)) cs)"

definition unitMap :: "string \<Rightarrow> nat option" where
  "unitMap = map_of
     [(''ns'', 1), (''us'', 1000), ([CHR 0xC2, CHR 0xB5, CHR ''s''], 1000),
      ([CHR 0xCE, CHR 0xBC, CHR ''s''], 1000), (''ms'', 1000000), (''s'', 1000000000),
      (''m'', 60000000000), (''h'', 3600000000000)]"

definition unit_char :: "char \<Rightarrow> bool" where
  "unit_char c \<longleftrightarrow> \<not> (c = CHR ''.'' \<or> is_digit c)"

text \<open>One number with its unit, in nanoseconds, and the rest of the input.\<close>

definition duration_term :: "string \<Rightarrow> (nat \<times> string) option" where
  "duration_term s =
     (if unit_char (hd s) then None
      else (case leadingInt 0 s of
        None \<Rightarrow> None
      | Some (v, s1) \<Rightarrow>
          let pre = (length s \<noteq> length s1);
              point = (s1 \<noteq> [] \<and> hd s1 = CHR ''.'');
              (f, scale, s2) = (if point then leadingFraction False 0 (1, 1) (tl s1) else (0, (1, 1), s1));
              post = (point \<and> length (tl s1) \<noteq> length s2);
              u = takeWhile unit_char s2;
              s3 = dropWhile unit_char s2
          in if \<not> pre \<and> \<not> post then None
             else if u = [] then None
             else (case unitMap u of
               None \<Rightarrow> None
             | Some k \<Rightarrow>
                 if 2 ^ 63 div k < v then None
                 else if 0 < f then
                   (let v' = v * k + fl_trunc (fl_mult (fl_of_nat f) (fl_div (fl_of_nat k) scale))
                    in if 2 ^ 63 < v' then None else Some (v', s3))
                 else Some (v * k, s3))))"

lemma length_leadingInt: "leadingInt x s = Some (v, s') \<Longrightarrow> length s' \<le> length s"
  by (induction x s rule: leadingInt.induct) (auto split: if_splits)

lemma length_leadingFraction: "leadingFraction b x sc s = (f, sc', s') \<Longrightarrow> length s' \<le> length s"
  by (induction b x sc s rule: leadingFraction.induct) (auto split: if_splits)

lemma length_dropWhile_less: "takeWhile P s \<noteq> [] \<Longrightarrow> length (dropWhile P s) < length s"
  by (metis takeWhile_dropWhile_id length_append add_less_cancel_right length_greater_0_conv add_0)

lemma length_duration_term:
  assumes "duration_term s = Some (v, s')"
  shows "length s' < length s"
  using assms
  by (auto simp: duration_term_def Let_def
      dest!: length_leadingInt length_leadingFraction length_dropWhile_less
      split: if_splits option.splits prod.splits)

function duration_sum :: "nat \<Rightarrow> string \<Rightarrow> nat option" where
  "duration_sum d s =
     (if s = [] then Some d
      else case duration_term s of
        None \<Rightarrow> None
      | Some (v, s') \<Rightarrow>
          let d' = (d + v) mod 2 ^ 64
          in if 2 ^ 63 < d' then None else duration_sum d' s')"
  by pat_completeness auto
termination
  by (relation "measure (\<lambda>(d, s). length s)") (auto simp: length_duration_term)

declare duration_sum.simps [simp del]

definition ParseDuration :: "string \<Rightarrow> duration option" where
  "ParseDuration s =
     (let (neg, s1) = split_sign s
      in if s1 = ''0'' then Some 0
         else if s1 = [] then None
         else case duration_sum 0 s1 of
           None \<Rightarrow> None
         | Some d \<Rightarrow>
             if neg then Some (- of_nat d)
             else if 2 ^ 63 - 1 < d then None
             else Some (of_nat d))"

text \<open>Each helper consumes exactly what was written.\<close>

lemma leadingInt_digits:
  assumes "list_all is_digit ds" and "rest = [] \<or> \<not> is_digit (hd rest)" and "digits_value x ds \<le> 2 ^ 63"
  shows "leadingInt x (ds @ rest) = Some (digits_value x ds, rest)"
  using assms
proof (induction ds arbitrary: x)
  case Nil
  then show ?case by (cases rest) (auto simp: digits_value_def)
next
  case (Cons c ds)
  let ?y = "x * 10 + digit c"
  have v: "digits_value x (c # ds) = digits_value ?y ds" by (simp add: digits_value_def)
  with Cons.prems(3) digits_value_ge [of ?y ds] have "?y \<le> 2 ^ 63" by simp
  moreover from this have "x \<le> 2 ^ 63 div 10" by simp
  ultimately show ?case using Cons v by (simp add: not_less)
qed

lemma unitMap_cases:
  "unitMap u = Some k \<Longrightarrow> u \<noteq> [] \<and> list_all unit_char u \<and> 0 < k"
  by (auto simp: unitMap_def unit_char_def is_digit_def split: if_splits)

definition show_terms :: "(nat \<times> string) list \<Rightarrow> string" where
  "show_terms ts = concat (map (\<lambda>(n, u). show_nat n @ u) ts)"

definition terms_value :: "(nat \<times> string) list \<Rightarrow> nat" where
  "terms_value ts = sum_list (map (\<lambda>(n, u). n * the (unitMap u)) ts)"

lemma show_nat_hd: "is_digit (hd (show_nat n @ r))"
  using show_nat_digits [of n] by (cases "show_nat n") auto

lemma show_terms_hd: "ts = [] \<or> \<not> unit_char (hd (show_terms ts @ r))"
  using show_nat_hd by (cases ts) (auto simp: show_terms_def unit_char_def)

lemma duration_term_show:
  assumes "unitMap u = Some k" and "rest = [] \<or> \<not> unit_char (hd rest)" and "n * k \<le> 2 ^ 63"
  shows "duration_term (show_nat n @ u @ rest) = Some (n * k, rest)"
proof -
  have u: "u \<noteq> []" "list_all unit_char u" "0 < k" using unitMap_cases [OF assms(1)] by auto
  then have hd: "\<not> is_digit (hd (u @ rest))" "hd (u @ rest) \<noteq> CHR ''.''"
    by (cases u; simp add: unit_char_def)+
  have "n \<le> n * k" using u(3) by simp
  with assms(3) have "n \<le> 2 ^ 63" by linarith
  then have int: "leadingInt 0 (show_nat n @ u @ rest) = Some (n, u @ rest)"
    using leadingInt_digits [of "show_nat n" "u @ rest" 0] show_nat_digits [of n] hd(1)
    by (simp add: digits_value_show_nat)
  have "takeWhile unit_char (u @ rest) = u \<and> dropWhile unit_char (u @ rest) = rest"
    using u(2) assms(2) by (cases rest) (auto simp: list_all_iff takeWhile_append dropWhile_append)
  moreover have "\<not> 2 ^ 63 div k < n"
    using assms(3) u(3) by (simp add: not_less less_eq_div_iff_mult_less_eq)
  moreover have "\<not> unit_char (hd (show_nat n @ u @ rest))"
    using show_nat_hd by (simp add: unit_char_def)
  ultimately show ?thesis
    using int hd(2) assms(1) u(1) show_nat_digits [of n] by (simp add: duration_term_def Let_def)
qed

lemma duration_sum_show:
  assumes "\<forall>t \<in> set ts. unitMap (snd t) \<noteq> None" and "d + terms_value ts < 2 ^ 63"
  shows "duration_sum d (show_terms ts) = Some (d + terms_value ts)"
  using assms
proof (induction ts arbitrary: d)
  case Nil
  then show ?case by (subst duration_sum.simps) (simp add: show_terms_def terms_value_def)
next
  case (Cons t ts)
  obtain n u k where t: "t = (n, u)" "unitMap u = Some k" using Cons.prems(1) by (cases t) auto
  then have v: "terms_value (t # ts) = n * k + terms_value ts" by (simp add: terms_value_def)
  have s: "show_terms (t # ts) = show_nat n @ u @ show_terms ts" using t by (simp add: show_terms_def)
  have "duration_term (show_nat n @ u @ show_terms ts) = Some (n * k, show_terms ts)"
    using show_terms_hd [of ts "[]"] Cons.prems(2) v
    by (intro duration_term_show t) (auto simp: show_terms_def)
  moreover have "(d + n * k) mod 2 ^ 64 = d + n * k" "d + n * k \<le> 2 ^ 63"
    using Cons.prems(2) v by simp_all
  moreover have "duration_sum (d + n * k) (show_terms ts) = Some (d + n * k + terms_value ts)"
    using Cons.prems v by (intro Cons.IH) simp_all
  ultimately show ?case
    using s v show_nat_digits [of n] by (subst duration_sum.simps) (simp add: not_less)
qed

lemma ParseDuration_show:
  assumes "ts \<noteq> []" and "\<forall>t \<in> set ts. unitMap (snd t) \<noteq> None" and "terms_value ts < 2 ^ 63"
  shows "ParseDuration (show_terms ts) = Some (of_nat (terms_value ts))"
proof -
  from assms(1) obtain n u ts' where ts: "ts = (n, u) # ts'" by (cases ts) auto
  then have s: "show_terms ts = show_nat n @ u @ show_terms ts'" by (simp add: show_terms_def)
  from assms(2) ts have u: "u \<noteq> []" "list_all unit_char u" using unitMap_cases by fastforce+
  obtain c cs where c: "show_nat n = c # cs" "is_digit c"
    using show_nat_digits [of n] by (cases "show_nat n") auto
  have "split_sign (show_terms ts) = (False, show_terms ts)"
    using c s by (auto simp: split_sign_def is_digit_def)
  moreover have "show_terms ts \<noteq> ''0''"
  proof
    assume "show_terms ts = ''0''"
    with s have "u @ show_terms ts' = []" using c(1) by auto
    with u(1) show False by simp
  qed
  moreover have "show_terms ts \<noteq> []" using s c(1) by simp
  ultimately show ?thesis
    using duration_sum_show [of ts 0] assms(2,3) by (simp add: ParseDuration_def)
qed

end
