(* ===== verification/Config.thy ===== *)
theory Config
  imports Complex_Main GoNumbers Domain
begin

text \<open>
  The configuration of \<open>internal/config/config.go\<close>. The environment is a function from names to
  values, the empty string for a variable that is not set, as \<open>os.Getenv\<close> reports it.
  \<open>strconv.ParseFloat\<close> is a parameter: only the comparisons of its result matter here, so a
  \<open>float64\<close> is a rational number, an infinity or a NaN, which compares false with everything.
\<close>

subsection \<open>Data\<close>

datatype float64 = NaN | PosInf | NegInf | Finite rat

fun float_less :: "float64 \<Rightarrow> float64 \<Rightarrow> bool" where
  "float_less (Finite x) (Finite y) = (x < y)"
| "float_less NegInf y = (y \<noteq> NegInf \<and> y \<noteq> NaN)"
| "float_less x PosInf = (x \<noteq> PosInf \<and> x \<noteq> NaN)"
| "float_less _ _ = False"

text \<open>Go's comparison operators on \<open>float64\<close>, under their usual notation.\<close>

instantiation float64 :: ord
begin

definition less_float64 :: "float64 \<Rightarrow> float64 \<Rightarrow> bool" where
  "less_float64 x y = float_less x y"

definition less_eq_float64 :: "float64 \<Rightarrow> float64 \<Rightarrow> bool" where
  "less_eq_float64 x y \<longleftrightarrow> float_less x y \<or> (x = y \<and> x \<noteq> NaN)"

instance ..

end

lemma NaN_incomparable [simp]: "\<not> NaN < x" "\<not> x < NaN" "\<not> NaN \<le> x" "\<not> x \<le> NaN"
  by (cases x; simp add: less_float64_def less_eq_float64_def)+

lemma Finite_less [simp]: "Finite x < Finite y \<longleftrightarrow> x < y" "Finite x \<le> Finite y \<longleftrightarrow> x \<le> y"
  by (auto simp: less_float64_def less_eq_float64_def)

type_synonym env = "string \<Rightarrow> string"

record otel_config =
  otel_Enabled :: bool
  otel_ServiceName :: string
  otel_ExporterEndpoint :: string
  otel_Insecure :: bool
  otel_SampleRatio :: float64

record config =
  cfg_HTTPAddr :: string
  cfg_DatabaseURL :: string
  cfg_DefaultReviewerID :: string
  cfg_ReminderAfter :: duration
  cfg_ExecutionRetryBase :: duration
  cfg_ExecutionMaxAttempts :: go_int
  cfg_WorkerPollInterval :: duration
  cfg_WorkerBatchSize :: go_int
  cfg_OTel :: otel_config

subsection \<open>Reading one variable\<close>

definition getEnv :: "env \<Rightarrow> string \<Rightarrow> string \<Rightarrow> string" where
  "getEnv env key fallback = (if env key = [] then fallback else env key)"

definition mustDuration :: "env \<Rightarrow> string \<Rightarrow> duration \<Rightarrow> duration" where
  "mustDuration env key fallback =
     (if env key = [] then fallback
      else case ParseDuration (env key) of None \<Rightarrow> fallback | Some d \<Rightarrow> d)"

definition mustInt :: "env \<Rightarrow> string \<Rightarrow> go_int \<Rightarrow> go_int" where
  "mustInt env key fallback =
     (if env key = [] then fallback
      else case Atoi (env key) of None \<Rightarrow> fallback | Some n \<Rightarrow> n)"

definition mustBool :: "env \<Rightarrow> string \<Rightarrow> bool \<Rightarrow> bool" where
  "mustBool env key fallback =
     (let v = trim_space (env key)
      in if v = [] then fallback
         else case ParseBool v of None \<Rightarrow> fallback | Some b \<Rightarrow> b)"

definition mustFloat ::
  "(string \<Rightarrow> float64 option) \<Rightarrow> env \<Rightarrow> string \<Rightarrow> float64 \<Rightarrow> float64" where
  "mustFloat ParseFloat env key fallback =
     (let v = trim_space (env key)
      in if v = [] then fallback
         else case ParseFloat v of None \<Rightarrow> fallback | Some x \<Rightarrow> x)"

subsection \<open>Loading\<close>

definition nanosecond :: duration where "nanosecond = 1"
definition second :: duration where "second = 1000000000 * nanosecond"
definition minute :: duration where "minute = 60 * second"

text \<open>The configuration as it is read, before it is validated.\<close>

definition read_config :: "(string \<Rightarrow> float64 option) \<Rightarrow> env \<Rightarrow> config" where
  "read_config ParseFloat env =
     \<lparr>cfg_HTTPAddr = getEnv env ''HTTP_ADDR'' '':8080'',
      cfg_DatabaseURL = env ''DATABASE_URL'',
      cfg_DefaultReviewerID = getEnv env ''DEFAULT_REVIEWER_ID'' ''reviewer-1'',
      cfg_ReminderAfter = mustDuration env ''REMINDER_AFTER'' (30 * minute),
      cfg_ExecutionRetryBase = mustDuration env ''EXECUTION_RETRY_BASE'' (15 * second),
      cfg_ExecutionMaxAttempts = mustInt env ''EXECUTION_MAX_ATTEMPTS'' 3,
      cfg_WorkerPollInterval = mustDuration env ''WORKER_POLL_INTERVAL'' (10 * second),
      cfg_WorkerBatchSize = mustInt env ''WORKER_BATCH_SIZE'' 25,
      cfg_OTel =
        \<lparr>otel_Enabled = mustBool env ''OTEL_ENABLED'' False,
         otel_ServiceName = getEnv env ''OTEL_SERVICE_NAME'' ''review-workflow'',
         otel_ExporterEndpoint = trim_space (env ''OTEL_EXPORTER_OTLP_ENDPOINT''),
         otel_Insecure = mustBool env ''OTEL_EXPORTER_OTLP_INSECURE'' False,
         otel_SampleRatio = mustFloat ParseFloat env ''OTEL_SAMPLE_RATIO'' (Finite 1)\<rparr>\<rparr>"

definition Load :: "(string \<Rightarrow> float64 option) \<Rightarrow> env \<Rightarrow> config res" where
  "Load ParseFloat env =
     (let cfg = read_config ParseFloat env; tel = cfg_OTel cfg
      in if cfg_DefaultReviewerID cfg = [] then Inl (OtherError ''DEFAULT_REVIEWER_ID is required'')
         else if cfg_DatabaseURL cfg = [] then Inl (OtherError ''DATABASE_URL is required'')
         else if go_le (cfg_ExecutionMaxAttempts cfg) 0
           then Inl (OtherError ''EXECUTION_MAX_ATTEMPTS must be positive'')
         else if otel_ServiceName tel = [] then Inl (OtherError ''OTEL_SERVICE_NAME must not be empty'')
         else if otel_SampleRatio tel < Finite 0 \<or> Finite 1 < otel_SampleRatio tel
           then Inl (OtherError ''OTEL_SAMPLE_RATIO must be between 0 and 1'')
         else if otel_Enabled tel \<and> otel_ExporterEndpoint tel = []
           then Inl (OtherError ''OTEL_EXPORTER_OTLP_ENDPOINT is required when OTEL_ENABLED=true'')
         else Inr cfg)"

subsection \<open>Lemmas\<close>

lemma getEnv_nonempty: "fallback \<noteq> [] \<Longrightarrow> getEnv env key fallback \<noteq> []"
  by (simp add: getEnv_def)

lemma mustInt_show: "env key = show_int (sint n) \<Longrightarrow> mustInt env key fallback = n"
  using Atoi_show_int [of n] show_nat_digits by (auto simp: mustInt_def show_int_def)

lemma mustDuration_show:
  assumes "env key = show_terms ts" and "ts \<noteq> []" and "\<forall>t \<in> set ts. unitMap (snd t) \<noteq> None"
    and "terms_value ts < 2 ^ 63"
  shows "mustDuration env key fallback = of_nat (terms_value ts)"
proof -
  have "show_terms ts \<noteq> []"
    using assms(2) show_nat_digits by (cases ts) (auto simp: show_terms_def)
  with ParseDuration_show [OF assms(2-4)] assms(1) show ?thesis by (simp add: mustDuration_def)
qed

lemma sint_of_nat_below: "n < 2 ^ 63 \<Longrightarrow> sint (of_nat n :: go_int) = int n"
  by (simp add: sint_uint unat_of_nat unsigned_of_nat signed_take_bit_int_eq_self_iff take_bit_nat_eq_self)

lemma read_config_names:
  "cfg_DefaultReviewerID (read_config F env) \<noteq> []"
  "otel_ServiceName (cfg_OTel (read_config F env)) \<noteq> []"
  by (simp_all add: read_config_def getEnv_nonempty)

subsection \<open>Properties\<close>

text \<open>
  C33: The configuration is refused exactly for a missing database URL, attempts that are not
  positive, a sample ratio outside of 0 to 1, or tracing without an endpoint; the checks of
  the reviewer and of the service name can never fail.
\<close>

theorem config_errors:
  "((\<exists>err. Load F env = Inl err) \<longleftrightarrow>
      env ''DATABASE_URL'' = [] \<or>
      sint (mustInt env ''EXECUTION_MAX_ATTEMPTS'' 3) \<le> 0 \<or>
      mustFloat F env ''OTEL_SAMPLE_RATIO'' (Finite 1) < Finite 0 \<or>
      Finite 1 < mustFloat F env ''OTEL_SAMPLE_RATIO'' (Finite 1) \<or>
      mustBool env ''OTEL_ENABLED'' False \<and> trim_space (env ''OTEL_EXPORTER_OTLP_ENDPOINT'') = []) \<and>
   Load F env \<noteq> Inl (OtherError ''DEFAULT_REVIEWER_ID is required'') \<and>
   Load F env \<noteq> Inl (OtherError ''OTEL_SERVICE_NAME must not be empty'')"
proof -
  note names = read_config_names [of F env]
  have "cfg_DatabaseURL (read_config F env) = env ''DATABASE_URL''"
    "cfg_ExecutionMaxAttempts (read_config F env) = mustInt env ''EXECUTION_MAX_ATTEMPTS'' 3"
    "otel_SampleRatio (cfg_OTel (read_config F env)) = mustFloat F env ''OTEL_SAMPLE_RATIO'' (Finite 1)"
    "otel_Enabled (cfg_OTel (read_config F env)) = mustBool env ''OTEL_ENABLED'' False"
    "otel_ExporterEndpoint (cfg_OTel (read_config F env)) = trim_space (env ''OTEL_EXPORTER_OTLP_ENDPOINT'')"
    by (simp_all add: read_config_def)
  with names show ?thesis by (simp add: Load_def Let_def go_le_def)
qed

text \<open>
  C34: With only the database URL set, the configuration is the one the README documents.
\<close>

theorem config_defaults:
  assumes "\<forall>key. key \<noteq> ''DATABASE_URL'' \<longrightarrow> env key = []" and "env ''DATABASE_URL'' = url" and "url \<noteq> []"
  shows "Load F env = Inr
    \<lparr>cfg_HTTPAddr = '':8080'', cfg_DatabaseURL = url, cfg_DefaultReviewerID = ''reviewer-1'',
     cfg_ReminderAfter = 1800000000000, cfg_ExecutionRetryBase = 15000000000,
     cfg_ExecutionMaxAttempts = 3, cfg_WorkerPollInterval = 10000000000, cfg_WorkerBatchSize = 25,
     cfg_OTel = \<lparr>otel_Enabled = False, otel_ServiceName = ''review-workflow'', otel_ExporterEndpoint = [],
       otel_Insecure = False, otel_SampleRatio = Finite 1\<rparr>\<rparr>"
proof -
  have "read_config F env =
    \<lparr>cfg_HTTPAddr = '':8080'', cfg_DatabaseURL = url, cfg_DefaultReviewerID = ''reviewer-1'',
     cfg_ReminderAfter = 1800000000000, cfg_ExecutionRetryBase = 15000000000,
     cfg_ExecutionMaxAttempts = 3, cfg_WorkerPollInterval = 10000000000, cfg_WorkerBatchSize = 25,
     cfg_OTel = \<lparr>otel_Enabled = False, otel_ServiceName = ''review-workflow'', otel_ExporterEndpoint = [],
       otel_Insecure = False, otel_SampleRatio = Finite 1\<rparr>\<rparr>"
    using assms(1,2)
    by (simp add: read_config_def getEnv_def mustDuration_def mustInt_def mustBool_def mustFloat_def
        minute_def second_def nanosecond_def)
  with assms(3) show ?thesis by (simp add: Load_def Let_def go_le_def)
qed

theorem config_defaults_witness:
  "cfg_ExecutionMaxAttempts (projr (Load (\<lambda>_. None) (\<lambda>key. if key = ''DATABASE_URL'' then ''postgres://db'' else []))) = 3"
  using config_defaults [of "\<lambda>key. if key = ''DATABASE_URL'' then ''postgres://db'' else []" "''postgres://db''" "\<lambda>_. None"]
  by simp

text \<open>
  C35: A decimal number of attempts and a duration written as a sum of numbers with units are
  read back as the values they were written for.
\<close>

theorem config_values:
  assumes "Load F env = Inr cfg" and "env ''EXECUTION_MAX_ATTEMPTS'' = show_int (sint n)"
    and "env ''REMINDER_AFTER'' = show_terms ts" and "ts \<noteq> []"
    and "\<forall>t \<in> set ts. unitMap (snd t) \<noteq> None" and "terms_value ts < 2 ^ 63"
  shows "cfg_ExecutionMaxAttempts cfg = n \<and> 0 < sint n \<and>
    sint (cfg_ReminderAfter cfg) = int (terms_value ts)"
proof -
  have cfg: "cfg = read_config F env" and pos: "0 < sint (cfg_ExecutionMaxAttempts cfg)"
    using assms(1) by (auto simp: Load_def Let_def go_le_def split: if_splits)
  have "cfg_ExecutionMaxAttempts cfg = n"
    unfolding cfg using mustInt_show [of env "''EXECUTION_MAX_ATTEMPTS''" n, OF assms(2)] by (simp add: read_config_def)
  moreover have "cfg_ReminderAfter cfg = of_nat (terms_value ts)"
    unfolding cfg using mustDuration_show [of env "''REMINDER_AFTER''" ts, OF assms(3-6)] by (simp add: read_config_def)
  ultimately show ?thesis
    using pos assms(6) by (simp add: sint_of_nat_below)
qed

definition sample_env :: env where
  "sample_env key =
     (if key = ''DATABASE_URL'' then ''postgres://db''
      else if key = ''EXECUTION_MAX_ATTEMPTS'' then ''5''
      else if key = ''REMINDER_AFTER'' then ''1h30m''
      else if key = ''DEFAULT_REVIEWER_ID'' then '' ''
      else [])"

lemma show_digit: "n < 10 \<Longrightarrow> show_nat n = [hex_digit n]"
  by (subst show_nat.simps) simp

lemma sample_env_values:
  "sample_env ''EXECUTION_MAX_ATTEMPTS'' = show_int (sint (5 :: go_int))"
  "sample_env ''REMINDER_AFTER'' = show_terms [(1, ''h''), (30, ''m'')]"
proof -
  have "show_nat 30 = show_nat 3 @ [hex_digit 0]" by (subst show_nat.simps) simp
  then show "sample_env ''EXECUTION_MAX_ATTEMPTS'' = show_int (sint (5 :: go_int))"
    "sample_env ''REMINDER_AFTER'' = show_terms [(1, ''h''), (30, ''m'')]"
    by (simp_all add: sample_env_def show_int_def show_terms_def show_digit hex_digit_def)
qed

lemma sample_env_loads: "Load (\<lambda>_. None) sample_env = Inr (read_config (\<lambda>_. None) sample_env)"
proof -
  have "mustInt sample_env ''EXECUTION_MAX_ATTEMPTS'' 3 = 5"
    using sample_env_values(1) by (rule mustInt_show)
  then show ?thesis
    by (simp add: Load_def Let_def go_le_def read_config_def getEnv_def mustBool_def mustFloat_def)
      (simp add: sample_env_def)
qed

theorem config_values_witness:
  "cfg_ExecutionMaxAttempts (read_config (\<lambda>_. None) sample_env) = 5 \<and>
   sint (cfg_ReminderAfter (read_config (\<lambda>_. None) sample_env)) = 5400000000000"
  using config_values [OF sample_env_loads sample_env_values]
  by (simp add: unitMap_def terms_value_def)

end
