(* ===== verification/Platform.thy ===== *)
theory Platform
  imports Config "HOL-Library.Char_ord" "HOL-Library.List_Lexorder"
begin

text \<open>
  The platform packages: the migrations of \<open>internal/platform/sqlutil/migrations.go\<close> and the
  tracing setup of \<open>internal/platform/observability/otel.go\<close>. The embedded files, the database
  connection, the exporter and the resource of OpenTelemetry are parameters.
\<close>

subsection \<open>Migrations\<close>

text \<open>The file names to apply; \<open>sort.Strings\<close> compares byte by byte.\<close>

definition migration_names :: "(string \<times> bool) list \<Rightarrow> string list" where
  "migration_names entries =
     sort (map fst (filter (\<lambda>(name, dir). \<not> (dir \<or> \<not> has_suffix name ''.sql'')) entries))"

primrec apply_migrations ::
  "(string \<Rightarrow> string res) \<Rightarrow> (string \<Rightarrow> 's \<Rightarrow> go_error option \<times> 's) \<Rightarrow> string list \<Rightarrow> 's \<Rightarrow>
   go_error option \<times> 's" where
  "apply_migrations ReadFile Exec [] s = (None, s)"
| "apply_migrations ReadFile Exec (name # names) s =
     (case ReadFile name of
        Inl err \<Rightarrow> (Some err, s)
      | Inr sql \<Rightarrow>
          (case Exec sql s of
             (Some err, s') \<Rightarrow> (Some err, s')
           | (None, s') \<Rightarrow> apply_migrations ReadFile Exec names s'))"

definition RunMigrations ::
  "(string \<times> bool) list res \<Rightarrow> (string \<Rightarrow> string res) \<Rightarrow> (string \<Rightarrow> 's \<Rightarrow> go_error option \<times> 's) \<Rightarrow>
   's \<Rightarrow> go_error option \<times> 's" where
  "RunMigrations ReadDir ReadFile Exec s =
     (case ReadDir of
        Inl err \<Rightarrow> (Some err, s)
      | Inr entries \<Rightarrow> apply_migrations ReadFile Exec (migration_names entries) s)"

text \<open>The files were read and executed one after the other, all of them without an error.\<close>

inductive applied ::
  "(string \<Rightarrow> string res) \<Rightarrow> (string \<Rightarrow> 's \<Rightarrow> go_error option \<times> 's) \<Rightarrow> string list \<Rightarrow> 's \<Rightarrow> 's \<Rightarrow> bool"
  for ReadFile Exec where
  all_applied: "applied ReadFile Exec [] s s"
| next_applied: "ReadFile name = Inr sql \<Longrightarrow> Exec sql s = (None, s1) \<Longrightarrow> applied ReadFile Exec names s1 s' \<Longrightarrow>
    applied ReadFile Exec (name # names) s s'"

inductive_simps applied_Nil [simp]: "applied ReadFile Exec [] s s'"
inductive_simps applied_Cons [simp]: "applied ReadFile Exec (name # names) s s'"

definition failed_at ::
  "(string \<Rightarrow> string res) \<Rightarrow> (string \<Rightarrow> 's \<Rightarrow> go_error option \<times> 's) \<Rightarrow> string \<Rightarrow> go_error \<Rightarrow> 's \<Rightarrow> 's \<Rightarrow> bool" where
  "failed_at ReadFile Exec name err s s' \<longleftrightarrow>
     ReadFile name = Inl err \<and> s' = s \<or> (\<exists>sql. ReadFile name = Inr sql \<and> Exec sql s = (Some err, s'))"

lemma apply_migrations_ok:
  "apply_migrations ReadFile Exec names s = (None, s') \<Longrightarrow> applied ReadFile Exec names s s'"
  by (induction names arbitrary: s) (auto split: sum.splits prod.splits option.splits)

lemma apply_migrations_failed:
  "apply_migrations ReadFile Exec names s = (Some err, s') \<Longrightarrow>
   \<exists>pre name post s1. names = pre @ name # post \<and> applied ReadFile Exec pre s s1 \<and>
     failed_at ReadFile Exec name err s1 s'"
proof (induction names arbitrary: s)
  case (Cons n names)
  show ?case
  proof (cases "failed_at ReadFile Exec n err s s'")
    case True
    then show ?thesis by (intro exI [of _ "[]"] exI [of _ n] exI [of _ names] exI [of _ s]) simp
  next
    case False
    with Cons.prems obtain sql s1 where 1: "ReadFile n = Inr sql" "Exec sql s = (None, s1)"
        "apply_migrations ReadFile Exec names s1 = (Some err, s')"
      by (auto simp: failed_at_def split: sum.splits prod.splits option.splits)
    from Cons.IH [OF 1(3)] obtain pre name post s2 where "names = pre @ name # post"
        "applied ReadFile Exec pre s1 s2" "failed_at ReadFile Exec name err s2 s'" by blast
    with 1(1,2) show ?thesis
      by (intro exI [of _ "n # pre"] exI [of _ name] exI [of _ post] exI [of _ s2]) auto
  qed
qed simp

lemma migration_names_mset:
  "mset entries = mset entries' \<Longrightarrow> migration_names entries = migration_names entries'"
  unfolding migration_names_def by (intro properties_for_sort) (simp_all add: mset_filter)

subsection \<open>Tracing\<close>

text \<open>What tracing was set up with: the name and namespace of the service and the sampler.\<close>

record tracing =
  trc_endpoint :: string
  trc_insecure :: bool
  trc_service :: string
  trc_namespace :: string
  trc_ratio :: float64

text \<open>
  \<open>Exporter\<close> and \<open>Merge\<close> are the answers of the two libraries: the text of an error, or none.
  Without tracing there is nothing to shut down.
\<close>

definition Setup ::
  "(string \<Rightarrow> bool \<Rightarrow> string option) \<Rightarrow> (string \<Rightarrow> string option) \<Rightarrow> otel_config \<Rightarrow> tracing option res" where
  "Setup Exporter Merge cfg =
     (if \<not> otel_Enabled cfg then Inr None
      else case Exporter (otel_ExporterEndpoint cfg) (otel_Insecure cfg) of
        Some msg \<Rightarrow> Inl (OtherError (''create otlp exporter: '' @ msg))
      | None \<Rightarrow>
         (case Merge (otel_ServiceName cfg) of
            Some msg \<Rightarrow> Inl (OtherError (''build otel resource: '' @ msg))
          | None \<Rightarrow> Inr (Some
              \<lparr>trc_endpoint = otel_ExporterEndpoint cfg, trc_insecure = otel_Insecure cfg,
               trc_service = otel_ServiceName cfg, trc_namespace = ''review-workflow'',
               trc_ratio = otel_SampleRatio cfg\<rparr>)))"

subsection \<open>Properties\<close>

text \<open>
  C36: The migrations are the SQL files in the byte order of their names, whatever the order
  of the directory; they are applied one after the other up to the first failure, after which
  nothing is applied.
\<close>

theorem migrations_result:
  assumes "RunMigrations (Inr entries) ReadFile Exec s = (e, s')"
  shows "sorted (migration_names entries) \<and>
    set (migration_names entries) = {name. (name, False) \<in> set entries \<and> has_suffix name ''.sql''} \<and>
    (\<forall>entries'. mset entries' = mset entries \<longrightarrow> RunMigrations (Inr entries') ReadFile Exec s = (e, s')) \<and>
    (case e of
       None \<Rightarrow> applied ReadFile Exec (migration_names entries) s s'
     | Some err \<Rightarrow> (\<exists>pre name post s1. migration_names entries = pre @ name # post \<and>
         applied ReadFile Exec pre s s1 \<and> failed_at ReadFile Exec name err s1 s'))"
proof -
  have "set (migration_names entries) = {name. (name, False) \<in> set entries \<and> has_suffix name ''.sql''}"
    by (force simp: migration_names_def)
  moreover have "\<forall>entries'. mset entries' = mset entries \<longrightarrow>
      RunMigrations (Inr entries') ReadFile Exec s = (e, s')"
  proof (intro allI impI)
    fix entries' assume "mset entries' = mset entries"
    then have "migration_names entries' = migration_names entries" by (rule migration_names_mset)
    with assms show "RunMigrations (Inr entries') ReadFile Exec s = (e, s')" by (simp add: RunMigrations_def)
  qed
  moreover have "sorted (migration_names entries)" by (simp add: migration_names_def)
  moreover have "case e of
      None \<Rightarrow> applied ReadFile Exec (migration_names entries) s s'
    | Some err \<Rightarrow> (\<exists>pre name post s1. migration_names entries = pre @ name # post \<and>
        applied ReadFile Exec pre s s1 \<and> failed_at ReadFile Exec name err s1 s')"
    using assms apply_migrations_ok [of ReadFile Exec "migration_names entries" s s']
      apply_migrations_failed [of ReadFile Exec "migration_names entries" s _ s']
    by (cases e) (simp_all add: RunMigrations_def)
  ultimately show ?thesis by blast
qed

text \<open>Two files in the wrong order, a directory and a file of another kind; the second file fails.\<close>

theorem migrations_result_witness:
  "\<exists>s'. RunMigrations (Inr [(''2.sql'', False), (''a'', True), (''m.go'', False), (''1.sql'', False)])
       Inr (\<lambda>sql s. (if sql = ''2.sql'' then Some (OtherError sql) else None, s @ [sql])) [] =
     (Some (OtherError ''2.sql''), s') \<and>
   (\<exists>pre name post s1. [''1.sql'', ''2.sql''] = pre @ name # post \<and>
      applied Inr (\<lambda>sql s. (if sql = ''2.sql'' then Some (OtherError sql) else None, s @ [sql])) pre [] s1)"
proof -
  let ?es = "[(''2.sql'', False), (''a'', True), (''m.go'', False), (''1.sql'', False)]"
  let ?exec = "\<lambda>sql s. (if sql = ''2.sql'' then Some (OtherError sql) else None, s @ [sql])"
  have names: "migration_names ?es = [''1.sql'', ''2.sql'']" by code_simp
  then have run: "RunMigrations (Inr ?es) Inr ?exec [] = (Some (OtherError ''2.sql''), [''1.sql'', ''2.sql''])"
    by (simp add: RunMigrations_def)
  from migrations_result [OF run] show ?thesis unfolding names using run by fastforce
qed

end
