(* ===== verification/Worker.thy ===== *)
theory Worker
  imports Passes Sample
begin

text \<open>
  The background worker of \<open>internal/jobs/worker.go\<close>: its constructor, one run (a reminder pass
  followed by an execution pass) and the polling loop. The loop's \<open>select\<close> takes one signal at a
  time from two channels, the ticker's and the context's, in an order the runtime chooses; the
  order is an argument of the model. The logger is the list of lines a run writes.
\<close>

subsection \<open>The worker\<close>

record worker =
  wrk_service :: service
  pollInterval :: duration
  batchSize :: go_int

definition NewWorker :: "service \<Rightarrow> duration \<Rightarrow> go_int \<Rightarrow> worker" where
  "NewWorker svc poll batch =
     \<lparr>wrk_service = svc, pollInterval = poll,
      batchSize = (if go_le batch 0 then 25 else batch)\<rparr>"

type_synonym log_line = "string \<times> go_error"

definition Worker_run :: "worker \<Rightarrow> log_line list prog" where
  "Worker_run wk =
     bind (ProcessDueReminders (wrk_service wk) (batchSize wk)) (\<lambda>e1.
       let log1 = (case e1 of None \<Rightarrow> [] | Some err \<Rightarrow> [(''worker reminder pass failed'', err)])
       in bind (ProcessDueExecutions (wrk_service wk) (batchSize wk)) (\<lambda>e2.
            let log2 = (case e2 of None \<Rightarrow> [] | Some err \<Rightarrow> [(''worker execution pass failed'', err)])
            in Return (log1 @ log2)))"

text \<open>
  What the \<open>select\<close> receives, and how the goroutine ends: a ticker of a period that is not
  positive panics; the loop returns when the context is done; with no signal left to receive it
  waits.
\<close>

datatype signal = Tick | Done
datatype worker_end = Panicked | Returned | Waiting

fun Worker_loop :: "worker \<Rightarrow> log_line list \<Rightarrow> signal list \<Rightarrow> (worker_end \<times> log_line list) prog" where
  "Worker_loop wk log [] = Return (Waiting, log)"
| "Worker_loop wk log (Done # ss) = Return (Returned, log)"
| "Worker_loop wk log (Tick # ss) = bind (Worker_run wk) (\<lambda>l. Worker_loop wk (log @ l) ss)"

definition Worker_Start :: "worker \<Rightarrow> signal list \<Rightarrow> (worker_end \<times> log_line list) prog" where
  "Worker_Start wk signals =
     (if go_le (pollInterval wk) 0 then Return (Panicked, [])
      else bind (Worker_run wk) (\<lambda>l. Worker_loop wk l signals))"

subsection \<open>The runs of a worker, one after another\<close>

text \<open>The world and the log after a number of runs.\<close>

primrec runs_of ::
  "'s store_ops \<Rightarrow> executor \<Rightarrow> worker \<Rightarrow> nat \<Rightarrow> 's world \<Rightarrow> log_line list \<times> 's world" where
  "runs_of ops ex wk 0 w = ([], w)"
| "runs_of ops ex wk (Suc n) w =
     (case run ops ex (Worker_run wk) w of (l, w1) \<Rightarrow>
        case runs_of ops ex wk n w1 of (l', w') \<Rightarrow> (l @ l', w'))"

lemma run_worker_loop:
  "run ops ex (Worker_loop wk log (replicate n Tick @ Done # ss)) w =
     (case runs_of ops ex wk n w of (l, w') \<Rightarrow> ((Returned, log @ l), w'))"
proof (induction n arbitrary: log w)
  case 0
  then show ?case by (simp add: run.simps)
next
  case (Suc n)
  then show ?case by (simp add: run_bind split: prod.split)
qed

lemma run_worker_Start:
  assumes "0 < sint (pollInterval wk)"
  shows "run ops ex (Worker_Start wk (replicate n Tick @ Done # ss)) w =
    (case runs_of ops ex wk (Suc n) w of (l, w') \<Rightarrow> ((Returned, l), w'))"
  using assms by (simp add: Worker_Start_def go_le_def run_bind run_worker_loop split: prod.split)

lemma batchSize_pos: "0 < sint (batchSize (NewWorker svc poll batch))"
  by (simp add: NewWorker_def go_le_def)

text \<open>A run is the two passes, each on the state the other left, whatever the first one reports.\<close>

lemma run_Worker_run:
  assumes "run ops ex (ProcessDueReminders (wrk_service wk) (batchSize wk)) w = (e1, w1)"
    and "run ops ex (ProcessDueExecutions (wrk_service wk) (batchSize wk)) w1 = (e2, w2)"
  shows "run ops ex (Worker_run wk) w =
    ((case e1 of None \<Rightarrow> [] | Some err \<Rightarrow> [(''worker reminder pass failed'', err)]) @
     (case e2 of None \<Rightarrow> [] | Some err \<Rightarrow> [(''worker execution pass failed'', err)]), w2)"
  using assms by (simp add: Worker_run_def run_bind Let_def run.simps)

subsection \<open>A run that is not cut short leaves nothing due\<close>

lemma finite_view: "finite (dom (mem_view s))"
  by (simp add: mem_view_def [abs_def] finite_dom_map_of)

lemma whole_selection:
  assumes "distinct (map ReqID qs)" and "set qs \<subseteq> all_due P s"
    and "length qs = min (nat lim) (card (all_due P s))" and "int (card (dom (mem_view s))) \<le> lim"
  shows "set qs = all_due P s"
proof -
  have inj: "inj_on ReqID (all_due P s)"
    by (rule inj_onI) (metis (mono_tags, lifting) all_due_def mem_Collect_eq option.inject)
  have sub: "ReqID ` all_due P s \<subseteq> dom (mem_view s)" by (auto simp: all_due_def)
  have fin: "finite (all_due P s)"
    using finite_imageD [OF finite_subset [OF sub finite_view] inj] .
  have "card (all_due P s) \<le> card (dom (mem_view s))"
    using card_mono [OF finite_view sub] card_image [OF inj] by simp
  with assms(3,4) have "length qs = card (all_due P s)" by simp
  moreover have "card (set qs) = length qs"
    using assms(1) by (simp add: distinct_card distinct_map)
  ultimately show ?thesis using card_subset_eq [OF fin assms(2)] by simp
qed

lemma pass_clears:
  assumes "pass_done change job qs s s'" and "set qs = all_due P s"
    and "\<And>q q'. mem_view s (ReqID q) = Some q \<Longrightarrow> P q \<Longrightarrow> change q q' \<Longrightarrow> \<not> P q'"
  shows "all_due P s' = {}"
proof (rule ccontr)
  assume "all_due P s' \<noteq> {}"
  then obtain q where q: "mem_view s' (ReqID q) = Some q" "P q" by (auto simp: all_due_def)
  show False
  proof (cases "ReqID q \<in> ReqID ` set qs")
    case True
    then obtain p where p: "p \<in> set qs" "ReqID p = ReqID q" by auto
    with assms(1) q(1) have "change p q" by (auto simp: pass_done_def)
    moreover have "mem_view s (ReqID p) = Some p" "P p" using p(1) assms(2) by (auto simp: all_due_def)
    ultimately show False using assms(3) q(2) by blast
  next
    case False
    with assms(1) q have "q \<in> all_due P s" by (auto simp: pass_done_def all_due_def)
    with False assms(2) show False by blast
  qed
qed

lemma pass_dom:
  assumes "pass_done change job qs s s'" and "set qs \<subseteq> all_due P s"
  shows "dom (mem_view s') = dom (mem_view s)"
proof (rule set_eqI)
  fix i
  show "i \<in> dom (mem_view s') \<longleftrightarrow> i \<in> dom (mem_view s)"
    using assms by (cases "i \<in> ReqID ` set qs") (auto simp: pass_done_def all_due_def)
qed

lemma reminded_not_due:
  assumes "0 \<le> sint (reminderAfter svc)"
  shows "\<not> overdue svc now (reminded now q)"
proof -
  have "sint (- reminderAfter svc) = - sint (reminderAfter svc)"
    using assms sint_lt [of "reminderAfter svc"]
    by (simp add: sint_word_ariths signed_take_bit_int_eq_self_iff)
  with assms show ?thesis
    by (auto simp: overdue_def mem_needs_reminder_def reminded_def time_before_def time_add_def split: option.split)
qed

lemma retry_in_future:
  assumes "0 \<le> sint (ExecutionAttempts q)" and "sint (ExecutionAttempts q) < 2 ^ 63 - 1"
    and "0 < sint (executionRetryBase svc)"
    and "sint (executionMaxAttempts svc) * sint (executionRetryBase svc) < 2 ^ 63" and "now \<le> t"
  shows "\<not> mem_ready now (executionApplied svc success msg t q)"
proof (cases success)
  case True
  then show ?thesis by (simp add: executionApplied_def mem_ready_def Let_def)
next
  case False
  let ?n = "ExecutionAttempts q + 1"
  show ?thesis
  proof (cases "go_le (executionMaxAttempts svc) ?n")
    case True
    with False show ?thesis by (simp add: executionApplied_failure mem_ready_def)
  next
    case more: False
    have n: "sint ?n = sint (ExecutionAttempts q) + 1" using assms(2) by (rule sint_inc)
    have pos: "0 < sint ?n * sint (executionRetryBase svc)"
      unfolding n using assms(1,3) by simp
    have "sint ?n * sint (executionRetryBase svc) \<le> sint (executionMaxAttempts svc) * sint (executionRetryBase svc)"
      using more assms(3) by (intro mult_right_mono) (simp_all add: go_le_def)
    with assms(4) pos have "sint (?n * executionRetryBase svc) = sint ?n * sint (executionRetryBase svc)"
      by (simp add: sint_word_ariths(3) signed_take_bit_int_eq_self_iff)
    with pos False more assms(5) show ?thesis
      by (simp add: executionApplied_failure mem_ready_def time_after_def time_add_def)
  qed
qed

text \<open>With a base delay of zero, which \<open>Load\<close> accepts, a failed request is due again at once.\<close>

lemma zero_base_due_again:
  assumes "executionRetryBase svc = 0" and "go_less (ExecutionAttempts q + 1) (executionMaxAttempts svc)" and "t \<le> now"
  shows "mem_ready now (executionApplied svc False msg t q)"
  using assms by (simp add: executionApplied_failure mem_ready_def time_after_def time_add_def go_le_def go_less_def)

definition few_attempts :: "request \<Rightarrow> bool" where
  "few_attempts q \<longleftrightarrow> 0 \<le> sint (ExecutionAttempts q) \<and> sint (ExecutionAttempts q) < 2 ^ 63 - 1"



text \<open>
  C31: The worker makes one run at once and one per tick and returns when its context is done,
  whatever its runs report; without a positive poll interval it panics before any run.
\<close>

theorem worker_start:
  "run ops ex (Worker_Start wk (replicate n Tick @ Done # ss)) w =
     (if 0 < sint (pollInterval wk)
      then (case runs_of ops ex wk (Suc n) w of (l, w') \<Rightarrow> ((Returned, l), w'))
      else ((Panicked, []), w))"
  using run_worker_Start [of wk ops ex n ss w]
  by (simp add: Worker_Start_def go_le_def run.simps not_less)

end
