(* ===== verification/Bootstrap.thy ===== *)
theory Bootstrap
  imports Platform Worker Http
begin

text \<open>
  The program of \<open>cmd/server/main.go\<close>: the order in which it brings its parts up, what each is
  built from, and what it takes down. A run is the list of its actions. What the libraries
  answer (the connection pool, its ping, the exporter, the files, the database) are parameters;
  the number of the call distinguishes the pings. \<open>log.Fatal\<close> exits the process at once, without
  running the deferred functions.
\<close>

subsection \<open>Actions\<close>

datatype action =
    TracingUp "tracing option"
  | PoolUp string
  | PingOk
  | Migrated
  | StartWorker worker
  | Serve string service server_config
  | StopServer
  | ClosePool
  | ShutdownTracing
  | ReleaseSignals
  | Fatal go_error
  | Crash

record 's platform =
  plt_env :: env
  plt_ParseFloat :: "string \<Rightarrow> float64 option"
  plt_Exporter :: "string \<Rightarrow> bool \<Rightarrow> string option"
  plt_Merge :: "string \<Rightarrow> string option"
  plt_NewPool :: "string \<Rightarrow> go_error option"
  plt_Ping :: "nat \<Rightarrow> go_error option"
  plt_ReadDir :: "(string \<times> bool) list res"
  plt_ReadFile :: "string \<Rightarrow> string res"
  plt_Reached :: nat
  plt_Exec :: "string \<Rightarrow> 's \<Rightarrow> go_error option \<times> 's"

definition service_of :: "config \<Rightarrow> service" where
  "service_of cfg =
     NewService (cfg_DefaultReviewerID cfg) (cfg_ReminderAfter cfg) (cfg_ExecutionRetryBase cfg)
       (cfg_ExecutionMaxAttempts cfg)"

definition worker_of :: "config \<Rightarrow> worker" where
  "worker_of cfg = NewWorker (service_of cfg) (cfg_WorkerPollInterval cfg) (cfg_WorkerBatchSize cfg)"

text \<open>
  A worker without a positive poll interval panics in its goroutine, which ends the process; how
  many further actions the main goroutine gets to before that is a parameter (\<open>plt_Reached\<close>).
  The last four actions are the shutdown and the deferred calls, the latest deferred first. They
  come after a signal, or after the listener failed, which cancels the same context.
\<close>

definition serving :: "'s platform \<Rightarrow> config \<Rightarrow> action list" where
  "serving p cfg =
     (let acts =
        [Serve (cfg_HTTPAddr cfg) (service_of cfg)
           (NewServer (Some (\<lambda>n. plt_Ping p (n + 1))) (otel_ServiceName (cfg_OTel cfg))),
         StopServer, ClosePool, ShutdownTracing, ReleaseSignals]
      in StartWorker (worker_of cfg) #
         (if go_le (cfg_WorkerPollInterval cfg) 0 then take (plt_Reached p) acts @ [Crash] else acts))"

definition main :: "'s platform \<Rightarrow> 's \<Rightarrow> action list \<times> 's" where
  "main p s =
     (case Load (plt_ParseFloat p) (plt_env p) of
        Inl err \<Rightarrow> ([Fatal err], s)
      | Inr cfg \<Rightarrow>
         (case Setup (plt_Exporter p) (plt_Merge p) (cfg_OTel cfg) of
            Inl err \<Rightarrow> ([Fatal err], s)
          | Inr tr \<Rightarrow>
             (case plt_NewPool p (cfg_DatabaseURL cfg) of
                Some err \<Rightarrow> ([TracingUp tr, Fatal err], s)
              | None \<Rightarrow>
                 (case plt_Ping p 0 of
                    Some err \<Rightarrow> ([TracingUp tr, PoolUp (cfg_DatabaseURL cfg), Fatal err], s)
                  | None \<Rightarrow>
                     (case RunMigrations (plt_ReadDir p) (plt_ReadFile p) (plt_Exec p) s of
                        (Some err, s') \<Rightarrow>
                          ([TracingUp tr, PoolUp (cfg_DatabaseURL cfg), PingOk, Fatal err], s')
                      | (None, s') \<Rightarrow>
                          ([TracingUp tr, PoolUp (cfg_DatabaseURL cfg), PingOk, Migrated] @ serving p cfg,
                           s'))))))"

subsection \<open>Properties\<close>

text \<open>
  The errors of the five steps of the start, in their order: configuration, tracing, connection
  pool, ping and migrations. Without a configuration there is only the first.
\<close>

fun error_of :: "'a res \<Rightarrow> go_error option" where
  "error_of (Inl err) = Some err"
| "error_of (Inr x) = None"

definition start_errors :: "'s platform \<Rightarrow> 's \<Rightarrow> go_error option list" where
  "start_errors p s =
     (case Load (plt_ParseFloat p) (plt_env p) of
        Inl err \<Rightarrow> [Some err]
      | Inr cfg \<Rightarrow>
          [None, error_of (Setup (plt_Exporter p) (plt_Merge p) (cfg_OTel cfg)),
           plt_NewPool p (cfg_DatabaseURL cfg), plt_Ping p 0,
           fst (RunMigrations (plt_ReadDir p) (plt_ReadFile p) (plt_Exec p) s)])"

definition no_error :: "go_error option \<Rightarrow> bool" where
  "no_error e \<longleftrightarrow> e = None"

lemma Load_valid:
  assumes "Load F env = Inr cfg"
  shows "cfg_DatabaseURL cfg \<noteq> []" and "0 < sint (cfg_ExecutionMaxAttempts cfg)"
    and "cfg_DefaultReviewerID cfg \<noteq> []"
  using assms by (auto simp: Load_def Let_def go_le_def split: if_splits)

text \<open>Where a step fails, the failure is the last action, after those of the steps before it.\<close>

lemma main_failed:
  assumes "main p s = (acts, s')" and "\<not> list_all no_error (start_errors p s)"
  shows "\<exists>err tr url. find (\<lambda>e. \<not> no_error e) (start_errors p s) = Some (Some err) \<and>
    acts = take (length (takeWhile no_error (start_errors p s)) - 1) [TracingUp tr, PoolUp url, PingOk] @ [Fatal err] \<and>
    (PingOk \<notin> set acts \<longrightarrow> s' = s)"
  using assms
  by (auto simp: main_def start_errors_def no_error_def split: sum.splits option.splits prod.splits)

lemma main_succeeded:
  assumes "main p s = (acts, s')" and "list_all no_error (start_errors p s)"
  shows "\<exists>cfg tr. Load (plt_ParseFloat p) (plt_env p) = Inr cfg \<and>
    Setup (plt_Exporter p) (plt_Merge p) (cfg_OTel cfg) = Inr tr \<and>
    acts = [TracingUp tr, PoolUp (cfg_DatabaseURL cfg), PingOk, Migrated] @ serving p cfg \<and>
    RunMigrations (plt_ReadDir p) (plt_ReadFile p) (plt_Exec p) s = (None, s')"
  using assms
  by (auto simp: main_def start_errors_def no_error_def split: sum.splits option.splits prod.splits)

text \<open>
  C37: The program serves exactly if loading the configuration, setting up tracing, opening
  the pool, the ping and the migrations all succeed; then it has applied all migrations in
  order, starts the worker and the server it builds from the loaded configuration, and takes
  everything down in reverse, or crashes if the poll interval is not positive. Otherwise it
  stops at the first step that fails, with that step's error, after exactly the actions of the
  steps before it, and leaves the database alone unless the ping succeeded.
\<close>

theorem main_starts_in_order:
  assumes "main p s = (acts, s')"
  shows "if list_all no_error (start_errors p s)
    then \<exists>cfg tr entries rest. Load (plt_ParseFloat p) (plt_env p) = Inr cfg \<and>
      Setup (plt_Exporter p) (plt_Merge p) (cfg_OTel cfg) = Inr tr \<and>
      cfg_DatabaseURL cfg \<noteq> [] \<and> 0 < sint (executionMaxAttempts (service_of cfg)) \<and>
      0 < sint (batchSize (worker_of cfg)) \<and> wrk_service (worker_of cfg) = service_of cfg \<and>
      acts = [TracingUp tr, PoolUp (cfg_DatabaseURL cfg), PingOk, Migrated, StartWorker (worker_of cfg)] @ rest \<and>
      (let acts' = [Serve (cfg_HTTPAddr cfg) (service_of cfg)
             (NewServer (Some (\<lambda>n. plt_Ping p (n + 1))) (otel_ServiceName (cfg_OTel cfg))),
           StopServer, ClosePool, ShutdownTracing, ReleaseSignals]
       in if 0 < sint (pollInterval (worker_of cfg)) then rest = acts' else \<exists>k. rest = take k acts' @ [Crash]) \<and>
      plt_ReadDir p = Inr entries \<and>
      applied (plt_ReadFile p) (plt_Exec p) (migration_names entries) s s'
    else \<exists>err tr url. find (\<lambda>e. \<not> no_error e) (start_errors p s) = Some (Some err) \<and>
      acts = take (length (takeWhile no_error (start_errors p s)) - 1) [TracingUp tr, PoolUp url, PingOk] @ [Fatal err] \<and>
      (PingOk \<notin> set acts \<longrightarrow> s' = s)"
proof (cases "list_all no_error (start_errors p s)")
  case False
  with main_failed [OF assms] show ?thesis by simp
next
  case True
  from main_succeeded [OF assms True] obtain cfg tr where
    up: "Load (plt_ParseFloat p) (plt_env p) = Inr cfg"
      "Setup (plt_Exporter p) (plt_Merge p) (cfg_OTel cfg) = Inr tr"
      "acts = [TracingUp tr, PoolUp (cfg_DatabaseURL cfg), PingOk, Migrated] @ serving p cfg"
      "RunMigrations (plt_ReadDir p) (plt_ReadFile p) (plt_Exec p) s = (None, s')" by blast
  from up(4) obtain entries where files: "plt_ReadDir p = Inr entries"
      "applied (plt_ReadFile p) (plt_Exec p) (migration_names entries) s s'"
    by (auto simp: RunMigrations_def dest: apply_migrations_ok split: sum.splits)
  have cfg: "cfg_DatabaseURL cfg \<noteq> []" "0 < sint (executionMaxAttempts (service_of cfg))"
    "0 < sint (batchSize (worker_of cfg))" "wrk_service (worker_of cfg) = service_of cfg"
    "pollInterval (worker_of cfg) = cfg_WorkerPollInterval cfg"
    using Load_valid(1,2) [OF up(1)] batchSize_pos
    by (simp_all add: service_of_def NewService_def worker_of_def) (simp_all add: NewWorker_def)
  show ?thesis
    unfolding if_P [OF True] up(3)
    by (rule exI [of _ cfg], rule exI [of _ tr], rule exI [of _ entries], rule exI [of _ "tl (serving p cfg)"])
      (use up(1,2) files cfg in \<open>auto simp: serving_def Let_def go_le_def not_le\<close>)
qed

definition sample_platform :: "string list platform" where
  "sample_platform =
     \<lparr>plt_env = sample_env, plt_ParseFloat = (\<lambda>_. None), plt_Exporter = (\<lambda>_ _. None), plt_Merge = (\<lambda>_. None),
      plt_NewPool = (\<lambda>_. None), plt_Ping = (\<lambda>_. None), plt_ReadDir = Inr [(''000001_init.sql'', False)],
      plt_ReadFile = Inr, plt_Reached = 0, plt_Exec = (\<lambda>sql s. (None, s @ [sql]))\<rparr>"

theorem main_starts_in_order_witness:
  "(\<exists>acts tr srv. main sample_platform [] = (acts, [''000001_init.sql'']) \<and>
     acts = [TracingUp tr, PoolUp ''postgres://db'', PingOk, Migrated,
       StartWorker (worker_of (read_config (\<lambda>_. None) sample_env)),
       Serve '':8080'' (service_of (read_config (\<lambda>_. None) sample_env)) srv,
       StopServer, ClosePool, ShutdownTracing, ReleaseSignals]) \<and>
   (\<exists>tr url. main (sample_platform\<lparr>plt_Ping := (\<lambda>_. Some (OtherError ''down''))\<rparr>) [] =
     ([TracingUp tr, PoolUp url, Fatal (OtherError ''down'')], []))"
proof -
  let ?cfg = "read_config (\<lambda>_. None) sample_env"
  have names: "migration_names [(''000001_init.sql'', False)] = [''000001_init.sql'']" by code_simp
  have cfg: "otel_Enabled (cfg_OTel ?cfg) = False" "cfg_DatabaseURL ?cfg = ''postgres://db''"
      "cfg_HTTPAddr ?cfg = '':8080''"
    by (simp_all add: read_config_def mustBool_def getEnv_def sample_env_def)
  have poll: "cfg_WorkerPollInterval ?cfg = 10000000000"
    by (simp add: read_config_def mustDuration_def sample_env_def second_def nanosecond_def)
  let ?srv = "NewServer (Some (\<lambda>n. None)) (otel_ServiceName (cfg_OTel ?cfg))"
  have run: "main sample_platform [] = ([TracingUp None, PoolUp ''postgres://db'', PingOk, Migrated,
      StartWorker (worker_of ?cfg), Serve '':8080'' (service_of ?cfg) ?srv,
      StopServer, ClosePool, ShutdownTracing, ReleaseSignals], [''000001_init.sql''])"
    by (simp add: main_def sample_platform_def sample_env_loads Setup_def cfg RunMigrations_def names
        serving_def Let_def poll go_le_def)
  have "list_all no_error (start_errors sample_platform [])"
    by (simp add: start_errors_def sample_platform_def sample_env_loads Setup_def cfg RunMigrations_def names no_error_def)
  with main_starts_in_order [OF run] run have up: "\<exists>acts tr srv. main sample_platform [] = (acts, [''000001_init.sql'']) \<and>
     acts = [TracingUp tr, PoolUp ''postgres://db'', PingOk, Migrated, StartWorker (worker_of ?cfg),
       Serve '':8080'' (service_of ?cfg) srv, StopServer, ClosePool, ShutdownTracing, ReleaseSignals]"
    by (simp only: if_True) blast
  let ?p = "sample_platform\<lparr>plt_Ping := (\<lambda>_. Some (OtherError ''down''))\<rparr>"
  obtain acts s' where down: "main ?p [] = (acts, s')" by fastforce
  have errors: "start_errors ?p [] = [None, None, None, Some (OtherError ''down''), None]"
    by (simp add: start_errors_def sample_platform_def sample_env_loads Setup_def cfg RunMigrations_def names)
  from main_starts_in_order [OF down] down
  have "\<exists>tr url. main ?p [] = ([TracingUp tr, PoolUp url, Fatal (OtherError ''down'')], [])"
    by (auto simp: errors no_error_def)
  with up show ?thesis by blast
qed

text \<open>
  C38: A default reviewer of only spaces passes the check of the configuration but is trimmed
  away later: submitted requests are assigned to nobody, and only administrators can review
  them.
\<close>

theorem blank_reviewer:
  assumes "Load F env = Inr cfg" and "env ''DEFAULT_REVIEWER_ID'' \<noteq> []"
    and "trim_space (env ''DEFAULT_REVIEWER_ID'') = []" and "ValidateActor a = None"
  shows "AssignedReviewerID (submitted (service_of cfg) t q) = [] \<and>
    (canReview a (submitted (service_of cfg) t q) \<longleftrightarrow> act_Role a = RoleAdmin)"
proof -
  from assms(1) have "cfg = read_config F env"
    by (auto simp: Load_def Let_def split: if_splits)
  with assms(2,3) have "defaultReviewerID (service_of cfg) = []"
    by (simp add: read_config_def getEnv_def service_of_def NewService_def)
  moreover have "act_ID a \<noteq> []" using assms(4) by (auto simp: ValidateActor_def)
  ultimately show ?thesis by (auto simp: submitted_def canReview_def)
qed

theorem blank_reviewer_witness:
  "canReview reviewer (submitted (service_of (read_config (\<lambda>_. None) sample_env)) 3 sample_q1) \<longleftrightarrow>
   act_Role reviewer = RoleAdmin"
proof -
  have "trim_space '' '' = []" by code_simp
  moreover have "ValidateActor reviewer = None" by code_simp
  ultimately show ?thesis
    using blank_reviewer [OF sample_env_loads, of reviewer] by (simp add: sample_env_def)
qed

end
