(* ===== verification/StoreEquivalence.thy ===== *)
theory StoreEquivalence
  imports Sequential PostgresStore Sample
begin

text \<open>
  The two repositories compared. They hold the same data (\<open>agrees\<close>) and keep doing so: whatever
  a call on the service does over Postgres without an infrastructure failure, it does over the
  in-memory store with the same answer. What has to be excluded is made explicit by \<open>smooth\<close>:
  free text that is not trimmed, scopes with a bar in them, rows whose order the listings leave
  open, and the worker's selections, in whose order and default limit the repositories differ.
  That the calls of a client are smooth is then proved from conditions on the call, the database
  and the service alone, with the logic of theory Guarantee.
\<close>

declare run.simps [simp del]

subsection \<open>The same data\<close>

definition trimmed :: "request \<Rightarrow> bool" where
  "trimmed q \<longleftrightarrow> scanRequest q = q"

lemma trimmed_iff:
  "trimmed q \<longleftrightarrow> trim_space (AssignedReviewerID q) = AssignedReviewerID q \<and>
     trim_space (LastExecutionError q) = LastExecutionError q"
  by (cases q) (simp add: trimmed_def scanRequest_def)

definition agrees :: "db \<Rightarrow> mem \<Rightarrow> bool" where
  "agrees d s \<longleftrightarrow>
     pg_view d = mem_view s \<and>
     (\<forall>sc k. CHR ''|'' \<notin> set sc \<longrightarrow> pg_idem d sc k = mem_idem s sc k) \<and>
     pg_audit d = mem_audit s \<and>
     (\<forall>i. filter (\<lambda>r. rev_RequestID r = i) (tbl_reviews d) = mem_reviews s i) \<and>
     (\<forall>i. filter (\<lambda>r. job_RequestID r = i) (tbl_jobs d) = mem_jobRuns s i) \<and>
     list_all trimmed (tbl_requests d) \<and> db_ts d = (\<lambda>t. t)"

lemma agrees_parts:
  assumes "agrees d s"
  shows "pg_view d = mem_view s" "CHR ''|'' \<notin> set sc \<Longrightarrow> pg_idem d sc k = mem_idem s sc k"
    "pg_audit d = mem_audit s" "list_all trimmed (tbl_requests d)" "db_ts d = (\<lambda>t. t)"
  using assms by (simp_all add: agrees_def)

lemma agrees_tick [simp]: "agrees (tick d) s = agrees d s"
  by (simp add: agrees_def) (simp add: tick_def)

lemma agrees_after_loop [simp]: "agrees d (after_loop s) = agrees d s"
  by (simp add: agrees_def) (simp add: after_loop_def)

definition infra :: "go_error \<Rightarrow> bool" where
  "infra e \<longleftrightarrow> (\<exists>m. e = OtherError m)"

text \<open>The writes that both repositories treat alike.\<close>

fun plain_write :: "(string \<Rightarrow> request option) \<Rightarrow> write_call \<Rightarrow> bool" where
  "plain_write view (CreateRequest q) \<longleftrightarrow> trimmed q"
| "plain_write view (UpdateRequest q v) \<longleftrightarrow>
     trimmed q \<and> (case view (ReqID q) of None \<Rightarrow> False | Some cur \<Rightarrow> CreatedAt cur = CreatedAt q)"
| "plain_write view (CreateIdempotency r) \<longleftrightarrow> CHR ''|'' \<notin> set (idem_Scope r)"
| "plain_write view _ \<longleftrightarrow> True"

subsection \<open>Statements without a failure\<close>

lemma statement_smooth:
  "statement f d = (r, d') \<Longrightarrow> (\<And>e. r = Inl e \<Longrightarrow> \<not> infra e) \<Longrightarrow> f (tick d) = (r, d')"
  using statement_outcome by (fastforce simp: infra_def)

lemma exec_error_smooth:
  assumes "exec_error (statement f d) = (e, d')" and "\<And>err. e = Some err \<Longrightarrow> \<not> infra err"
  shows "exec_error (f (tick d)) = (e, d')"
proof -
  obtain r d1 where st: "statement f d = (r, d1)" by fastforce
  have "\<not> infra err" if "r = Inl err" for err
    using assms unfolding st that by simp
  with st have "f (tick d) = (r, d1)" by (rule statement_smooth)
  with st assms(1) show ?thesis by simp
qed

lemma exec_affected_smooth:
  assumes "exec_affected (statement f d) = (e, d')" and "\<And>err. e = Some err \<Longrightarrow> \<not> infra err"
  shows "exec_affected (f (tick d)) = (e, d')"
proof -
  obtain r d1 where st: "statement f d = (r, d1)" by fastforce
  have "\<not> infra err" if "r = Inl err" for err
    using assms unfolding st that by simp
  with st have "f (tick d) = (r, d1)" by (rule statement_smooth)
  with st assms(1) show ?thesis by simp
qed

lemma encode_exact: "encode_request (\<lambda>t. t) q = q"
  by (simp add: encode_request_def option.map_ident)

lemma insert_request_view:
  assumes "insert_request q d = (Inr n, d')" and "db_ts d = (\<lambda>t. t)" and "trimmed q"
  shows "pg_view d' = (pg_view d)(ReqID q \<mapsto> q)"
    and "d' = d\<lparr>tbl_requests := tbl_requests d @ [q]\<rparr>"
proof -
  show d': "d' = d\<lparr>tbl_requests := tbl_requests d @ [q]\<rparr>"
    using assms(1,2) by (auto simp: insert_request_def encode_exact split: if_splits)
  have "find (\<lambda>r. ReqID r = ReqID q) (tbl_requests d) = None"
    using assms(1) by (auto simp: insert_request_def request_exists_def list_ex_iff find_None_iff split: if_splits)
  then show "pg_view d' = (pg_view d)(ReqID q \<mapsto> q)"
    using assms(3) by (auto simp: d' pg_view_def find_append trimmed_def fun_eq_iff split: option.split)
qed

lemma update_request_view:
  assumes "update_request q v d = (Inr n, d')" and "distinct (map ReqID (tbl_requests d))"
    and "db_ts d = (\<lambda>t. t)" and "trimmed q" and cur: "pg_view d (ReqID q) = Some cur" "CreatedAt cur = CreatedAt q"
  shows "pg_view d' = (if Version cur = v then (pg_view d)(ReqID q \<mapsto> q) else pg_view d)"
    and "n = 0 \<longleftrightarrow> Version cur \<noteq> v"
    and "list_all trimmed (tbl_requests d) \<Longrightarrow> list_all trimmed (tbl_requests d')"
    and "\<exists>rows. d' = d\<lparr>tbl_requests := rows\<rparr>"
proof -
  let ?hit = "\<lambda>r. ReqID r = ReqID q \<and> Version r = v"
  let ?g = "\<lambda>r. if ?hit r then set_columns (\<lambda>t. t) q r else r"
  from assms(1,3) have d': "d' = d\<lparr>tbl_requests := map ?g (tbl_requests d)\<rparr>"
      "n = length (filter ?hit (tbl_requests d))"
    by (auto simp: update_request_def Let_def split: if_splits)
  then show "\<exists>rows. d' = d\<lparr>tbl_requests := rows\<rparr>" by blast
  from cur obtain row where row: "find (\<lambda>r. ReqID r = ReqID q) (tbl_requests d) = Some row" "cur = scanRequest row"
    by (auto simp: pg_view_def)
  from row(2) have "CreatedAt row = CreatedAt q" "Version row = Version cur"
    using cur(2) by (simp_all add: scanRequest_def)
  then have set: "set_columns (\<lambda>t. t) q row = q"
    by (simp add: set_columns_def encode_exact)
  have id: "ReqID row = ReqID q" using row(1) by (auto simp: find_Some_iff)
  show "n = 0 \<longleftrightarrow> Version cur \<noteq> v"
    using filter_hit [OF assms(2), of "ReqID q" v] row(1) \<open>Version row = Version cur\<close>
    unfolding d'(2) by simp
  have view: "pg_view d' i = map_option (\<lambda>r. scanRequest (?g r)) (find (\<lambda>r. ReqID r = i) (tbl_requests d))" for i
    unfolding d'(1) pg_view_def by (simp add: find_map_hit option.map_comp o_def del: map_map)
  have "pg_view d' i = (if Version cur = v then (pg_view d)(ReqID q \<mapsto> q) else pg_view d) i" for i
  proof (cases "i = ReqID q")
    case True
    with row set id assms(4) \<open>Version row = Version cur\<close> show ?thesis
      unfolding view by (simp add: pg_view_def trimmed_def)
  next
    case False
    then have "find (\<lambda>r. ReqID r = i) (tbl_requests d) = Some r \<Longrightarrow> \<not> ?hit r" for r
      by (auto simp: find_Some_iff)
    with False show ?thesis
      unfolding view by (cases "find (\<lambda>r. ReqID r = i) (tbl_requests d)") (auto simp: pg_view_def)
  qed
  then show "pg_view d' = (if Version cur = v then (pg_view d)(ReqID q \<mapsto> q) else pg_view d)" by blast
  have "trimmed (set_columns (\<lambda>t. t) q r)" for r
    using assms(4) by (simp add: trimmed_iff set_columns_def encode_exact)
  then show "list_all trimmed (tbl_requests d) \<Longrightarrow> list_all trimmed (tbl_requests d')"
    unfolding d'(1) by (auto simp: list_all_iff)
qed

subsection \<open>Writes\<close>

lemma agrees_requests:
  assumes "agrees d s" and "pg_view (d\<lparr>tbl_requests := rows\<rparr>) = mem_view (s\<lparr>mem_requests := xs\<rparr>)"
    and "list_all trimmed rows"
  shows "agrees (d\<lparr>tbl_requests := rows\<rparr>) (s\<lparr>mem_requests := xs\<rparr>)"
proof -
  have "pg_idem (d\<lparr>tbl_requests := rows\<rparr>) = pg_idem d" "pg_audit (d\<lparr>tbl_requests := rows\<rparr>) = pg_audit d"
    "mem_idem (s\<lparr>mem_requests := xs\<rparr>) = mem_idem s"
    by (simp_all add: pg_idem_def pg_audit_def mem_idem_def fun_eq_iff)
  with assms show ?thesis by (simp add: agrees_def)
qed

lemma create_agrees:
  assumes "agrees d s" and "pg_CreateRequest q d = (e, d')" and "\<And>err. e = Some err \<Longrightarrow> \<not> infra err"
    and "trimmed q"
  shows "\<exists>s'. mem_CreateRequest q s = (e, s') \<and> agrees d' s'"
proof -
  have ex: "exec_error (insert_request q (tick d)) = (e, d')"
    using assms(2,3) unfolding pg_CreateRequest_def by (rule exec_error_smooth)
  have a: "agrees (tick d) s" and ts: "db_ts (tick d) = (\<lambda>t. t)" using assms(1) by (simp_all add: agrees_parts)
  obtain r d1 where r: "insert_request q (tick d) = (r, d1)" by fastforce
  show ?thesis
  proof (cases r)
    case (Inl err)
    with r ex assms(3) show ?thesis by (auto simp: insert_request_def infra_def split: if_splits)
  next
    case (Inr n)
    with r ex have e: "e = None" "d1 = d'" by simp_all
    note v = insert_request_view [OF r [unfolded Inr e(2)] ts assms(4)]
    have "agrees (tick d\<lparr>tbl_requests := tbl_requests (tick d) @ [q]\<rparr>)
        (s\<lparr>mem_requests := AList.update (ReqID q) q (mem_requests s)\<rparr>)"
    proof (rule agrees_requests [OF a])
      show "pg_view (tick d\<lparr>tbl_requests := tbl_requests (tick d) @ [q]\<rparr>) =
          mem_view (s\<lparr>mem_requests := AList.update (ReqID q) q (mem_requests s)\<rparr>)"
        unfolding v(2) [symmetric] v(1) agrees_parts(1) [OF a] by (simp add: mem_view_update)
      show "list_all trimmed (tbl_requests (tick d) @ [q])"
        using agrees_parts(4) [OF a] assms(4) by simp
    qed
    with v(2) e(1) show ?thesis by (simp add: mem_CreateRequest_def)
  qed
qed

lemma update_agrees:
  assumes "agrees d s" and "pg_inv d" and "pg_UpdateRequest q v d = (e, d')"
    and "\<And>err. e = Some err \<Longrightarrow> \<not> infra err" and "plain_write (pg_view d) (UpdateRequest q v)"
  shows "\<exists>s'. mem_UpdateRequest q v s = (e, s') \<and> agrees d' s'"
proof -
  have ex: "exec_affected (update_request q v (tick d)) = (e, d')"
    using assms(3,4) unfolding pg_UpdateRequest_def by (rule exec_affected_smooth)
  have a: "agrees (tick d) s" and ts: "db_ts (tick d) = (\<lambda>t. t)" using assms(1) by (simp_all add: agrees_parts)
  have dist: "distinct (map ReqID (tbl_requests (tick d)))" using assms(2) by (simp add: pg_inv_def)
  from assms(5) obtain cur where cur: "pg_view (tick d) (ReqID q) = Some cur" "CreatedAt cur = CreatedAt q"
      and q: "trimmed q" by (auto split: option.splits)
  then have mem: "map_of (mem_requests s) (ReqID q) = Some cur"
    using agrees_parts(1) [OF a] by (simp add: mem_view_def)
  obtain r d1 where r: "update_request q v (tick d) = (r, d1)" by fastforce
  show ?thesis
  proof (cases r)
    case (Inl err)
    with r ex assms(4) show ?thesis by (auto simp: update_request_def Let_def infra_def split: if_splits)
  next
    case (Inr n)
    note u = update_request_view [OF r [unfolded Inr] dist ts q cur]
    then obtain rows where d1: "d1 = tick d\<lparr>tbl_requests := rows\<rparr>" by blast
    have rows: "list_all trimmed rows" using u(3) agrees_parts(4) [OF a] d1 by simp
    show ?thesis
    proof (cases "Version cur = v")
      case True
      with u(2) r Inr ex have e: "e = None" "d' = d1" by simp_all
      have "agrees (tick d\<lparr>tbl_requests := rows\<rparr>) (s\<lparr>mem_requests := AList.update (ReqID q) q (mem_requests s)\<rparr>)"
        using u(1) d1 True rows a agrees_parts(1) [OF a] by (intro agrees_requests) (simp_all add: mem_view_update)
      with e d1 True mem show ?thesis by (simp add: mem_UpdateRequest_def)
    next
      case False
      with u(2) r Inr ex have e: "e = Some (Sentinel ErrConflict)" "d' = d1" by simp_all
      have "agrees (tick d\<lparr>tbl_requests := rows\<rparr>) (s\<lparr>mem_requests := mem_requests s\<rparr>)"
        using u(1) d1 False rows a agrees_parts(1) [OF a] by (intro agrees_requests) simp_all
      with e d1 False mem show ?thesis by (simp add: mem_UpdateRequest_def)
    qed
  qed
qed

lemma request_exists_agrees: "agrees d s \<Longrightarrow> request_exists i d \<longleftrightarrow> mem_view s i \<noteq> None"
  by (simp add: request_exists_view agrees_parts)

text \<open>The inserts into the other tables only append.\<close>

lemma audit_agrees:
  assumes "agrees d s" and "pg_AppendAudit a d = (e, d')" and "\<And>err. e = Some err \<Longrightarrow> \<not> infra err"
  shows "\<exists>s'. mem_AppendAudit a s = (e, s') \<and> agrees d' s'"
proof -
  have "exec_error (insert_audit a (tick d)) = (e, d')"
    using assms(2,3) unfolding pg_AppendAudit_def by (rule exec_error_smooth)
  with assms(1,3) have "e = None" "d' = tick d\<lparr>tbl_audit := tbl_audit d @ [a]\<rparr>"
    by (auto simp: insert_audit_def infra_def agrees_parts(5) split: if_splits)
  moreover have "agrees (tick d\<lparr>tbl_audit := tbl_audit d @ [a]\<rparr>)
      (s\<lparr>mem_audit := (mem_audit s)(aud_RequestID a := mem_audit s (aud_RequestID a) @ [a])\<rparr>)"
    using assms(1)
    by (auto simp: agrees_def pg_view_def pg_idem_def pg_audit_def mem_view_def mem_idem_def tick_def fun_eq_iff)
  ultimately show ?thesis by (simp add: mem_AppendAudit_def)
qed

lemma review_agrees:
  assumes "agrees d s" and "pg_CreateReview r d = (e, d')" and "\<And>err. e = Some err \<Longrightarrow> \<not> infra err"
  shows "\<exists>s'. mem_CreateReview r s = (e, s') \<and> agrees d' s'"
proof -
  have "exec_error (insert_review r (tick d)) = (e, d')"
    using assms(2,3) unfolding pg_CreateReview_def by (rule exec_error_smooth)
  with assms(1,3) have "e = None" "d' = tick d\<lparr>tbl_reviews := tbl_reviews (tick d) @ [r]\<rparr>"
    by (auto simp: insert_review_def infra_def agrees_parts(5) split: if_splits)
  moreover have "agrees (tick d\<lparr>tbl_reviews := tbl_reviews (tick d) @ [r]\<rparr>)
      (s\<lparr>mem_reviews := (mem_reviews s)(rev_RequestID r := mem_reviews s (rev_RequestID r) @ [r])\<rparr>)"
    using assms(1)
    by (auto simp: agrees_def pg_view_def pg_idem_def pg_audit_def mem_view_def mem_idem_def tick_def fun_eq_iff)
  ultimately show ?thesis by (simp add: mem_CreateReview_def)
qed

lemma job_agrees:
  assumes "agrees d s" and "pg_AppendJobRun r d = (e, d')" and "\<And>err. e = Some err \<Longrightarrow> \<not> infra err"
  shows "\<exists>s'. mem_AppendJobRun r s = (e, s') \<and> agrees d' s'"
proof -
  have "exec_error (insert_job r (tick d)) = (e, d')"
    using assms(2,3) unfolding pg_AppendJobRun_def by (rule exec_error_smooth)
  with assms(1,3) have "e = None" "d' = tick d\<lparr>tbl_jobs := tbl_jobs (tick d) @ [r]\<rparr>"
    by (auto simp: insert_job_def infra_def agrees_parts(5) split: if_splits)
  moreover have "agrees (tick d\<lparr>tbl_jobs := tbl_jobs (tick d) @ [r]\<rparr>)
      (s\<lparr>mem_jobRuns := (mem_jobRuns s)(job_RequestID r := mem_jobRuns s (job_RequestID r) @ [r])\<rparr>)"
    using assms(1)
    by (auto simp: agrees_def pg_view_def pg_idem_def pg_audit_def mem_view_def mem_idem_def tick_def fun_eq_iff)
  ultimately show ?thesis by (simp add: mem_AppendJobRun_def)
qed

lemma compound_inject:
  "CHR ''|'' \<notin> set sc \<Longrightarrow> CHR ''|'' \<notin> set sc' \<Longrightarrow>
   mem_compound sc k = mem_compound sc' k' \<longleftrightarrow> sc = sc' \<and> k = k'"
  by (simp add: mem_compound_def append_sep_inject)

lemma key_agrees:
  assumes "agrees d s" and "pg_CreateIdempotency r d = (e, d')" and "\<And>err. e = Some err \<Longrightarrow> \<not> infra err"
    and bar: "CHR ''|'' \<notin> set (idem_Scope r)"
  shows "\<exists>s'. mem_CreateIdempotency r s = (e, s') \<and> agrees d' s'"
proof -
  let ?t = "tick d" and ?c = "mem_compound (idem_Scope r) (idem_Key r)"
  have ex: "exec_affected (insert_idempotency r ?t) = (e, d')"
    using assms(2,3) unfolding pg_CreateIdempotency_def by (rule exec_affected_smooth)
  have same: "pg_idem ?t (idem_Scope r) (idem_Key r) = mem_idempotency s ?c"
    using agrees_parts(2) [OF assms(1) bar] by (simp add: mem_idem_def)
  have known: "list_ex (is_key (idem_Scope r) (idem_Key r)) (tbl_idempotency d) \<longleftrightarrow> mem_idempotency s ?c \<noteq> None"
    unfolding same [symmetric] by (auto simp: pg_idem_def find_None_iff list_ex_iff)
  show ?thesis
  proof (cases "mem_idempotency s ?c")
    case (Some r0)
    with ex assms(3) known have "e = Some (Sentinel ErrConflict)" "d' = ?t"
      by (auto simp: insert_idempotency_def infra_def split: if_splits)
    with Some assms(1) show ?thesis by (simp add: mem_CreateIdempotency_def Let_def)
  next
    case None
    let ?d = "?t\<lparr>tbl_idempotency := tbl_idempotency ?t @ [r]\<rparr>"
    let ?s = "s\<lparr>mem_idempotency := (mem_idempotency s)(?c \<mapsto> r)\<rparr>"
    from None ex assms(1,3) known have e: "e = None" "d' = ?d"
      by (auto simp: insert_idempotency_def infra_def agrees_parts(5) split: if_splits)
    have "pg_idem ?d sc k = mem_idem ?s sc k" if "CHR ''|'' \<notin> set sc" for sc k
    proof (cases "sc = idem_Scope r \<and> k = idem_Key r")
      case True
      then show ?thesis
        using None same by (simp add: pg_idem_def mem_idem_def find_append is_key_def)
    next
      case False
      then have "mem_compound sc k \<noteq> ?c" using compound_inject [OF that bar] by blast
      moreover from False have "\<not> is_key sc k r" by (auto simp: is_key_def)
      ultimately show ?thesis
        using agrees_parts(2) [OF assms(1) that, of k]
        by (simp add: pg_idem_def mem_idem_def find_append split: option.split)
    qed
    moreover have "pg_view ?d = pg_view d" "pg_audit ?d = pg_audit d" "mem_view ?s = mem_view s"
      by (simp_all add: pg_view_def pg_audit_def mem_view_def fun_eq_iff tick_def)
    ultimately have "agrees ?d ?s"
      using assms(1) unfolding agrees_def by (simp add: tick_def)
    with e None show ?thesis by (simp add: mem_CreateIdempotency_def Let_def)
  qed
qed

lemma write_agrees:
  assumes "agrees d s" and "pg_inv d" and "pg_write c d = (e, d')"
    and "\<And>err. e = Some err \<Longrightarrow> \<not> infra err" and "plain_write (pg_view d) c"
  shows "\<exists>s'. mem_write c s = (e, s') \<and> agrees d' s'"
proof (cases c)
  case (CreateRequest q)
  with assms create_agrees [of d s q e d'] show ?thesis by simp
next
  case (UpdateRequest q v)
  with assms update_agrees [of d s q v e d'] show ?thesis by simp
next
  case (AppendAudit a)
  with assms audit_agrees [of d s a e d'] show ?thesis by simp
next
  case (CreateReview r)
  with assms review_agrees [of d s r e d'] show ?thesis by simp
next
  case (CreateIdempotency r)
  with assms key_agrees [of d s r e d'] show ?thesis by simp
next
  case (AppendJobRun r)
  with assms job_agrees [of d s r e d'] show ?thesis by simp
qed

subsection \<open>Reads\<close>

lemma get_agrees:
  assumes "agrees d s" and "pg_GetRequest i d = (r, d')" and "\<And>err. r = Inl err \<Longrightarrow> \<not> infra err"
  shows "mem_GetRequest i s = (r, s) \<and> agrees d' s"
proof -
  have "select_request i (tick d) = (r, d')"
    using assms(2,3) unfolding pg_GetRequest_def by (rule statement_smooth)
  moreover have "mem_view s i = map_option scanRequest (find (\<lambda>r. ReqID r = i) (tbl_requests d))"
    by (simp add: agrees_parts(1) [OF assms(1), symmetric] pg_view_def)
  ultimately show ?thesis
    using assms(1,3)
    by (auto simp: select_request_def mem_GetRequest_def mem_view_def infra_def split: option.splits if_splits)
qed

lemma idempotency_agrees:
  assumes "agrees d s" and "pg_GetIdempotency sc k d = (r, d')" and "\<And>err. r = Inl err \<Longrightarrow> \<not> infra err"
    and "CHR ''|'' \<notin> set sc"
  shows "mem_GetIdempotency sc k s = (r, s) \<and> agrees d' s"
proof -
  have "select_idempotency sc k (tick d) = (r, d')"
    using assms(2,3) unfolding pg_GetIdempotency_def by (rule statement_smooth)
  moreover have "mem_idempotency s (mem_compound sc k) = find (is_key sc k) (tbl_idempotency d)"
    using agrees_parts(2) [OF assms(1,4), of k] by (simp add: pg_idem_def mem_idem_def)
  ultimately show ?thesis
    using assms(1,3)
    by (auto simp: select_idempotency_def mem_GetIdempotency_def infra_def split: option.splits if_splits)
qed

text \<open>Sorting by different keys leaves no choice.\<close>

lemma sort_key_unique:
  assumes "set xs = set ys" and "distinct xs" and "distinct ys" and "inj_on k (set xs)"
  shows "sort_key k xs = sort_key k ys"
  using assms by (intro map_sorted_distinct_set_unique) (simp_all add: distinct_map)

lemma audit_list_agrees:
  assumes "agrees d s" and "pg_inv d" and "mem_inv s" and "pg_ListAudit i d = (r, d')"
    and "\<And>err. r = Inl err \<Longrightarrow> \<not> infra err" and "distinct (map aud_CreatedAt (pg_audit d i))"
  shows "mem_ListAudit i s = (r, after_loop s) \<and> agrees d' (after_loop s)"
proof -
  let ?xs = "pg_audit d i" and ?po = "db_audit_order (tick d) (db_queries (tick d))"
  let ?mo = "mem_ties s (mem_loops s)"
  have st: "select_audit i (tick d) = (r, d')"
    using assms(4,5) unfolding pg_ListAudit_def by (rule statement_smooth)
  have perm: "mset (?po ?xs) = mset ?xs" "mset (?mo ?xs) = mset ?xs"
    using assms(2,3) by (simp_all add: pg_inv_def mem_inv_def permutes_lists_def tick_def)
  have dist: "distinct ?xs" "inj_on aud_CreatedAt (set ?xs)"
    using assms(6) by (simp_all add: distinct_map)
  have "sort_key aud_CreatedAt (?po ?xs) = sort_key aud_CreatedAt (?mo ?xs)"
    using perm dist mset_eq_setD [OF perm(1)] mset_eq_setD [OF perm(2)] mset_eq_imp_distinct_iff [OF perm(1)]
      mset_eq_imp_distinct_iff [OF perm(2)]
    by (intro sort_key_unique) simp_all
  moreover have "mem_audit s i = ?xs" using agrees_parts(3) [OF assms(1)] by simp
  moreover have "filter (\<lambda>r. aud_RequestID r = i) (tbl_audit d) = ?xs" by (simp add: pg_audit_def)
  ultimately show ?thesis
    using st assms(1,5) by (auto simp: select_audit_def mem_ListAudit_def infra_def split: if_splits)
qed

lemma find_mem: "find P xs = Some x \<Longrightarrow> x \<in> set xs"
  by (auto simp: find_Some_iff)

lemma set_rows:
  assumes "pg_inv d" and "list_all trimmed (tbl_requests d)"
  shows "set (tbl_requests d) = {q. pg_view d (ReqID q) = Some q}"
proof (intro set_eqI iffI)
  fix q assume "q \<in> set (tbl_requests d)"
  with assms show "q \<in> {q. pg_view d (ReqID q) = Some q}"
    by (simp add: pg_view_row list_all_iff trimmed_def)
next
  fix q assume "q \<in> {q. pg_view d (ReqID q) = Some q}"
  then obtain row where "find (\<lambda>r. ReqID r = ReqID q) (tbl_requests d) = Some row" "scanRequest row = q"
    unfolding pg_view_def by auto
  moreover from find_mem [OF this(1)] assms(2) have "scanRequest row = row" "row \<in> set (tbl_requests d)"
    by (simp_all add: list_all_iff trimmed_def)
  ultimately show "q \<in> set (tbl_requests d)" by simp
qed

lemma listing_agrees:
  assumes "agrees d s" and "pg_inv d" and "mem_inv s" and "pg_ListRequests f d = (r, d')"
    and "\<And>err. r = Inl err \<Longrightarrow> \<not> infra err" and "inj_on CreatedAt (set (tbl_requests d))"
  shows "mem_ListRequests f s = (r, after_loop s) \<and> agrees d' (after_loop s)"
proof -
  let ?p = "heap_order (tick d)" and ?m = "range_requests s"
  have st: "select_requests f (tick d) = (r, d')"
    using assms(4,5) unfolding pg_ListRequests_def by (rule statement_smooth)
  note rows = set_rows [OF assms(2) agrees_parts(4) [OF assms(1)]]
  have p: "mset ?p = mset (tbl_requests d)"
    using assms(2) by (simp add: heap_order_def pg_inv_def permutes_lists_def tick_def)
  then have sp: "set ?p = {q. mem_view s (ReqID q) = Some q}" "distinct ?p"
    using rows agrees_parts(1) [OF assms(1)] mset_eq_setD [OF p] mset_eq_imp_distinct_iff [OF p] assms(2)
    by (simp_all add: pg_inv_def distinct_map)
  have sm: "set ?m = {q. mem_view s (ReqID q) = Some q}" "distinct ?m"
    using range_view_iff [OF assms(3)] range_distinct [OF assms(3)] by (auto simp: distinct_map)
  have inj: "inj_on CreatedAt (set ?p)"
    using assms(6) mset_eq_setD [OF p] by simp
  have "pg_matches f q = mem_matches f q" for q by (auto simp: pg_matches_def mem_matches_def)
  then have "sort_key CreatedAt (filter (pg_matches f) ?p) = sort_key CreatedAt (filter (mem_matches f) ?m)"
    using sp sm by (intro sort_key_unique inj_on_subset [OF inj]) auto
  moreover have "map scanRequest (sort_key CreatedAt (filter (pg_matches f) ?p)) =
      sort_key CreatedAt (filter (pg_matches f) ?p)"
    using agrees_parts(4) [OF assms(1)] mset_eq_setD [OF p]
    by (intro map_idI) (auto simp: list_all_iff trimmed_def)
  ultimately show ?thesis
    using st assms(1,5) by (auto simp: select_requests_def mem_ListRequests_def infra_def split: if_splits)
qed

subsection \<open>Programs\<close>

definition same_world :: "db world \<Rightarrow> mem world \<Rightarrow> bool" where
  "same_world v w \<longleftrightarrow>
     agrees (wstore v) (wstore w) \<and> pg_inv (wstore v) \<and> mem_inv (wstore w) \<and>
     clock v = clock w \<and> ticks v = ticks w \<and> entropy v = entropy w \<and> draws v = draws w \<and>
     executed v = executed w"

text \<open>A run over Postgres in which nothing happens that the in-memory store does differently.\<close>

fun list_smooth :: "list_call \<Rightarrow> db \<Rightarrow> bool" where
  "list_smooth (ListRequests f) d \<longleftrightarrow> inj_on CreatedAt (set (tbl_requests d))"
| "list_smooth _ d \<longleftrightarrow> False"

primrec smooth :: "executor \<Rightarrow> 'a prog \<Rightarrow> db world \<Rightarrow> bool" where
  "smooth ex (Return a) = (\<lambda>v. True)"
| "smooth ex (Write c k) =
     (\<lambda>v. plain_write (pg_view (wstore v)) c \<and>
        (case pg_write c (wstore v) of (e, d) \<Rightarrow>
           (\<forall>err. e = Some err \<longrightarrow> \<not> infra err) \<and> smooth ex (k e) (v\<lparr>wstore := d\<rparr>)))"
| "smooth ex (GetRequest i k) =
     (\<lambda>v. case pg_GetRequest i (wstore v) of (r, d) \<Rightarrow>
        (\<forall>err. r = Inl err \<longrightarrow> \<not> infra err) \<and> smooth ex (k r) (v\<lparr>wstore := d\<rparr>))"
| "smooth ex (ListOf c k) =
     (\<lambda>v. list_smooth c (wstore v) \<and>
        (case pg_list c (wstore v) of (r, d) \<Rightarrow>
           (\<forall>err. r = Inl err \<longrightarrow> \<not> infra err) \<and> smooth ex (k r) (v\<lparr>wstore := d\<rparr>)))"
| "smooth ex (ListAudit i k) =
     (\<lambda>v. distinct (map aud_CreatedAt (pg_audit (wstore v) i)) \<and>
        (case pg_ListAudit i (wstore v) of (r, d) \<Rightarrow>
           (\<forall>err. r = Inl err \<longrightarrow> \<not> infra err) \<and> smooth ex (k r) (v\<lparr>wstore := d\<rparr>)))"
| "smooth ex (GetIdempotency sc i k) =
     (\<lambda>v. CHR ''|'' \<notin> set sc \<and>
        (case pg_GetIdempotency sc i (wstore v) of (r, d) \<Rightarrow>
           (\<forall>err. r = Inl err \<longrightarrow> \<not> infra err) \<and> smooth ex (k r) (v\<lparr>wstore := d\<rparr>)))"
| "smooth ex (Now k) = (\<lambda>v. smooth ex (k (clock v (ticks v))) (v\<lparr>ticks := ticks v + 1\<rparr>))"
| "smooth ex (NewID p k) = (\<lambda>v. smooth ex (k (draw_id p v)) (after_draw v))"
| "smooth ex (Execute q k) = (\<lambda>v. smooth ex (k (ex q)) (v\<lparr>executed := executed v @ [q]\<rparr>))"

lemma same_world_draw:
  "same_world v w \<Longrightarrow> draw_id p v = draw_id p w \<and> same_world (after_draw v) (after_draw w)"
  by (auto simp: same_world_def draw_id_def after_draw_def split: option.split)

lemma same_world_store:
  "same_world v w \<Longrightarrow> agrees d s \<Longrightarrow> pg_inv d \<Longrightarrow> mem_inv s \<Longrightarrow>
   same_world (v\<lparr>wstore := d\<rparr>) (w\<lparr>wstore := s\<rparr>)"
  by (simp add: same_world_def)

lemma smooth_run:
  "smooth ex p v \<Longrightarrow> same_world v w \<Longrightarrow>
   \<exists>r v' w'. run pg_ops ex p v = (r, v') \<and> run mem_ops ex p w = (r, w') \<and> same_world v' w'"
proof (induction p arbitrary: v w)
  case (Return a)
  then show ?case by (simp add: run.simps)
next
  case (Write c k)
  from Write.prems(2) have st: "agrees (wstore v) (wstore w)" "pg_inv (wstore v)" "mem_inv (wstore w)"
    by (simp_all add: same_world_def)
  obtain e d where pg: "pg_write c (wstore v) = (e, d)" by fastforce
  with Write.prems(1) have ok: "plain_write (pg_view (wstore v)) c" "\<And>err. e = Some err \<Longrightarrow> \<not> infra err"
    "smooth ex (k e) (v\<lparr>wstore := d\<rparr>)" by auto
  obtain s where s: "mem_write c (wstore w) = (e, s)" "agrees d s"
    using write_agrees [OF st(1,2) pg ok(2,1)] by blast
  have "same_world (v\<lparr>wstore := d\<rparr>) (w\<lparr>wstore := s\<rparr>)"
    using Write.prems(2) s(2) postgres.write_inv [OF st(2), of c e d] memory.write_inv [OF st(3), of c e s] pg s(1)
    by (intro same_world_store) simp_all
  with Write.IH [OF rangeI ok(3)] pg s(1) show ?case by (simp add: run.simps)
next
  case (GetRequest i k)
  from GetRequest.prems(2) have st: "agrees (wstore v) (wstore w)" "pg_inv (wstore v)" "mem_inv (wstore w)"
    by (simp_all add: same_world_def)
  obtain r d where pg: "pg_GetRequest i (wstore v) = (r, d)" by fastforce
  with GetRequest.prems(1) have ok: "\<And>err. r = Inl err \<Longrightarrow> \<not> infra err" "smooth ex (k r) (v\<lparr>wstore := d\<rparr>)" by auto
  note s = get_agrees [OF st(1) pg ok(1)]
  have "same_world (v\<lparr>wstore := d\<rparr>) (w\<lparr>wstore := wstore w\<rparr>)"
    using GetRequest.prems(2) s st pg_read_state(1) [OF pg] by (intro same_world_store) simp_all
  with GetRequest.IH [OF rangeI ok(2)] pg s show ?case by (simp add: run.simps)
next
  case (ListOf c k)
  from ListOf.prems(2) have st: "agrees (wstore v) (wstore w)" "pg_inv (wstore v)" "mem_inv (wstore w)"
    by (simp_all add: same_world_def)
  obtain r d where pg: "pg_list c (wstore v) = (r, d)" by fastforce
  with ListOf.prems(1) obtain f where c: "c = ListRequests f" "inj_on CreatedAt (set (tbl_requests (wstore v)))"
    and ok: "\<And>err. r = Inl err \<Longrightarrow> \<not> infra err" "smooth ex (k r) (v\<lparr>wstore := d\<rparr>)" by (cases c) auto
  have "pg_ListRequests f (wstore v) = (r, d)" using pg c(1) by simp
  note s = listing_agrees [OF st this ok(1) c(2)]
  have "same_world (v\<lparr>wstore := d\<rparr>) (w\<lparr>wstore := after_loop (wstore w)\<rparr>)"
    using ListOf.prems(2) s st pg_read_state(2) [OF pg] by (intro same_world_store) simp_all
  with ListOf.IH [OF rangeI ok(2)] pg s c(1) show ?case by (simp add: run.simps)
next
  case (ListAudit i k)
  from ListAudit.prems(2) have st: "agrees (wstore v) (wstore w)" "pg_inv (wstore v)" "mem_inv (wstore w)"
    by (simp_all add: same_world_def)
  obtain r d where pg: "pg_ListAudit i (wstore v) = (r, d)" by fastforce
  with ListAudit.prems(1) have ok: "\<And>err. r = Inl err \<Longrightarrow> \<not> infra err" "smooth ex (k r) (v\<lparr>wstore := d\<rparr>)"
    "distinct (map aud_CreatedAt (pg_audit (wstore v) i))" by auto
  note s = audit_list_agrees [OF st pg ok(1,3)]
  have "same_world (v\<lparr>wstore := d\<rparr>) (w\<lparr>wstore := after_loop (wstore w)\<rparr>)"
    using ListAudit.prems(2) s st pg_read_state(3) [OF pg] by (intro same_world_store) simp_all
  with ListAudit.IH [OF rangeI ok(2)] pg s show ?case by (simp add: run.simps)
next
  case (GetIdempotency sc i k)
  from GetIdempotency.prems(2) have st: "agrees (wstore v) (wstore w)" "pg_inv (wstore v)" "mem_inv (wstore w)"
    by (simp_all add: same_world_def)
  obtain r d where pg: "pg_GetIdempotency sc i (wstore v) = (r, d)" by fastforce
  with GetIdempotency.prems(1) have ok: "\<And>err. r = Inl err \<Longrightarrow> \<not> infra err" "smooth ex (k r) (v\<lparr>wstore := d\<rparr>)"
    "CHR ''|'' \<notin> set sc" by auto
  note s = idempotency_agrees [OF st(1) pg ok(1,3)]
  have "same_world (v\<lparr>wstore := d\<rparr>) (w\<lparr>wstore := wstore w\<rparr>)"
    using GetIdempotency.prems(2) s st pg_read_state(4) [OF pg] by (intro same_world_store) simp_all
  with GetIdempotency.IH [OF rangeI ok(2)] pg s show ?case by (simp add: run.simps)
next
  case (Now k)
  then have "same_world (v\<lparr>ticks := ticks v + 1\<rparr>) (w\<lparr>ticks := ticks w + 1\<rparr>)" by (simp add: same_world_def)
  with Now show ?case by (simp add: run.simps same_world_def)
next
  case (NewID pre k)
  from same_world_draw [OF NewID.prems(2), of pre] NewID show ?case by (simp add: run.simps)
next
  case (Execute q k)
  then have "same_world (v\<lparr>executed := executed v @ [q]\<rparr>) (w\<lparr>executed := executed w @ [q]\<rparr>)"
    by (simp add: same_world_def)
  with Execute show ?case by (simp add: run.simps)
qed

subsection \<open>The calls of a client are smooth\<close>

text \<open>No call of the run over Postgres is answered with an infrastructure error.\<close>

primrec faultless :: "executor \<Rightarrow> 'a prog \<Rightarrow> db world \<Rightarrow> bool" where
  "faultless ex (Return a) = (\<lambda>v. True)"
| "faultless ex (Write c k) =
     (\<lambda>v. case pg_write c (wstore v) of (e, d) \<Rightarrow>
        (\<forall>err. e = Some err \<longrightarrow> \<not> infra err) \<and> faultless ex (k e) (v\<lparr>wstore := d\<rparr>))"
| "faultless ex (GetRequest i k) =
     (\<lambda>v. case pg_GetRequest i (wstore v) of (r, d) \<Rightarrow>
        (\<forall>err. r = Inl err \<longrightarrow> \<not> infra err) \<and> faultless ex (k r) (v\<lparr>wstore := d\<rparr>))"
| "faultless ex (ListOf c k) =
     (\<lambda>v. case pg_list c (wstore v) of (r, d) \<Rightarrow>
        (\<forall>err. r = Inl err \<longrightarrow> \<not> infra err) \<and> faultless ex (k r) (v\<lparr>wstore := d\<rparr>))"
| "faultless ex (ListAudit i k) =
     (\<lambda>v. case pg_ListAudit i (wstore v) of (r, d) \<Rightarrow>
        (\<forall>err. r = Inl err \<longrightarrow> \<not> infra err) \<and> faultless ex (k r) (v\<lparr>wstore := d\<rparr>))"
| "faultless ex (GetIdempotency sc i k) =
     (\<lambda>v. case pg_GetIdempotency sc i (wstore v) of (r, d) \<Rightarrow>
        (\<forall>err. r = Inl err \<longrightarrow> \<not> infra err) \<and> faultless ex (k r) (v\<lparr>wstore := d\<rparr>))"
| "faultless ex (Now k) = (\<lambda>v. faultless ex (k (clock v (ticks v))) (v\<lparr>ticks := ticks v + 1\<rparr>))"
| "faultless ex (NewID p k) = (\<lambda>v. faultless ex (k (draw_id p v)) (after_draw v))"
| "faultless ex (Execute q k) = (\<lambda>v. faultless ex (k (ex q)) (v\<lparr>executed := executed v @ [q]\<rparr>))"

text \<open>A program that lists nothing and whose idempotency scopes contain no bar.\<close>

fun barless_write :: "write_call \<Rightarrow> bool" where
  "barless_write (CreateIdempotency r) \<longleftrightarrow> CHR ''|'' \<notin> set (idem_Scope r)"
| "barless_write _ \<longleftrightarrow> True"

primrec barless :: "'a prog \<Rightarrow> bool" where
  "barless (Return a) \<longleftrightarrow> True"
| "barless (Write c k) \<longleftrightarrow> barless_write c \<and> (\<forall>r. barless (k r))"
| "barless (GetRequest i k) \<longleftrightarrow> (\<forall>r. barless (k r))"
| "barless (ListOf c k) \<longleftrightarrow> False"
| "barless (ListAudit i k) \<longleftrightarrow> False"
| "barless (GetIdempotency sc i k) \<longleftrightarrow> CHR ''|'' \<notin> set sc \<and> (\<forall>r. barless (k r))"
| "barless (Now k) \<longleftrightarrow> (\<forall>t. barless (k t))"
| "barless (NewID p k) \<longleftrightarrow> (\<forall>i. barless (k i))"
| "barless (Execute q k) \<longleftrightarrow> (\<forall>r. barless (k r))"

lemma barless_bind: "barless p \<Longrightarrow> (\<And>a. barless (f a)) \<Longrightarrow> barless (bind p f)"
  by (induction p) auto

text \<open>What a goroutine knows (theory Guarantee) is trimmed and has the stored creation time.\<close>

definition knows :: "request set \<Rightarrow> db \<Rightarrow> bool" where
  "knows K d \<longleftrightarrow>
     (\<forall>q \<in> K. trimmed q \<and> (\<exists>cur. pg_view d (ReqID q) = Some cur \<and> CreatedAt cur = CreatedAt q))"

lemma pg_view_trimmed: "pg_view d i = Some q \<Longrightarrow> trimmed q"
  by (auto simp: pg_view_def trimmed_iff scanRequest_def trim_space_idem)

lemma pg_effect_created:
  assumes "pg_view d i = Some cur"
  shows "\<exists>cur'. pg_view (pg_effect c d) i = Some cur' \<and> CreatedAt cur' = CreatedAt cur"
proof (cases c)
  case (CreateRequest q)
  with assms show ?thesis
    by (auto simp: insert_request_def pg_view_def find_append split: option.split)
next
  case (UpdateRequest q v)
  let ?g = "\<lambda>r. if ReqID r = ReqID q \<and> Version r = v then set_columns (db_ts d) q r else r"
  obtain row where row: "find (\<lambda>r. ReqID r = i) (tbl_requests d) = Some row" "cur = scanRequest row"
    using assms by (auto simp: pg_view_def)
  have "find (\<lambda>r. ReqID r = i) (map ?g (tbl_requests d)) = Some (?g row)"
    using row(1) by (simp add: find_map_hit del: map_map)
  moreover have "CreatedAt (scanRequest (?g row)) = CreatedAt cur"
    using row(2) by (simp add: scanRequest_def set_columns_def)
  ultimately have "pg_view (d\<lparr>tbl_requests := map ?g (tbl_requests d)\<rparr>) i = Some (scanRequest (?g row))"
    by (simp add: pg_view_def)
  with \<open>CreatedAt (scanRequest (?g row)) = CreatedAt cur\<close> assms UpdateRequest show ?thesis
    by (auto simp: update_request_def Let_def)
qed (use assms pg_effect_frame [of c d] in auto)

lemma write_knows:
  assumes "knows K d" and "pg_write c d = (e, d')"
  shows "knows K d'"
  unfolding knows_def
proof (intro ballI)
  fix q assume "q \<in> K"
  with assms(1) obtain cur where q: "trimmed q" "pg_view (tick d) (ReqID q) = Some cur" "CreatedAt cur = CreatedAt q"
    by (auto simp: knows_def)
  from pg_effect_created [OF q(2), of c] q(3) have
    "\<exists>cur. pg_view (pg_effect c (tick d)) (ReqID q) = Some cur \<and> CreatedAt cur = CreatedAt q" by auto
  with pg_write_outcome [OF assms(2)] q show
    "trimmed q \<and> (\<exists>cur. pg_view d' (ReqID q) = Some cur \<and> CreatedAt cur = CreatedAt q)" by auto
qed

lemma knows_tick: "knows K d \<Longrightarrow> knows K (tick d)"
  by (simp add: knows_def)

text \<open>Changes that keep requests trimmed and their creation time are plain.\<close>

definition plain_guarantee :: "guarantee \<Rightarrow> bool" where
  "plain_guarantee G \<longleftrightarrow>
     (\<forall>q. G None q \<longrightarrow> trimmed q) \<and>
     (\<forall>old q. G (Some old) q \<longrightarrow> trimmed old \<longrightarrow> trimmed q \<and> CreatedAt q = CreatedAt old)"

lemma permitted_plain:
  assumes "permitted G K F c" and "plain_guarantee G" and "knows K d" and "barless_write c"
  shows "plain_write (pg_view d) c"
proof (cases c)
  case (UpdateRequest q v)
  with assms(1) obtain old where old: "old \<in> K" "ReqID old = ReqID q" "G (Some old) q" by auto
  with assms(3) obtain cur where "trimmed old" "pg_view d (ReqID q) = Some cur" "CreatedAt cur = CreatedAt old"
    unfolding knows_def by metis
  with old(3) assms(2) UpdateRequest show ?thesis by (auto simp: plain_guarantee_def)
qed (use assms in \<open>auto simp: plain_guarantee_def\<close>)

lemma plain_smooth:
  assumes "ok ex G Q p K F" and "plain_guarantee G" and "barless p"
    and "faultless ex p v" and "pg_inv (wstore v)" and "knows K (wstore v)"
  shows "smooth ex p v"
  using assms(1,3-6)
proof (induction p arbitrary: K F v)
  case (Write c k)
  obtain e d where w: "pg_write c (wstore v) = (e, d)" by fastforce
  have "smooth ex (k e) (v\<lparr>wstore := d\<rparr>)"
    using Write.prems w postgres.write_inv [of "wstore v" c e d] write_knows [of K "wstore v" c e d]
    by (intro Write.IH [of _ K "F - uses_up c"]) auto
  moreover have "plain_write (pg_view (wstore v)) c"
    using Write.prems assms(2) by (intro permitted_plain [of G K F]) auto
  ultimately show ?case using Write.prems(3) w by simp
next
  case (GetRequest i k)
  obtain r d where g: "pg_GetRequest i (wstore v) = (r, d)" by fastforce
  then have d: "d = tick (wstore v)" by (rule pg_read_state)
  have "smooth ex (k r) (v\<lparr>wstore := d\<rparr>)"
  proof (cases r)
    case (Inl err)
    with GetRequest.prems g d show ?thesis
      by (intro GetRequest.IH [of _ K F]) (auto simp: knows_tick)
  next
    case (Inr q)
    with g have q: "pg_view (wstore v) i = Some q"
      using postgres.get_value [OF GetRequest.prems(4), of i q d] by simp
    moreover have "ReqID q = i" using postgres.view_id [OF GetRequest.prems(4) q] .
    ultimately have "knows (insert q K) d"
      using GetRequest.prems(5) pg_view_trimmed [OF q] d by (auto simp: knows_def)
    with GetRequest.prems g d Inr \<open>ReqID q = i\<close> show ?thesis
      by (intro GetRequest.IH [of _ "insert q K" F]) auto
  qed
  then show ?case using GetRequest.prems(3) g by simp
next
  case (GetIdempotency sc i k)
  obtain r d where g: "pg_GetIdempotency sc i (wstore v) = (r, d)" by fastforce
  then have d: "d = tick (wstore v)" by (rule pg_read_state)
  have "smooth ex (k r) (v\<lparr>wstore := d\<rparr>)"
    using GetIdempotency.prems g d by (intro GetIdempotency.IH [of _ K F]) (auto simp: knows_tick)
  then show ?case using GetIdempotency.prems(2,3) g by simp
next
  case (Now k)
  then show ?case by (auto intro!: Now.IH [of _ K F])
next
  case (NewID pre k)
  then show ?case by (auto intro!: NewID.IH [of _ K "insert (draw_id pre v) F"] simp: after_draw_def split: option.split)
next
  case (Execute q k)
  then show ?case by (auto intro!: Execute.IH [of _ K F])
qed auto


text \<open>The calls of a client, the request they name, and the listings whose order is determined.\<close>

fun client_call :: "api_call \<Rightarrow> bool" where
  "client_call (CallReminders limit) \<longleftrightarrow> False"
| "client_call (CallExecutions limit) \<longleftrightarrow> False"
| "client_call _ \<longleftrightarrow> True"

fun named_request :: "api_call \<Rightarrow> string" where
  "named_request (CallGetRequest a i) = i"
| "named_request (CallSubmit a i key) = i"
| "named_request (CallApprove a i key inp) = i"
| "named_request (CallReject a i key inp) = i"
| "named_request (CallExecutionResult a i inp) = i"
| "named_request (CallListAudit a i) = i"
| "named_request _ = []"

fun no_ties :: "api_call \<Rightarrow> db \<Rightarrow> bool" where
  "no_ties (CallListRequests a f) d \<longleftrightarrow> inj_on CreatedAt (set (tbl_requests d))"
| "no_ties (CallListAudit a i) d \<longleftrightarrow> distinct (map aud_CreatedAt (pg_audit d i))"
| "no_ties _ d \<longleftrightarrow> True"

lemma allowed_plain:
  assumes "trim_space (defaultReviewerID svc) = defaultReviewerID svc"
  shows "plain_guarantee (allowed svc ex c)"
proof -
  have "trimmed q \<and> CreatedAt q = CreatedAt old" if "changes svc old q" "trimmed old" for old q
    using that assms by (induction) (auto simp: trimmed_iff change_defs trim_space_idem)
  moreover have "trimmed q" if "is_draft_of a inp q" for a inp q
    using that by (simp add: trimmed_iff is_draft_of_def)
  ultimately show ?thesis
    unfolding plain_guarantee_def by (metis allowed_changes allowed_create)
qed

subsection \<open>The methods of the service\<close>

lemma barless_ensure: "CHR ''|'' \<notin> set scope \<Longrightarrow> barless (ensureIdempotency scope key i payload)"
  by (simp add: ensureIdempotency_def split: sum.split)

lemma barless_CreateDraft: "barless (CreateDraft a inp)"
  by (simp add: CreateDraft_def auditFor_def Let_def split: option.split)

lemma barless_SubmitRequest:
  assumes "CHR ''|'' \<notin> set i"
  shows "barless (SubmitRequest svc a i key)"
proof -
  have "CHR ''|'' \<notin> set (''submit:'' @ i)" using assms by simp
  then show ?thesis
    unfolding SubmitRequest_def Let_def
    by (intro barless_bind; simp add: requireOwnedOrAdmin_def auditFor_def split: sum.split option.split)
      (auto intro!: barless_bind barless_ensure split: sum.split option.split)
qed

lemma barless_reviewRequest:
  assumes "CHR ''|'' \<notin> set i" and "CHR ''|'' \<notin> set decision"
  shows "barless (reviewRequest a i key decision comment)"
proof -
  have key: "barless (ensureIdempotency (decision @ '':'' @ i) key i p)" for p
    using assms by (intro barless_ensure) simp
  have "barless (replayDecided q i key decision comment)" for q
    unfolding replayDecided_def by (intro barless_bind key) (simp split: option.split)
  then show ?thesis
    unfolding reviewRequest_def Let_def
    by (auto simp: auditFor_def intro!: barless_bind key [simplified] split: sum.split option.split)
qed

lemma barless_RecordExecutionResult: "barless (RecordExecutionResult svc a i inp)"
  by (simp add: RecordExecutionResult_def applyExecutionResult_def auditFor_def Let_def split: sum.split option.split)

lemma barless_api:
  assumes "client_call c" and "CHR ''|'' \<notin> set (named_request c)"
    and "\<nexists>a f. c = CallListRequests a f" and "\<nexists>a i. c = CallListAudit a i"
  shows "barless (api_prog svc c)"
  using assms
  by (cases c)
    (auto intro!: barless_bind barless_CreateDraft barless_SubmitRequest barless_reviewRequest
      barless_RecordExecutionResult simp: ApproveRequest_def RejectRequest_def Service_GetRequest_def split: sum.split)

lemma smooth_ListRequests:
  assumes "no_ties (CallListRequests a f) (wstore v)" and "faultless ex (api_prog svc (CallListRequests a f)) v"
  shows "smooth ex (api_prog svc (CallListRequests a f)) v"
  using assms by (auto simp: Service_ListRequests_def split: option.splits prod.splits)

lemma smooth_ListAudit:
  assumes "no_ties (CallListAudit a i) (wstore v)" and "faultless ex (api_prog svc (CallListAudit a i)) v"
    and "pg_inv (wstore v)"
  shows "smooth ex (api_prog svc (CallListAudit a i)) v"
proof -
  obtain r d where g: "pg_GetRequest i (wstore v) = (r, d)" by fastforce
  then have d: "d = tick (wstore v)" by (rule pg_read_state)
  have id: "ReqID q = i" if "r = Inr q" for q
    using that g postgres.get_value [OF assms(3), of i q d] postgres.view_id [OF assms(3)] by auto
  show ?thesis
    using assms(1,2) g d id
    by (cases r) (auto simp: Service_ListAudit_def Service_GetRequest_def split: prod.splits)
qed

lemma client_smooth:
  assumes "client_call c" and "CHR ''|'' \<notin> set (named_request c)" and "no_ties c (wstore v)"
    and "trim_space (defaultReviewerID svc) = defaultReviewerID svc"
    and "faultless ex (api_prog svc c) v" and "pg_inv (wstore v)"
  shows "smooth ex (api_prog svc c) v"
proof -
  consider (requests) a f where "c = CallListRequests a f" | (audit) a i where "c = CallListAudit a i"
    | (other) "\<nexists>a f. c = CallListRequests a f" "\<nexists>a i. c = CallListAudit a i" by blast
  then show ?thesis
  proof cases
    case requests
    with assms(3,5) smooth_ListRequests show ?thesis by metis
  next
    case audit
    with assms(3,5,6) smooth_ListAudit show ?thesis by metis
  next
    case other
    show ?thesis
      by (rule plain_smooth [OF ok_api_prog allowed_plain [OF assms(4)] barless_api [OF assms(1,2) other] assms(5,6)])
        (simp add: knows_def)
  qed
qed

subsection \<open>Properties\<close>

text \<open>
  C39: A call of a client (not a pass of the worker) has the same outcome over Postgres and
  over the in-memory store, and leaves the same requests, keys, audit entries, reviews and job
  records, if the two hold the same data before it (with timestamps kept exactly and stored
  free text trimmed), no statement of the call meets an infrastructure error, the default
  reviewer is trimmed, the id the call names has no bar in it, and, for a listing, no two of
  the rows to be sorted have the same time.
\<close>

theorem store_equivalence:
  assumes "same_world v w" and "client_call c" and "faultless ex (api_prog svc c) v"
    and "trim_space (defaultReviewerID svc) = defaultReviewerID svc"
    and "CHR ''|'' \<notin> set (named_request c)" and "no_ties c (wstore v)"
  shows "\<exists>out v' w'. run pg_ops ex (api_prog svc c) v = (out, v') \<and>
    run mem_ops ex (api_prog svc c) w = (out, w') \<and> same_world v' w'"
proof -
  have "pg_inv (wstore v)" using assms(1) by (simp add: same_world_def)
  with assms have "smooth ex (api_prog svc c) v" by (intro client_smooth)
  then show ?thesis using assms(1) by (rule smooth_run)
qed

theorem store_equivalence_witness:
  "\<exists>w'. run mem_ops SimulatedExecutor (api_prog sample_service sample_submit) (sample_world sample_mem1 2 2 []) =
     (ARequest (Inr sample_q2), w') \<and> same_world (sample_world (sample_dbs 2) 6 4 []) w'"
proof -
  have "faultless SimulatedExecutor (api_prog sample_service sample_submit) (sample_world (sample_dbs 1) 2 2 [])"
    by (simp add: sample_submit_def SubmitRequest_def requireOwnedOrAdmin_def ensureIdempotency_def sample_eval
        infra_def)
  moreover have "same_world (sample_world (sample_dbs 1) 2 2 []) (sample_world sample_mem1 2 2 [])"
    by (auto simp: same_world_def agrees_def pg_inv_def mem_inv_def pg_idem_def mem_idem_def pg_audit_def
        sample_mem_eval sample_eval trimmed_iff fun_eq_iff)
  moreover have "trim_space (defaultReviewerID sample_service) = defaultReviewerID sample_service"
    by (simp add: sample_service_def NewService_def)
  ultimately show ?thesis
    using store_equivalence [of _ _ sample_submit SimulatedExecutor sample_service] submit_run [of SimulatedExecutor]
    by (fastforce simp: sample_submit_def)
qed

text \<open>The rows a limited selection takes come before those it leaves.\<close>

lemma take_sorted_first:
  "x \<in> set (take n (sort_key k xs)) \<Longrightarrow> y \<in> set xs \<Longrightarrow> y \<notin> set (take n (sort_key k xs)) \<Longrightarrow> k x \<le> k y"
proof -
  assume x: "x \<in> set (take n (sort_key k xs))" and y: "y \<in> set xs" "y \<notin> set (take n (sort_key k xs))"
  from y have "y \<in> set (drop n (sort_key k xs))"
    by (metis Un_iff append_take_drop_id set_append set_sort)
  moreover have "sorted (map k (take n (sort_key k xs) @ drop n (sort_key k xs)))"
    unfolding append_take_drop_id by simp
  ultimately show "k x \<le> k y" using x unfolding map_append sorted_append by auto
qed

text \<open>
  C40: Where the two repositories hold the same data with exact timestamps, both select only
  requests due for execution, without repetition: Postgres the earliest due ones, at most the
  limit, or 25 where the limit is not positive; the in-memory store any, at most the limit, or
  all of them where the limit is not positive. For a positive limit they select the same
  number.
\<close>

theorem due_selection_agrees:
  assumes "agrees d s" and "pg_inv d" and "mem_inv s"
    and "pg_list (ListRequestsReadyForExecution cutoff limit) d = (Inr qs, d')"
    and "mem_list (ListRequestsReadyForExecution cutoff limit) s = (Inr rs, s')"
  shows "length qs = min (default_limit limit) (card (all_due (mem_ready cutoff) s)) \<and>
    length rs = (if 0 < sint limit then min (nat (sint limit)) (card (all_due (mem_ready cutoff) s))
                 else card (all_due (mem_ready cutoff) s)) \<and>
    (0 < sint limit \<longrightarrow> length qs = length rs) \<and> distinct (map ReqID qs) \<and> distinct (map ReqID rs) \<and>
    set qs \<subseteq> all_due (mem_ready cutoff) s \<and> set rs \<subseteq> all_due (mem_ready cutoff) s \<and>
    (\<forall>q \<in> set qs. \<forall>r \<in> all_due (mem_ready cutoff) s - set qs. the (NextExecutionAt q) \<le> the (NextExecutionAt r))"
proof -
  let ?k = "\<lambda>r. the (NextExecutionAt r)" and ?n = "default_limit limit"
  let ?p = "heap_order (tick d)" and ?due = "all_due (mem_ready cutoff) s"
  have p: "mset ?p = mset (tbl_requests d)"
    using assms(2) by (simp add: heap_order_def pg_inv_def permutes_lists_def tick_def)
  have sp: "set ?p = {q. mem_view s (ReqID q) = Some q}"
    using mset_eq_setD [OF p] set_rows [OF assms(2) agrees_parts(4) [OF assms(1)]] agrees_parts(1) [OF assms(1)] by simp
  have ready: "pg_ready cutoff = mem_ready cutoff"
    by (auto simp: pg_ready_def mem_ready_def time_after_def fun_eq_iff split: option.split)
  let ?f = "filter (mem_ready cutoff) ?p"
  have due: "set ?f = ?due" using sp by (auto simp: all_due_def)
  have dp: "distinct (map ReqID ?p)"
    using assms(2) mset_eq_imp_distinct_iff [of "map ReqID ?p" "map ReqID (tbl_requests d)"] p
    by (simp add: pg_inv_def)
  then have df: "distinct (map ReqID ?f)" by (rule distinct_map_filter)
  have "map scanRequest (take ?n (sort_key ?k ?f)) = take ?n (sort_key ?k ?f)"
    using agrees_parts(4) [OF assms(1)] mset_eq_setD [OF p]
    by (intro map_idI) (auto simp: list_all_iff trimmed_def dest!: in_set_takeD)
  then have qs: "qs = take ?n (sort_key ?k ?f)"
    using assms(4) agrees_parts(5) [OF assms(1)]
    by (simp add: pg_list_defs ready [symmetric])
      (auto simp: select_ready_def dest!: statement_value)
  have rs: "rs = collect_upto (mem_ready cutoff) (sint limit) [] (range_requests s)"
    using assms(5) by (simp add: mem_ListRequestsReadyForExecution_def)
  note sel = selection [OF assms(3) rs]
  have "distinct (map ReqID (sort_key ?k ?f))"
    using df mset_eq_imp_distinct_iff [of "map ReqID (sort_key ?k ?f)" "map ReqID ?f"] by simp
  then have "distinct (map ReqID qs)" unfolding qs by (simp add: take_map [symmetric])
  moreover have "set qs \<subseteq> ?due" unfolding qs using due by (auto dest: in_set_takeD)
  moreover have "length ?f = card ?due"
    using df distinct_card [of ?f] due by (simp add: distinct_map)
  then have "length qs = min ?n (card ?due)" unfolding qs by (simp add: min.commute)
  moreover have "\<forall>q \<in> set qs. \<forall>r \<in> ?due - set qs. ?k q \<le> ?k r"
    unfolding qs due [symmetric] by (intro ballI take_sorted_first) auto
  moreover have "?n = nat (sint limit)" if "0 < sint limit" using that by (simp add: default_limit_def)
  ultimately show ?thesis using sel by simp
qed

theorem due_selection_agrees_witness:
  "\<exists>d s qs rs d' s'. pg_list (ListRequestsReadyForExecution 9 0) d = (Inr qs, d') \<and>
     mem_list (ListRequestsReadyForExecution 9 0) s = (Inr rs, s') \<and> agrees d s \<and>
     length qs = 1 \<and> length rs = 1 \<and> set qs \<subseteq> all_due (mem_ready 9) s"
proof -
  let ?d = "sample_db [sample_q3] [] [] [] [] 0" and ?s = "sample_mem\<lparr>mem_requests := [(''req_00'', sample_q3)]\<rparr>"
  have agr: "agrees ?d ?s"
    by (auto simp: agrees_def pg_idem_def mem_idem_def pg_audit_def sample_mem_eval sample_eval trimmed_iff fun_eq_iff)
  have inv: "pg_inv ?d" "mem_inv ?s"
    by (simp_all add: pg_inv_def mem_inv_def sample_mem_eval sample_eval)
  have pg: "pg_list (ListRequestsReadyForExecution 9 0) ?d = (Inr [sample_q3], tick ?d)"
    by (simp add: sample_eval tick_def)
  have mem: "mem_list (ListRequestsReadyForExecution 9 0) ?s = (Inr [sample_q3], after_loop ?s)"
    by (simp add: mem_ListRequestsReadyForExecution_def range_requests_def mem_ready_def time_after_def sample_mem_eval)
  from due_selection_agrees [OF agr inv pg mem] have "set [sample_q3] \<subseteq> all_due (mem_ready 9) ?s" by blast
  with agr pg mem show ?thesis by (metis One_nat_def length_Cons list.size(3))
qed

text \<open>
  The selections for reminders differ at the boundary: a request reminded exactly at the cutoff
  is due again for Postgres and not yet for the in-memory store.
\<close>

lemma reminder_boundary:
  "pg_needs_reminder cutoff q \<longleftrightarrow>
     mem_needs_reminder cutoff q \<or>
     Status q = StatusPendingReview \<and> LastRemindedAt q = Some cutoff \<and>
     (\<exists>t \<le> cutoff. SubmittedAt q = Some t)"
  by (auto simp: pg_needs_reminder_def mem_needs_reminder_def time_after_def time_before_def split: option.splits)

end
