(* ===== verification/Spec2Isabelle.thy ===== *)
theory Spec2Isabelle
  imports SystemProperties ServiceProperties HttpProperties Bootstrap StoreEquivalence
begin

text \<open>
  Review workflow: employees draft and submit requests, reviewers approve or reject them, and a
  worker executes what was approved, with retries, reminders, idempotency keys and an audit log.
  The program is a Go server (\<open>src/cmd\<close>, \<open>src/internal\<close>). This development models its Go code
  and proves what makes it correct. This theory only imports the others and documents them.

  \<^bold>\<open>How the program is put together.\<close> The HTTP transport turns a request into one call on the
  application service; the worker makes two calls on it per tick. The service keeps no state: it
  reads and writes through the \<open>Store\<close> interface, hands approved requests to the \<open>Executor\<close>
  interface, and takes times and ids from the clock and the random source. The Postgres and the
  in-memory repository implement \<open>Store\<close>. Every call on a store is atomic (one SQL statement, or
  one critical section), but a service method is many calls, between which other goroutines run.

  \<^bold>\<open>Theories, bottom up.\<close>

  \<^item> \<open>Prelude\<close>: Go's \<open>int\<close> and \<open>time.Duration\<close> as 64-bit words, instants as integers, loops that
    collect up to a limit, and the shared collections of rules. \<open>GoStrings\<close>: \<open>strings.TrimSpace\<close>,
    \<open>Contains\<close>, \<open>ToLower\<close>, \<open>Join\<close>, hexadecimal and decimal printing on byte strings. \<open>GoNumbers\<close>:
    \<open>strconv.Atoi\<close>, \<open>ParseBool\<close>, \<open>time.ParseDuration\<close> with its floating-point step. \<open>Sha256\<close>: the
    hash behind the fingerprints, its constants computed from roots of primes.
  \<^item> \<open>Domain\<close> (\<open>internal/domain/models.go\<close>, \<open>internal/application/errors.go\<close>): every struct as a
    record, roles and statuses as strings, sentinel errors, wrapping and \<open>errors.Is\<close>.
  \<^item> \<open>StoreApi\<close> (\<open>internal/application/interfaces.go\<close>): the two interfaces, and programs over
    them: a service method is a tree of calls (type \<open>prog\<close>). \<open>run\<close> executes a tree alone; one node
    at a time (\<open>step\<close>) it interleaves with others.
  \<^item> \<open>StoreContract\<close>: what the service may rely on, as the locales \<open>request_store\<close> (reads are
    snapshots, an update succeeds only on the expected version) and \<open>workflow_store\<close> (the log only
    grows, keys are kept). \<open>MemoryStore\<close> (\<open>internal/repository/memory/store.go\<close>) and
    \<open>PostgresStore\<close> (\<open>internal/repository/postgres/store.go\<close> over the schema of
    \<open>db/migrations/000001_init.sql\<close>) model every method and interpret both locales.
  \<^item> \<open>Service\<close> (\<open>internal/application/service.go\<close>, \<open>executor.go\<close>): every method as a program, in
    the order of its calls, with every early return, errors as values.
  \<^item> \<open>Workflow\<close>: the abstract specification: the calls, who may change what (\<open>allowed\<close>), the
    graph of statuses, coherent requests (\<open>well_formed\<close>). \<open>Guarantee\<close>: a logic for programs, by
    which every method writes only allowed changes of values it read. \<open>Concurrency\<close>: any number of
    clients and worker passes in any interleaving as a step relation, its invariant by rule
    induction in the locale \<open>server\<close>. \<open>Refinement\<close>: the abstract machine, whose steps are labelled
    with the logged change; every step of the server is one of its steps or none, so every log is
    one of its runs; and the counters of a request as numbers of events. \<open>Progress\<close>: how many calls
    a method makes at most, in the locale \<open>limited_store\<close>. \<open>Runs\<close> and \<open>Sample\<close>: whole runs as
    reachable states, and a concrete one for the witnesses.
  \<^item> \<open>SystemProperties\<close>: the properties of the concurrent server over both stores.
  \<^item> \<open>Sequential\<close>, \<open>Passes\<close>, \<open>ServiceProperties\<close>: the effect of each method, run alone on the
    in-memory store, on its branches, and of whole passes of the worker.
  \<^item> \<open>StoreEquivalence\<close>: the two repositories hold and answer the same, call by call and for
    whole programs (\<open>smooth_run\<close>), outside of the listed differences, which the calls of clients
    avoid (\<open>client_smooth\<close>).
  \<^item> \<open>Http\<close>, \<open>HttpProperties\<close> (\<open>internal/transport/http/server.go\<close>, \<open>ui.go\<close>): handlers as
    programs, the table of routes, errors to status codes.
  \<^item> \<open>Worker\<close> (\<open>internal/jobs/worker.go\<close>): one run and the polling loop.
  \<^item> \<open>Config\<close> (\<open>internal/config/config.go\<close>), \<open>Platform\<close> (\<open>internal/platform\<close>): reading and
    validating the environment, migrations, tracing. \<open>Bootstrap\<close> (\<open>cmd/server/main.go\<close>): the order
    of start and shutdown, and what each part is built from.

  \<^bold>\<open>What the properties show.\<close> For the server under concurrency, with failing statements: stored
  requests stay coherent; every change was made by an actor the code entitles and is the
  prescribed one for the value it replaced; an approval has a second person; no acknowledged
  update is lost and every version has one writer; a terminal request is never changed;
  executions by the worker stay within the configured budget; the log and the keys are
  append-only; the log is a run of the abstract workflow; every call returns after a bounded
  number of its own calls. For single calls: their exact effects and refusals, idempotent replay, retry times
  without overflow, listings. For the other parts: the documented service call for every HTTP
  route, under the identity of its headers, read-only routes, worker runs that leave nothing due, which
  configurations are accepted, migrations in order, the order of the start. Some properties
  state behaviour that is hardly meant: a review replayed with a mismatching key reports success
  with a zero request (\<open>approve_mismatch_is_success\<close>) or discloses the request
  (\<open>approve_discloses\<close>), a failed submission uses up its key (\<open>submit_burns_key\<close>), a listing shows
  more than single reads (\<open>list_discloses\<close>), any reviewer may report an execution result
  (\<open>execution_result_effect\<close>), a blank reviewer is accepted (\<open>blank_reviewer\<close>).

  \<^bold>\<open>Bounds and assumptions.\<close> Counters are 64-bit words that wrap; the concurrent invariant holds
  for fewer than 2^63 changes, which bounds the versions. Ids are drawn from the modelled random
  source; where new ids matter their freshness is a hypothesis, stated over the ids a run draws,
  because 64 random bits may repeat; the steps of the concurrent server (\<open>sys_step\<close>) assume that
  no id is drawn twice. No fuel is used: programs are finite trees, the loops of the
  parsers terminate by measures, and the worker's endless loop runs over an explicit sequence of
  signals. What Go or the database leaves open (map order, ties of \<open>sort.Slice\<close>, rows without
  \<open>ORDER BY\<close>, failing statements, precision of timestamps) is a field of the state about which a
  theorem assumes nothing but what it says.

  \<^bold>\<open>Not modelled.\<close> Tracing spans (\<open>startSpan\<close>, \<open>recordSpanErr\<close>), log texts, contexts and timeouts:
  they do not influence results, apart from a cancelled context, which is a failing statement.
  Gin's matching of patterns, JSON and \<open>ShouldBindJSON\<close>, the file server and the middleware:
  their results are fields of the request. \<open>strconv.ParseFloat\<close>, the embedded files, the
  connection pool and the OpenTelemetry libraries: parameters. The web page, the container and
  CI files, the tests and the SQL text itself: not Go code of the server; the constraints of the
  schema are part of the statements' model.
\<close>

end
